(* ===== verification/Prelude.thy ===== *)
theory Prelude
  imports Main "HOL-Library.Word"
begin

text \<open>
  Shared vocabulary of the development: the collections of facts the handler
  proofs unfold, the error combinator every fallible step is threaded through,
  the type names of the model, and generic lemmas on lists and sums that the
  component theories use.
\<close>

named_theorems handler_defs
  "definitions of the request handlers and their steps, unfolded to evaluate them"

named_theorems js_simps
  "evaluation rules of the JavaScript value operations"

type_synonym byte = "8 word"

text \<open>An ECMAScript time value: milliseconds since 1970-01-01T00:00:00Z.\<close>

type_synonym time_ms = int

text \<open>
  The error combinator: a computation that may throw is a value of
  \<open>'e + 'a\<close>, \<open>Inl\<close> the thrown error. \<open>bindE\<close> runs the next step only when
  the previous one returned, as straight-line JavaScript code inside a
  \<open>try\<close> block does.
\<close>

definition bindE :: "'e + 'a \<Rightarrow> ('a \<Rightarrow> 'e + 'b) \<Rightarrow> 'e + 'b" where
  "bindE m f = (case m of Inl e \<Rightarrow> Inl e | Inr a \<Rightarrow> f a)"

lemma bindE_Inl [simp]: "bindE (Inl e) f = Inl e"
  by (simp add: bindE_def)

lemma bindE_Inr [simp]: "bindE (Inr a) f = f a"
  by (simp add: bindE_def)

lemma bindE_eq_Inr_iff:
  "bindE m f = Inr b \<longleftrightarrow> (\<exists>a. m = Inr a \<and> f a = Inr b)"
  by (cases m) simp_all

lemma bindE_eq_Inl_iff:
  "bindE m f = Inl e \<longleftrightarrow> m = Inl e \<or> (\<exists>a. m = Inr a \<and> f a = Inl e)"
  by (cases m) simp_all

subsection \<open>Lists\<close>

lemma take_append_of_le [simp]:
  "n \<le> length xs \<Longrightarrow> take n (xs @ ys) = take n xs"
  by simp

lemma length_take_le_bound [intro]: "length (take n xs) \<le> n"
  by simp

lemma unat_byte_lt [simp]: "unat (b :: byte) < 256"
  using unsigned_less [of b] by simp

end
