(* ===== verification/JsValue.thy ===== *)
theory JsValue
  imports Prelude
begin

text \<open>
  The JavaScript values the two handlers manipulate: what \<^verbatim>\<open>JSON.parse\<close>
  returns, the objects they build for \<^verbatim>\<open>JSON.stringify\<close>, and the operators
  the code applies to them: truthiness (\<^verbatim>\<open>!x\<close>, \<^verbatim>\<open>a || b\<close>), property
  reads (\<^verbatim>\<open>v[k]\<close>, \<^verbatim>\<open>v.k\<close>, \<^verbatim>\<open>v?.k\<close>), \<^verbatim>\<open>Array.isArray\<close>, \<^verbatim>\<open>String(v)\<close>
  as template literals use it, and \<^verbatim>\<open>Array.prototype.join\<close>.
  Numbers are integers: the handlers only test numbers for truthiness, print
  HTTP status codes and array lengths, and pass the rest through.
  Objects are association lists in insertion order; a key bound twice reads
  its last binding, as the object \<^verbatim>\<open>JSON.parse\<close> builds does.
\<close>

datatype jsval =
    JUndefined
  | JNull
  | JBool bool
  | JNum int
  | JStr string
  | JArr "jsval list"
  | JObj "(string \<times> jsval) list"

text \<open>The errors a statement of the handlers can throw, by constructor.\<close>

datatype js_error =
    TypeError string
  | SyntaxError string
  | RangeError string

fun error_message :: "js_error \<Rightarrow> string" where
  "error_message (TypeError m) = m"
| "error_message (SyntaxError m) = m"
| "error_message (RangeError m) = m"

subsection \<open>Truthiness\<close>

fun js_truthy :: "jsval \<Rightarrow> bool" where
  "js_truthy JUndefined = False"
| "js_truthy JNull = False"
| "js_truthy (JBool b) = b"
| "js_truthy (JNum n) = (n \<noteq> 0)"
| "js_truthy (JStr s) = (s \<noteq> [])"
| "js_truthy (JArr _) = True"
| "js_truthy (JObj _) = True"

text \<open>\<^verbatim>\<open>a || b\<close>: the first operand when it is truthy, else the second.\<close>

definition js_or :: "jsval \<Rightarrow> jsval \<Rightarrow> jsval" where
  "js_or a b = (if js_truthy a then a else b)"

text \<open>A JavaScript string or an absent value (\<^verbatim>\<open>undefined\<close>) as a value.\<close>

definition opt_str :: "string option \<Rightarrow> jsval" where
  "opt_str s = (case s of None \<Rightarrow> JUndefined | Some x \<Rightarrow> JStr x)"

subsection \<open>Decimal printing\<close>

definition digit_char :: "nat \<Rightarrow> char" where
  "digit_char d = char_of (48 + d)"

fun nat_to_dec :: "nat \<Rightarrow> string" where
  "nat_to_dec n =
     (if n < 10 then [digit_char n] else nat_to_dec (n div 10) @ [digit_char (n mod 10)])"

declare nat_to_dec.simps [simp del]

definition int_to_dec :: "int \<Rightarrow> string" where
  "int_to_dec i = (if i < 0 then CHR ''-'' # nat_to_dec (nat (- i)) else nat_to_dec (nat i))"

subsection \<open>Property reads\<close>

text \<open>
  An own property of an object; the last binding of a key wins.
  \<^verbatim>\<open>undefined\<close> when the key is absent.
\<close>

definition obj_get :: "(string \<times> jsval) list \<Rightarrow> string \<Rightarrow> jsval" where
  "obj_get kvs k = (case map_of (rev kvs) k of None \<Rightarrow> JUndefined | Some v \<Rightarrow> v)"

text \<open>A canonical array index: a decimal numeral without leading zeros.\<close>

fun dec_value :: "string \<Rightarrow> nat" where
  "dec_value [] = 0"
| "dec_value (c # cs) = (of_char c - 48) * 10 ^ length cs + dec_value cs"

definition is_digit :: "char \<Rightarrow> bool" where
  "is_digit c \<longleftrightarrow> 48 \<le> (of_char c :: nat) \<and> (of_char c :: nat) \<le> 57"

definition array_index :: "string \<Rightarrow> nat option" where
  "array_index k =
     (if k \<noteq> [] \<and> list_all is_digit k \<and> (hd k = CHR ''0'' \<longrightarrow> k = ''0'')
      then Some (dec_value k) else None)"

text \<open>
  \<^verbatim>\<open>v[k]\<close>: a read on \<^verbatim>\<open>null\<close> or \<^verbatim>\<open>undefined\<close> throws a \<^verbatim>\<open>TypeError\<close>;
  arrays and strings have \<^verbatim>\<open>length\<close> and their indices; other primitives
  have no own properties. Inherited members (methods of the prototypes) are
  not values of \<open>jsval\<close>; no name the handlers read is one.
\<close>

definition read_error :: "string \<Rightarrow> string \<Rightarrow> js_error" where
  "read_error what k =
     TypeError (''Cannot read properties of '' @ what @ '' (reading '' @ [CHR 0x27] @ k @ [CHR 0x27, CHR '')''])"

fun get_prop :: "jsval \<Rightarrow> string \<Rightarrow> js_error + jsval" where
  "get_prop JUndefined k = Inl (read_error ''undefined'' k)"
| "get_prop JNull k = Inl (read_error ''null'' k)"
| "get_prop (JBool _) k = Inr JUndefined"
| "get_prop (JNum _) k = Inr JUndefined"
| "get_prop (JStr s) k =
     Inr (if k = ''length'' then JNum (int (length s))
          else case array_index k of
                 Some i \<Rightarrow> if i < length s then JStr [s ! i] else JUndefined
               | None \<Rightarrow> JUndefined)"
| "get_prop (JArr vs) k =
     Inr (if k = ''length'' then JNum (int (length vs))
          else case array_index k of
                 Some i \<Rightarrow> if i < length vs then vs ! i else JUndefined
               | None \<Rightarrow> JUndefined)"
| "get_prop (JObj kvs) k = Inr (obj_get kvs k)"

text \<open>\<^verbatim>\<open>null\<close> and \<^verbatim>\<open>undefined\<close>, the values a property read throws on.\<close>

fun is_nullish :: "jsval \<Rightarrow> bool" where
  "is_nullish JUndefined = True"
| "is_nullish JNull = True"
| "is_nullish _ = False"

text \<open>\<^verbatim>\<open>v?.k\<close>: \<^verbatim>\<open>undefined\<close> on a nullish \<open>v\<close>, the property read otherwise.\<close>

definition optional_prop :: "jsval \<Rightarrow> string \<Rightarrow> jsval" where
  "optional_prop v k = (case get_prop v k of Inl _ \<Rightarrow> JUndefined | Inr x \<Rightarrow> x)"

subsection \<open>Arrays and strings\<close>

fun is_array :: "jsval \<Rightarrow> bool" where
  "is_array (JArr _) = True"
| "is_array _ = False"

fun array_elems :: "jsval \<Rightarrow> jsval list" where
  "array_elems (JArr vs) = vs"
| "array_elems _ = []"

text \<open>\<^verbatim>\<open>xs.join(sep)\<close> on a list of strings.\<close>

fun js_join :: "string \<Rightarrow> string list \<Rightarrow> string" where
  "js_join sep [] = []"
| "js_join sep [x] = x"
| "js_join sep (x # y # zs) = x @ sep @ js_join sep (y # zs)"

text \<open>
  \<^verbatim>\<open>s.split(sep)\<close> for a non-empty separator: the pieces between the
  occurrences of \<open>sep\<close>, scanning from the left. \<open>cur\<close> is the piece read
  so far. Not called by the handlers: the reading a client applies to the
  lists they print.
\<close>

function js_split_from :: "string \<Rightarrow> string \<Rightarrow> string \<Rightarrow> string list" where
  "js_split_from sep cur [] = [cur]"
| "js_split_from sep cur (c # cs) =
     (if sep \<noteq> [] \<and> take (length sep) (c # cs) = sep
      then cur # js_split_from sep [] (drop (length sep) (c # cs))
      else js_split_from sep (cur @ [c]) cs)"
  by pat_completeness auto
termination
  by (relation "measure (\<lambda>(sep, cur, s). length s)") auto

definition js_split :: "string \<Rightarrow> string \<Rightarrow> string list" where
  "js_split sep s = js_split_from sep [] s"

text \<open>
  \<^verbatim>\<open>String(v)\<close>, the conversion a template literal \<^verbatim>\<open>`${v}`\<close> applies;
  an array prints its elements joined by commas, \<^verbatim>\<open>null\<close> and
  \<^verbatim>\<open>undefined\<close> elements as empty strings.
\<close>

fun js_to_string :: "jsval \<Rightarrow> string" where
  "js_to_string JUndefined = ''undefined''"
| "js_to_string JNull = ''null''"
| "js_to_string (JBool b) = (if b then ''true'' else ''false'')"
| "js_to_string (JNum n) = int_to_dec n"
| "js_to_string (JStr s) = s"
| "js_to_string (JArr vs) =
     js_join '','' (map (\<lambda>v. if v = JUndefined \<or> v = JNull then [] else js_to_string v) vs)"
| "js_to_string (JObj _) = ''[object Object]''"

text \<open>\<^verbatim>\<open>`${v.length}`\<close>: the read may throw, its value is printed.\<close>

definition length_text :: "jsval \<Rightarrow> js_error + string" where
  "length_text v = bindE (get_prop v ''length'') (\<lambda>l. Inr (js_to_string l))"

subsection \<open>Own property keys\<close>

text \<open>
  The order in which an object's own keys are enumerated
  (\<^verbatim>\<open>OrdinaryOwnPropertyKeys\<close>, used by \<^verbatim>\<open>JSON.stringify\<close>): the
  array-index keys (canonical numerals below \<open>2\<^sup>3\<^sup>2 - 1\<close>) in ascending
  numeric order, then the other string keys in the order they were first
  created. A key bound twice in the literal is one property, holding the last value.
\<close>

definition is_array_key :: "string \<Rightarrow> bool" where
  "is_array_key k = (case array_index k of Some i \<Rightarrow> int i < 4294967295 | None \<Rightarrow> False)"

definition own_keys :: "(string \<times> jsval) list \<Rightarrow> string list" where
  "own_keys kvs =
     (let ks = remdups (map fst kvs)
      in sort_key (\<lambda>k. the (array_index k)) (filter is_array_key ks) @ filter (\<lambda>k. \<not> is_array_key k) ks)"

subsection \<open>Facts about the operations\<close>

lemma nullish_not_truthy [simp]: "is_nullish v \<Longrightarrow> \<not> js_truthy v"
  by (cases v) simp_all

lemma get_prop_Inl_iff:
  "(\<exists>e. get_prop v k = Inl e) \<longleftrightarrow> is_nullish v"
  by (cases v) simp_all

lemma get_prop_not_nullish [simp]:
  "\<not> is_nullish v \<Longrightarrow> get_prop v k = Inr (optional_prop v k)"
  by (cases v) (simp_all add: optional_prop_def)

lemma optional_prop_nullish [simp]: "is_nullish v \<Longrightarrow> optional_prop v k = JUndefined"
  by (cases v) (simp_all add: optional_prop_def)

lemma optional_prop_JObj [simp]: "optional_prop (JObj kvs) k = obj_get kvs k"
  by (simp add: optional_prop_def)

lemma obj_get_Cons:
  "obj_get ((k', v) # kvs) k =
     (case map_of (rev kvs) k of None \<Rightarrow> if k' = k then v else JUndefined | Some u \<Rightarrow> u)"
  by (auto simp: obj_get_def map_of_append map_add_def split: option.splits)

lemma js_or_truthy [simp]: "js_truthy a \<Longrightarrow> js_or a b = a"
  and js_or_falsy [simp]: "\<not> js_truthy a \<Longrightarrow> js_or a b = b"
  by (simp_all add: js_or_def)

lemma js_join_Cons: "xs \<noteq> [] \<Longrightarrow> js_join sep (x # xs) = x @ sep @ js_join sep xs"
  by (cases xs) simp_all

lemma js_split_from_sep:
  "sep \<noteq> [] \<Longrightarrow> js_split_from sep cur (sep @ rest) = cur # js_split_from sep [] rest"
  by (cases sep) simp_all

lemma js_split_from_no_sep:
  "\<forall>c\<in>set x. c \<notin> set sep \<Longrightarrow> js_split_from sep cur (x @ rest) = js_split_from sep (cur @ x) rest"
proof (induction x arbitrary: cur)
  case Nil
  then show ?case by simp
next
  case (Cons c x)
  have "\<not> (sep \<noteq> [] \<and> take (length sep) (c # x @ rest) = sep)"
    using Cons.prems by (cases sep) auto
  then have "js_split_from sep cur ((c # x) @ rest) = js_split_from sep (cur @ [c]) (x @ rest)"
    by (simp only: append_Cons js_split_from.simps(2) if_not_P if_False)
  then show ?case using Cons.IH [of "cur @ [c]"] Cons.prems by simp
qed

text \<open>Splitting a joined list at its separator gives the list back.\<close>

lemma js_split_from_js_join:
  assumes "sep \<noteq> []" and "xs \<noteq> []" and "\<forall>x\<in>set xs. \<forall>c\<in>set x. c \<notin> set sep"
  shows "js_split_from sep cur (js_join sep xs) = (cur @ hd xs) # tl xs"
  using assms(2,3)
proof (induction xs arbitrary: cur)
  case Nil
  then show ?case by simp
next
  case (Cons x xs)
  show ?case
  proof (cases "xs = []")
    case True
    with Cons.prems show ?thesis using js_split_from_no_sep [of x sep cur "[]"] by simp
  next
    case False
    have "js_split_from sep cur (js_join sep (x # xs)) = js_split_from sep (cur @ x) (sep @ js_join sep xs)"
      using False Cons.prems js_split_from_no_sep [of x sep cur "sep @ js_join sep xs"]
      by (simp add: js_join_Cons)
    also have "\<dots> = (cur @ x) # js_split_from sep [] (js_join sep xs)"
      using assms(1) by (rule js_split_from_sep)
    also have "\<dots> = (cur @ x) # xs"
      using False Cons.prems Cons.IH [of "[]"] by (cases xs) auto
    finally show ?thesis by simp
  qed
qed

text \<open>Splitting a joined list at its separator gives the list back.\<close>

lemma js_split_js_join:
  assumes "sep \<noteq> []" and "xs \<noteq> []" and "\<forall>x\<in>set xs. \<forall>c\<in>set x. c \<notin> set sep"
  shows "js_split sep (js_join sep xs) = xs"
  using js_split_from_js_join [OF assms, of "[]"] assms(2) by (simp add: js_split_def)

text \<open>
  Decimal printing reads back: \<open>dec_value\<close>, the reading of an array
  index, inverts \<open>nat_to_dec\<close>, and leading zeros do not change it.
\<close>

lemma dec_value_append: "dec_value (xs @ ys) = dec_value xs * 10 ^ length ys + dec_value ys"
  by (induction xs) (simp_all add: algebra_simps power_add)

lemma of_char_digit: "d < 10 \<Longrightarrow> (of_char (digit_char d) :: nat) = 48 + d"
  by (simp add: digit_char_def)

lemma dec_value_nat_to_dec: "dec_value (nat_to_dec n) = n"
proof (induction n rule: nat_to_dec.induct)
  case (1 n)
  show ?case
  proof (cases "n < 10")
    case True
    then show ?thesis by (simp add: nat_to_dec.simps [of n] of_char_digit)
  next
    case False
    then have "dec_value (nat_to_dec n) = dec_value (nat_to_dec (n div 10)) * 10 + n mod 10"
      by (simp add: nat_to_dec.simps [of n] dec_value_append of_char_digit)
    then show ?thesis
      using "1.IH" False by simp
  qed
qed

lemma dec_value_zeros: "dec_value (replicate k (CHR ''0'') @ s) = dec_value s"
  by (induction k) simp_all

text \<open>
  The own keys of an object are the keys of its literal, and reading one
  gives a value bound in the literal; both make recursion over the own
  properties of a value terminate.
\<close>

lemma own_keys_set: "set (own_keys kvs) = fst ` set kvs"
  by (auto simp: own_keys_def Let_def)

lemma own_keys_plain:
  assumes "distinct (map fst kvs)" and "\<forall>k \<in> set (map fst kvs). \<not> is_array_key k"
  shows "own_keys kvs = map fst kvs"
proof -
  have "filter is_array_key (map fst kvs) = []" "filter (\<lambda>k. \<not> is_array_key k) (map fst kvs) = map fst kvs"
    using assms(2) by (simp_all add: filter_empty_conv)
  then show ?thesis
    using assms(1) by (simp add: own_keys_def Let_def distinct_remdups_id)
qed

lemma obj_get_mem: "k \<in> fst ` set kvs \<Longrightarrow> (k, obj_get kvs k) \<in> set kvs"
proof -
  assume "k \<in> fst ` set kvs"
  then have "map_of (rev kvs) k \<noteq> None"
    by (simp add: map_of_eq_None_iff)
  then obtain v where v: "map_of (rev kvs) k = Some v"
    by blast
  then have "(k, v) \<in> set kvs"
    using map_of_SomeD by fastforce
  with v show ?thesis
    by (simp add: obj_get_def)
qed

lemma obj_get_size:
  assumes "(k, b) \<in> set kvs"
  shows "size (obj_get kvs k) < Suc (size_list (size_prod f size) kvs)"
proof -
  have "(k, obj_get kvs k) \<in> set kvs"
    using assms by (intro obj_get_mem) force
  then have "size (obj_get kvs k) \<le> size_list (size_prod f size) kvs"
    by (rule size_list_estimation') simp
  then show ?thesis
    by simp
qed

lemma elem_size: "x \<in> set vs \<Longrightarrow> size x < Suc (size_list size vs)"
  by (simp add: le_imp_less_Suc size_list_estimation')

end
