(* ===== verification/Http.thy ===== *)
theory Http
  imports JsValue
begin

text \<open>
  The interface both handlers share with the Netlify runtime and the upstream
  scheduling API: the incoming event, the response object a handler returns,
  the outbound requests it issues through \<^verbatim>\<open>fetch\<close>, and the world a single
  invocation runs in (process environment, clock, time zone, network, the
  runtime's \<^verbatim>\<open>JSON.parse\<close>). An invocation is modelled as a function from
  the world and the event to the response and the list of requests it sent,
  in the order it sent them.
\<close>

record event =
  httpMethod :: string
  event_body :: "string option"
  queryStringParameters :: "(string \<rightharpoonup> string) option"

text \<open>
  The \<^verbatim>\<open>body\<close> of a response: absent, a literal string, or
  \<^verbatim>\<open>JSON.stringify(v)\<close> of a value \<open>v\<close>.
\<close>

datatype resp_body = NoBody | TextBody string | JsonBody jsval

record response =
  statusCode :: int
  headers :: "(string \<times> string) list"
  resp_body :: resp_body

record http_request =
  req_url :: string
  req_method :: string
  req_headers :: "(string \<times> string) list"
  req_body :: "jsval option"

text \<open>
  What the upstream does with one request: the promise of \<^verbatim>\<open>fetch\<close> rejects
  with an error, or a response arrives with a status and the text of its
  body (\<open>None\<close> when reading the body fails).
\<close>

datatype fetch_outcome =
    Rejected js_error
  | Received int "string option"

text \<open>
  The world of one invocation. \<open>fetch w n r\<close> is what the \<open>n\<close>-th outbound
  request of the invocation (from 0) gets back; \<open>tz_offset\<close> is the local
  time zone's offset from UTC in milliseconds.
\<close>

record world =
  env :: "string \<rightharpoonup> string"
  now :: time_ms
  tz_offset :: int
  fetch :: "nat \<Rightarrow> http_request \<Rightarrow> fetch_outcome"
  json_parse :: "string \<Rightarrow> js_error + jsval"

text \<open>\<^verbatim>\<open>process.env.K\<close> as a JavaScript value.\<close>

definition env_val :: "world \<Rightarrow> string \<Rightarrow> jsval" where
  "env_val w k = opt_str (env w k)"

text \<open>\<^verbatim>\<open>!userId || !apiKey\<close> negated: both variables set to a non-empty string.\<close>

definition has_credentials :: "world \<Rightarrow> string \<Rightarrow> string \<Rightarrow> bool" where
  "has_credentials w u k \<longleftrightarrow> js_truthy (env_val w u) \<and> js_truthy (env_val w k)"

text \<open>Issuing a request: the outcome the upstream gives, and the request log extended.\<close>

definition do_fetch ::
  "world \<Rightarrow> http_request list \<Rightarrow> http_request \<Rightarrow> fetch_outcome \<times> http_request list" where
  "do_fetch w sent r = (fetch w (length sent) r, sent @ [r])"

text \<open>\<^verbatim>\<open>resp.ok\<close>: a status in the range 200 to 299.\<close>

definition resp_ok :: "int \<Rightarrow> bool" where
  "resp_ok s \<longleftrightarrow> 200 \<le> s \<and> s \<le> 299"

text \<open>\<^verbatim>\<open>await resp.json()\<close>: reading the body may fail, parsing it may throw.\<close>

definition resp_json :: "world \<Rightarrow> string option \<Rightarrow> js_error + jsval" where
  "resp_json w t =
     (case t of None \<Rightarrow> Inl (TypeError ''Body is unusable'') | Some s \<Rightarrow> json_parse w s)"

text \<open>\<^verbatim>\<open>await resp.text().catch(() => "")\<close>.\<close>

definition resp_text :: "string option \<Rightarrow> string" where
  "resp_text t = (case t of None \<Rightarrow> [] | Some s \<Rightarrow> s)"

text \<open>A response whose body is \<^verbatim>\<open>JSON.stringify(v)\<close>.\<close>

definition json_response :: "int \<Rightarrow> (string \<times> string) list \<Rightarrow> jsval \<Rightarrow> response" where
  "json_response s hs v = \<lparr>statusCode = s, headers = hs, resp_body = JsonBody v\<rparr>"

end
