(* ===== verification/Json.thy ===== *)
theory Json
  imports Http
begin

text \<open>
  \<^verbatim>\<open>JSON.stringify\<close>, which both handlers apply to every response body
  they build and the booking handler to the payload it sends upstream
  (ECMAScript \<^verbatim>\<open>SerializeJSONProperty\<close>, \<^verbatim>\<open>QuoteJSONString\<close>,
  \<^verbatim>\<open>SerializeJSONObject\<close>, \<^verbatim>\<open>SerializeJSONArray\<close>, without
  indentation), and \<^verbatim>\<open>JSON.parse\<close> on the texts the model's values can
  represent (white space around tokens, integers, \<^verbatim>\<open>\\u\<close> escapes of code
  units below 256), with its \<^verbatim>\<open>SyntaxError\<close>. The handlers' world keeps
  \<^verbatim>\<open>JSON.parse\<close> as a parameter (theory \<open>Http\<close>); \<open>json_parse_text\<close>
  is the instance the end-to-end theorems assume. The main result is the
  round trip: parsing a printed value gives it back with
  \<^verbatim>\<open>undefined\<close> properties dropped, \<^verbatim>\<open>undefined\<close> array elements
  read as \<^verbatim>\<open>null\<close>, and object properties in enumeration order. The
  parser is fuel-driven; theory \<open>JsonFuel\<close> shows the fuel
  \<open>json_decode\<close> gives is always enough.
\<close>

subsection \<open>The printer\<close>

definition hex_digit :: "nat \<Rightarrow> char" where
  "hex_digit i = ''0123456789abcdef'' ! i"

definition json_escape_char :: "char \<Rightarrow> string" where
  "json_escape_char c =
     (let n = (of_char c :: nat); bs = char_of (92 :: nat) in
      if n = 34 then [bs, char_of (34 :: nat)]
      else if n = 92 then [bs, bs]
      else if n = 8 then [bs, CHR ''b'']
      else if n = 9 then [bs, CHR ''t'']
      else if n = 10 then [bs, CHR ''n'']
      else if n = 12 then [bs, CHR ''f'']
      else if n = 13 then [bs, CHR ''r'']
      else if n < 32 then [bs, CHR ''u'', CHR ''0'', CHR ''0'', hex_digit (n div 16), hex_digit (n mod 16)]
      else [c])"

definition json_quote :: "string \<Rightarrow> string" where
  "json_quote s = char_of (34 :: nat) # concat (map json_escape_char s) @ [char_of (34 :: nat)]"

text \<open>
  \<^verbatim>\<open>SerializeJSONProperty\<close>: \<^verbatim>\<open>undefined\<close> serialises to nothing
  (\<open>None\<close>), an array element that does to \<^verbatim>\<open>null\<close>, and an object
  property that does is left out.
\<close>

function json_stringify :: "jsval \<Rightarrow> string option" where
  "json_stringify JUndefined = None"
| "json_stringify JNull = Some ''null''"
| "json_stringify (JBool b) = Some (if b then ''true'' else ''false'')"
| "json_stringify (JNum n) = Some (int_to_dec n)"
| "json_stringify (JStr s) = Some (json_quote s)"
| "json_stringify (JArr vs) =
     Some (''['' @ js_join '','' (map (\<lambda>v. case json_stringify v of None \<Rightarrow> ''null'' | Some t \<Rightarrow> t) vs) @ '']'')"
| "json_stringify (JObj kvs) =
     Some (''{'' @ js_join '',''
        (concat (map (\<lambda>k. case json_stringify (obj_get kvs k) of
                             None \<Rightarrow> [] | Some t \<Rightarrow> [json_quote k @ '':'' @ t]) (own_keys kvs))) @ ''}'')"
  by pat_completeness auto
termination
  by (relation "measure size") (auto simp: own_keys_set elem_size obj_get_size)

text \<open>The text a response carries on the wire; \<open>None\<close> when the body is absent.\<close>

definition wire_body :: "resp_body \<Rightarrow> string option" where
  "wire_body b = (case b of NoBody \<Rightarrow> None | TextBody s \<Rightarrow> Some s | JsonBody v \<Rightarrow> json_stringify v)"

subsection \<open>\<^verbatim>\<open>JSON.parse\<close>\<close>

text \<open>
  \<^verbatim>\<open>JSON.parse\<close> (ECMAScript 25.5.1 with the grammar of RFC 8259) on the
  texts the model can represent: white space (tab, line feed, carriage
  return, space) around every token, integral numbers without leading
  zeros, strings whose \<^verbatim>\<open>\\u\<close> escapes stay below 256. A number with a
  fraction or an exponent and an escape of a code unit above 255 are
  outside the model and read as errors. The reader is fuel-driven; every
  call consumes a character, so fuel above the length of the text is enough.
\<close>

definition is_ws :: "char \<Rightarrow> bool" where
  "is_ws c \<longleftrightarrow> (of_char c :: nat) \<in> {9, 10, 13, 32}"

abbreviation skip_ws :: "string \<Rightarrow> string" where
  "skip_ws \<equiv> dropWhile is_ws"

definition hex_val :: "char \<Rightarrow> nat option" where
  "hex_val c = map_of (zip ''0123456789abcdefABCDEF'' ([0..<16] @ [10..<16])) c"

definition unescape :: "char \<Rightarrow> char option" where
  "unescape e =
     (let n = (of_char e :: nat) in
      if n = 34 \<or> n = 92 \<or> n = 47 then Some e
      else if e = CHR ''b'' then Some (char_of (8 :: nat))
      else if e = CHR ''t'' then Some (char_of (9 :: nat))
      else if e = CHR ''n'' then Some (char_of (10 :: nat))
      else if e = CHR ''f'' then Some (char_of (12 :: nat))
      else if e = CHR ''r'' then Some (char_of (13 :: nat))
      else None)"

fun jstr :: "string \<Rightarrow> (string \<times> string) option" where
  "jstr [] = None"
| "jstr (c # cs) =
     (if of_char c = (34 :: nat) then Some ([], cs)
      else if of_char c = (92 :: nat) then
        (case cs of
           [] \<Rightarrow> None
         | e # cs' \<Rightarrow>
             if e = CHR ''u'' then
               (case cs' of
                  h1 # h2 # h3 # h4 # rest \<Rightarrow>
                    (case (hex_val h1, hex_val h2, hex_val h3, hex_val h4) of
                       (Some a, Some b, Some c, Some d) \<Rightarrow>
                         let n = a * 4096 + b * 256 + c * 16 + d in
                         if n < 256 then map_option (apfst (Cons (char_of n))) (jstr rest) else None
                     | _ \<Rightarrow> None)
                | _ \<Rightarrow> None)
             else (case unescape e of
                     Some ch \<Rightarrow> map_option (apfst (Cons ch)) (jstr cs')
                   | None \<Rightarrow> None))
      else if of_char c < (32 :: nat) then None
      else map_option (apfst (Cons c)) (jstr cs))"

text \<open>
  An integer: an optional minus, then \<^verbatim>\<open>0\<close> or a digit string not
  starting with \<^verbatim>\<open>0\<close>; a following fraction or exponent is not modelled.
\<close>

definition jnum :: "string \<Rightarrow> (jsval \<times> string) option" where
  "jnum s =
     (let neg = (s \<noteq> [] \<and> hd s = CHR ''-''); s1 = (if neg then tl s else s);
          ds = takeWhile is_digit s1; r = dropWhile is_digit s1
      in if ds = [] \<or> (hd ds = CHR ''0'' \<and> tl ds \<noteq> []) then None
         else if r \<noteq> [] \<and> hd r \<in> {CHR ''.'', CHR ''e'', CHR ''E''} then None
         else Some (JNum (if neg then - int (dec_value ds) else int (dec_value ds)), r))"

fun jvalue :: "nat \<Rightarrow> string \<Rightarrow> (jsval \<times> string) option"
and jelems :: "nat \<Rightarrow> string \<Rightarrow> (jsval list \<times> string) option"
and jmembers :: "nat \<Rightarrow> string \<Rightarrow> ((string \<times> jsval) list \<times> string) option" where
  "jvalue 0 s = None"
| "jvalue (Suc n) s =
     (case skip_ws s of
        [] \<Rightarrow> None
      | c # cs \<Rightarrow>
          if c = CHR ''n'' then (if take 3 cs = ''ull'' then Some (JNull, drop 3 cs) else None)
          else if c = CHR ''t'' then (if take 3 cs = ''rue'' then Some (JBool True, drop 3 cs) else None)
          else if c = CHR ''f'' then (if take 4 cs = ''alse'' then Some (JBool False, drop 4 cs) else None)
          else if of_char c = (34 :: nat) then map_option (apfst JStr) (jstr cs)
          else if c = CHR ''['' then
            (if skip_ws cs \<noteq> [] \<and> hd (skip_ws cs) = CHR '']'' then Some (JArr [], tl (skip_ws cs))
             else case jvalue n cs of
                    None \<Rightarrow> None
                  | Some (v, r) \<Rightarrow> map_option (apfst (\<lambda>vs. JArr (v # vs))) (jelems n r))
          else if c = CHR ''{'' then
            (if skip_ws cs \<noteq> [] \<and> hd (skip_ws cs) = CHR ''}'' then Some (JObj [], tl (skip_ws cs))
             else map_option (apfst JObj) (jmembers n cs))
          else jnum (c # cs))"
| "jelems 0 s = None"
| "jelems (Suc n) s =
     (case skip_ws s of
        [] \<Rightarrow> None
      | c # cs \<Rightarrow>
          if c = CHR '']'' then Some ([], cs)
          else if c = CHR '','' then
            (case jvalue n cs of
               None \<Rightarrow> None
             | Some (v, r) \<Rightarrow> map_option (apfst (Cons v)) (jelems n r))
          else None)"
| "jmembers 0 s = None"
| "jmembers (Suc n) s =
     (case skip_ws s of
        [] \<Rightarrow> None
      | c # cs \<Rightarrow>
          if of_char c \<noteq> (34 :: nat) then None
          else case jstr cs of
            None \<Rightarrow> None
          | Some (k, r) \<Rightarrow>
              (case skip_ws r of
                 c2 # r2 \<Rightarrow>
                   if c2 \<noteq> CHR '':'' then None
                   else (case jvalue n r2 of
                           None \<Rightarrow> None
                         | Some (v, r3) \<Rightarrow>
                             (case skip_ws r3 of
                                c3 # r4 \<Rightarrow>
                                  if c3 = CHR ''}'' then Some ([(k, v)], r4)
                                  else if c3 = CHR '','' then map_option (apfst (Cons (k, v))) (jmembers n r4)
                                  else None
                              | [] \<Rightarrow> None))
               | [] \<Rightarrow> None))"

text \<open>A whole text: one value, then only white space.\<close>

definition json_decode :: "string \<Rightarrow> jsval option" where
  "json_decode s = (case jvalue (Suc (length s)) s of Some (v, r) \<Rightarrow> if skip_ws r = [] then Some v else None | None \<Rightarrow> None)"

text \<open>
  \<^verbatim>\<open>JSON.parse(s)\<close>: the value, or the \<^verbatim>\<open>SyntaxError\<close> it throws. The
  message text is engine-specific; the model uses one fixed message.
\<close>

definition json_parse_text :: "string \<Rightarrow> js_error + jsval" where
  "json_parse_text s = (case json_decode s of Some v \<Rightarrow> Inr v | None \<Rightarrow> Inl (SyntaxError ''Unexpected token in JSON''))"

text \<open>
  The value a reader gets from the printed text: the printer's omissions
  applied, object properties in enumeration order.
\<close>

function json_norm :: "jsval \<Rightarrow> jsval" where
  "json_norm (JArr vs) = JArr (map (\<lambda>v. if v = JUndefined then JNull else json_norm v) vs)"
| "json_norm (JObj kvs) =
     JObj (concat (map (\<lambda>k. if obj_get kvs k = JUndefined then [] else [(k, json_norm (obj_get kvs k))])
                      (own_keys kvs)))"
| "json_norm JUndefined = JUndefined"
| "json_norm JNull = JNull"
| "json_norm (JBool b) = JBool b"
| "json_norm (JNum n) = JNum n"
| "json_norm (JStr s) = JStr s"
  by pat_completeness auto
termination
  by (relation "measure size") (auto simp: own_keys_set elem_size obj_get_size)

text \<open>
  A text that reads as a value whatever follows it, provided what follows
  does not continue a number and the fuel exceeds the text's length.
\<close>

definition parses_as :: "string \<Rightarrow> jsval \<Rightarrow> bool" where
  "parses_as t v \<longleftrightarrow>
     (\<forall>n rest. length t < n \<longrightarrow> (rest = [] \<or> hd rest \<in> {CHR '','', CHR '']'', CHR ''}''}) \<longrightarrow> jvalue n (t @ rest) = Some (v, rest))"

subsection \<open>The round trip\<close>

lemma hex_val_digit: "i < 16 \<Longrightarrow> hex_val (hex_digit i) = Some i"
proof -
  have "list_all (\<lambda>i. hex_val (hex_digit i) = Some i) [0..<16]"
    by code_simp
  then show "i < 16 \<Longrightarrow> hex_val (hex_digit i) = Some i"
    by (simp add: list_all_iff)
qed

lemma hex_val_zero: "hex_val (CHR ''0'') = Some 0"
  by code_simp

lemma escape_chars_not_u: "char_of (34 :: nat) \<noteq> CHR ''u''" "char_of (92 :: nat) \<noteq> CHR ''u''"
  by code_simp+

lemma jstr_escape_char: "jstr (json_escape_char c @ r) = map_option (apfst (Cons c)) (jstr r)"
proof -
  define n where "n = (of_char c :: nat)"
  have c: "c = char_of n"
    by (simp add: n_def)
  have n256: "n < 256"
    unfolding n_def by (rule nat_of_char_less_256)
  consider "n = 34" | "n = 92" | "n = 8" | "n = 9" | "n = 10" | "n = 12" | "n = 13"
    | "n < 32" "n \<notin> {8, 9, 10, 12, 13}" | "32 \<le> n" "n \<noteq> 34" "n \<noteq> 92"
    by (cases "n < 32") auto
  then show ?thesis
  proof cases
    case 8
    have "hex_val (hex_digit (n div 16)) = Some (n div 16)" "hex_val (hex_digit (n mod 16)) = Some (n mod 16)"
      using 8 by (simp_all add: hex_val_digit)
    with 8 show ?thesis
      unfolding c by (simp add: json_escape_char_def Let_def hex_val_zero)
  next
    case 9
    then show ?thesis
      unfolding c by (simp add: json_escape_char_def Let_def n256)
  qed (simp_all add: c json_escape_char_def unescape_def Let_def escape_chars_not_u)
qed

lemma jstr_quote: "jstr (concat (map json_escape_char s) @ char_of (34 :: nat) # r) = Some (s, r)"
  by (induction s) (simp_all add: jstr_escape_char)

lemma nat_to_dec_digits: "nat_to_dec n \<noteq> [] \<and> (\<forall>c \<in> set (nat_to_dec n). is_digit c)"
proof (induction n rule: nat_to_dec.induct)
  case (1 n)
  have "is_digit (digit_char d)" if "d < 10" for d
    using that by (simp add: is_digit_def of_char_digit)
  with 1 show ?case
    by (simp add: nat_to_dec.simps [of n])
qed

lemma digits_prefix:
  assumes "\<forall>c \<in> set ds. is_digit c" and "rest = [] \<or> \<not> is_digit (hd rest)"
  shows "takeWhile is_digit (ds @ rest) = ds" "dropWhile is_digit (ds @ rest) = rest"
  using assms by (cases rest; auto simp: takeWhile_append2 dropWhile_append2)+

lemma minus_not_digit: "\<not> is_digit (CHR ''-'')"
  by (simp add: is_digit_def)

lemma punct_not_digit: "\<not> is_digit (CHR '','')" "\<not> is_digit (CHR '']'')" "\<not> is_digit (CHR ''}'')"
  by (simp_all add: is_digit_def)

lemma punct_not_ws [simp]:
  "\<not> is_ws (CHR '','')" "\<not> is_ws (CHR '']'')" "\<not> is_ws (CHR ''}'')" "\<not> is_ws (CHR '':'')"
  "\<not> is_ws (CHR ''['')" "\<not> is_ws (CHR ''{'')" "\<not> is_ws (CHR ''n'')" "\<not> is_ws (CHR ''t'')"
  "\<not> is_ws (CHR ''f'')" "\<not> is_ws (char_of (34 :: nat))" "\<not> is_ws (CHR ''-'')"
  by (simp_all add: is_ws_def)

lemma digit_not_ws: "is_digit c \<Longrightarrow> \<not> is_ws c"
  by (auto simp: is_digit_def is_ws_def)

lemma nat_to_dec_no_lead_zero: "hd (nat_to_dec n) = CHR ''0'' \<Longrightarrow> tl (nat_to_dec n) = []"
proof (induction n rule: nat_to_dec.induct)
  case (1 n)
  show ?case
  proof (cases "n < 10")
    case True
    then show ?thesis
      by (simp add: nat_to_dec.simps [of n])
  next
    case False
    have ne: "nat_to_dec (n div 10) \<noteq> []"
      using nat_to_dec_digits by blast
    have h: "hd (nat_to_dec (n div 10)) = CHR ''0''"
      using "1.prems" False ne by (simp add: nat_to_dec.simps [of n])
    then have "tl (nat_to_dec (n div 10)) = []"
      using "1.IH" False by simp
    then have "nat_to_dec (n div 10) = ''0''"
      using h ne by (cases "nat_to_dec (n div 10)") auto
    then have "n div 10 = 0"
      using dec_value_nat_to_dec [of "n div 10"] by simp
    with False show ?thesis
      by simp
  qed
qed

lemma jnum_int_to_dec:
  assumes "rest = [] \<or> hd rest \<in> {CHR '','', CHR '']'', CHR ''}''}"
  shows "jnum (int_to_dec i @ rest) = Some (JNum i, rest)"
proof -
  have r: "rest = [] \<or> \<not> is_digit (hd rest)"
    using assms punct_not_digit by auto
  have d: "nat_to_dec k \<noteq> []" "\<forall>c \<in> set (nat_to_dec k). is_digit c" for k
    using nat_to_dec_digits by blast+
  have h: "hd (nat_to_dec k @ rest) \<noteq> CHR ''-''" for k
    using d [of k] minus_not_digit by (cases "nat_to_dec k") auto
  have z: "\<not> (hd (nat_to_dec k) = CHR ''0'' \<and> tl (nat_to_dec k) \<noteq> [])" for k
    using nat_to_dec_no_lead_zero by blast
  have e: "\<not> (rest \<noteq> [] \<and> hd rest \<in> {CHR ''.'', CHR ''e'', CHR ''E''})"
    using assms by auto
  have p: "jnum (nat_to_dec k @ rest) = Some (JNum (int k), rest)"
    "jnum (CHR ''-'' # nat_to_dec k @ rest) = Some (JNum (- int k), rest)" for k
    using digits_prefix [OF d(2) r, of k] d(1) [of k] h [of k] z [of k] e
    by (simp_all add: jnum_def Let_def dec_value_nat_to_dec)
  show ?thesis
    using p [of "nat i"] p [of "nat (- i)"] by (simp add: int_to_dec_def)
qed

lemma jelems_commas:
  assumes "\<forall>x \<in> set xs. parses_as (tx x) (vl x)"
    and "length (concat (map (\<lambda>x. CHR '','' # tx x) xs)) < n"
  shows "jelems n (concat (map (\<lambda>x. CHR '','' # tx x) xs) @ CHR '']'' # rest) = Some (map vl xs, rest)"
  using assms
proof (induction xs arbitrary: n)
  case Nil
  then obtain n' where "n = Suc n'"
    by (cases n) auto
  then show ?case
    by simp
next
  case (Cons x xs)
  then obtain n' where n: "n = Suc n'"
    by (cases n) auto
  let ?after = "concat (map (\<lambda>x. CHR '','' # tx x) xs) @ CHR '']'' # rest"
  have "hd ?after \<in> {CHR '','', CHR '']'', CHR ''}''}"
    by (cases xs) auto
  then have "jvalue n' (tx x @ ?after) = Some (vl x, ?after)"
    using Cons.prems n unfolding parses_as_def by auto
  moreover have "jelems n' ?after = Some (map vl xs, rest)"
    using Cons.prems n by (intro Cons.IH) auto
  ultimately show ?case
    using n by simp
qed

lemma jmembers_member:
  assumes "parses_as t v" and "length (json_quote k @ CHR '':'' # t) < n" and "c \<in> {CHR '','', CHR ''}''}"
  shows "jmembers n (json_quote k @ CHR '':'' # t @ c # after) =
           (if c = CHR ''}'' then Some ([(k, v)], after) else map_option (apfst (Cons (k, v))) (jmembers (n - 1) after))"
proof -
  obtain n' where n: "n = Suc n'"
    using assms(2) by (cases n) auto
  have "jvalue n' (t @ c # after) = Some (v, c # after)"
    using assms n unfolding parses_as_def json_quote_def by auto
  then show ?thesis
    using assms(3) n jstr_quote [of k "CHR '':'' # t @ c # after"] by (auto simp: json_quote_def)
qed

lemma jmembers_commas:
  assumes "ks \<noteq> []" and "\<forall>k \<in> set ks. parses_as (tx k) (vl k)"
    and "length (js_join '','' (map (\<lambda>k. json_quote k @ CHR '':'' # tx k) ks)) < n"
  shows "jmembers n (js_join '','' (map (\<lambda>k. json_quote k @ CHR '':'' # tx k) ks) @ CHR ''}'' # rest) =
           Some (map (\<lambda>k. (k, vl k)) ks, rest)"
  using assms
proof (induction ks arbitrary: n)
  case Nil
  then show ?case
    by simp
next
  case (Cons k ks)
  show ?case
  proof (cases "ks = []")
    case True
    then show ?thesis
      using Cons.prems jmembers_member [where t = "tx k" and v = "vl k" and c = "CHR ''}''" and after = rest] by simp
  next
    case False
    let ?tail = "js_join '','' (map (\<lambda>k. json_quote k @ CHR '':'' # tx k) ks) @ CHR ''}'' # rest"
    have "jmembers (n - 1) ?tail = Some (map (\<lambda>k. (k, vl k)) ks, rest)"
      using Cons.prems False by (intro Cons.IH) (auto simp: js_join_Cons)
    then show ?thesis
      using Cons.prems False jmembers_member [where t = "tx k" and v = "vl k" and c = "CHR '',''" and after = ?tail] by (simp add: js_join_Cons)
  qed
qed

lemma json_stringify_None: "json_stringify v = None \<longleftrightarrow> v = JUndefined"
  by (cases v) auto

lemma int_to_dec_head: "int_to_dec i \<noteq> [] \<and> (hd (int_to_dec i) = CHR ''-'' \<or> is_digit (hd (int_to_dec i)))"
  using nat_to_dec_digits [of "nat (- i)"] nat_to_dec_digits [of "nat i"]
  by (cases "nat_to_dec (nat i)") (auto simp: int_to_dec_def)

lemma quote_not_punct: "char_of (34 :: nat) \<noteq> CHR '']''" "char_of (34 :: nat) \<noteq> CHR ''}''"
  by code_simp+

lemma skip_ws_id: "xs \<noteq> [] \<Longrightarrow> \<not> is_ws (hd xs) \<Longrightarrow> skip_ws xs = xs"
  by (cases xs) simp_all

lemma json_text_head:
  assumes "json_stringify v = Some t"
  shows "t \<noteq> [] \<and> hd t \<noteq> CHR '']'' \<and> hd t \<noteq> CHR ''}'' \<and> \<not> is_ws (hd t)"
proof (cases v)
  case (JNum i)
  then show ?thesis
    using assms int_to_dec_head [of i] punct_not_digit digit_not_ws by auto
qed (use assms quote_not_punct in \<open>auto simp: json_quote_def split: if_splits\<close>)

lemma js_join_concat: "js_join sep (x # xs) = x @ concat (map (\<lambda>y. sep @ y) xs)"
  by (induction xs arbitrary: x) (auto simp: js_join_Cons)

lemma concat_map_case_option:
  "concat (map (\<lambda>k. case f k of None \<Rightarrow> [] | Some t \<Rightarrow> [g k t]) ks) =
     map (\<lambda>k. g k (the (f k))) (filter (\<lambda>k. f k \<noteq> None) ks)"
  by (induction ks) (auto split: option.split)

lemma concat_map_if_Nil: "concat (map (\<lambda>k. if P k then [] else [h k]) ks) = map h (filter (\<lambda>k. \<not> P k) ks)"
  by (induction ks) auto

lemma parses_null: "parses_as ''null'' JNull"
  unfolding parses_as_def
proof (intro allI impI)
  fix n rest
  assume "length ''null'' < n"
  then obtain n' where "n = Suc n'"
    by (cases n) auto
  then show "jvalue n (''null'' @ rest) = Some (JNull, rest)"
    by simp
qed

lemma parses_asI:
  assumes "\<And>n' rest. length t \<le> n' \<Longrightarrow> rest = [] \<or> hd rest \<in> {CHR '','', CHR '']'', CHR ''}''} \<Longrightarrow> jvalue (Suc n') (t @ rest) = Some (v, rest)"
  shows "parses_as t v"
  unfolding parses_as_def
proof (intro allI impI)
  fix n rest
  assume "length t < n" and "rest = [] \<or> hd rest \<in> {CHR '','', CHR '']'', CHR ''}''}"
  then show "jvalue n (t @ rest) = Some (v, rest)"
    using assms by (cases n) auto
qed

lemma parses_array:
  assumes "\<forall>x \<in> set vs. parses_as (tx x) (vl x)"
    and "\<forall>x \<in> set vs. tx x \<noteq> [] \<and> hd (tx x) \<noteq> CHR '']'' \<and> \<not> is_ws (hd (tx x))"
  shows "parses_as (CHR ''['' # js_join '','' (map tx vs) @ '']'') (JArr (map vl vs))"
proof (rule parses_asI)
  fix n' rest
  assume len: "length (CHR ''['' # js_join '','' (map tx vs) @ '']'') \<le> n'"
  show "jvalue (Suc n') ((CHR ''['' # js_join '','' (map tx vs) @ '']'') @ rest) = Some (JArr (map vl vs), rest)"
  proof (cases vs)
    case Nil
    then show ?thesis
      by simp
  next
    case (Cons x xs)
    let ?after = "concat (map (\<lambda>y. CHR '','' # tx y) xs) @ CHR '']'' # rest"
    have after: "hd ?after \<in> {CHR '','', CHR '']'', CHR ''}''}"
      by (cases xs) auto
    have "jvalue n' (tx x @ ?after) = Some (vl x, ?after)"
      using assms(1) len after Cons unfolding parses_as_def by (auto simp: js_join_concat)
    moreover have "jelems n' ?after = Some (map vl xs, rest)"
      using assms(1) len Cons by (intro jelems_commas) (auto simp: js_join_concat comp_def)
    moreover have "skip_ws (tx x @ ?after) = tx x @ ?after"
      using assms(2) Cons by (intro skip_ws_id) auto
    ultimately show ?thesis
      using assms(2) Cons by (simp add: js_join_concat comp_def)
  qed
qed

lemma parses_object:
  assumes "\<forall>k \<in> set ks. parses_as (tx k) (vl k)"
  shows "parses_as (CHR ''{'' # js_join '','' (map (\<lambda>k. json_quote k @ CHR '':'' # tx k) ks) @ ''}'')
           (JObj (map (\<lambda>k. (k, vl k)) ks))"
proof (rule parses_asI)
  fix n' rest
  let ?body = "js_join '','' (map (\<lambda>k. json_quote k @ CHR '':'' # tx k) ks)"
  assume len: "length (CHR ''{'' # ?body @ ''}'') \<le> n'"
  show "jvalue (Suc n') ((CHR ''{'' # ?body @ ''}'') @ rest) = Some (JObj (map (\<lambda>k. (k, vl k)) ks), rest)"
  proof (cases ks)
    case Nil
    then show ?thesis
      by simp
  next
    case (Cons k ks')
    have "jmembers n' (?body @ CHR ''}'' # rest) = Some (map (\<lambda>k. (k, vl k)) ks, rest)"
      using assms len Cons by (intro jmembers_commas) auto
    moreover have "?body @ CHR ''}'' # rest \<noteq> [] \<and> hd (?body @ CHR ''}'' # rest) \<noteq> CHR ''}''"
      using Cons quote_not_punct by (simp add: js_join_concat json_quote_def)
    moreover have "skip_ws (?body @ CHR ''}'' # rest) = ?body @ CHR ''}'' # rest"
      using Cons by (intro skip_ws_id) (simp_all add: js_join_concat json_quote_def)
    ultimately show ?thesis
      by simp
  qed
qed

lemma parses_arr_step:
  assumes IH: "\<And>x t. x \<in> set vs \<Longrightarrow> json_stringify x = Some t \<Longrightarrow> parses_as t (json_norm x)"
  shows "parses_as (the (json_stringify (JArr vs))) (json_norm (JArr vs))"
proof -
  let ?tx = "\<lambda>v. case json_stringify v of None \<Rightarrow> ''null'' | Some t \<Rightarrow> t"
  let ?vl = "\<lambda>v. if v = JUndefined then JNull else json_norm v"
  have "\<forall>x \<in> set vs. parses_as (?tx x) (?vl x)"
    using IH parses_null by (auto simp: json_stringify_None split: option.split)
  moreover have "\<forall>x \<in> set vs. ?tx x \<noteq> [] \<and> hd (?tx x) \<noteq> CHR '']'' \<and> \<not> is_ws (hd (?tx x))"
    using json_text_head by (auto split: option.split)
  ultimately show ?thesis
    using parses_array [of vs ?tx ?vl] by simp
qed

lemma parses_obj_step:
  assumes IH: "\<And>k t. k \<in> set (own_keys kvs) \<Longrightarrow> json_stringify (obj_get kvs k) = Some t \<Longrightarrow> parses_as t (json_norm (obj_get kvs k))"
  shows "parses_as (the (json_stringify (JObj kvs))) (json_norm (JObj kvs))"
proof -
  let ?ks = "filter (\<lambda>k. obj_get kvs k \<noteq> JUndefined) (own_keys kvs)"
  let ?tx = "\<lambda>k. the (json_stringify (obj_get kvs k))"
  let ?vl = "\<lambda>k. json_norm (obj_get kvs k)"
  have "\<forall>k \<in> set ?ks. parses_as (?tx k) (?vl k)"
    using IH by (auto simp: json_stringify_None)
  then show ?thesis
    using parses_object [of ?ks ?tx ?vl]
    by (simp add: concat_map_case_option concat_map_if_Nil json_stringify_None)
qed

lemma parses_bool: "parses_as (if b then ''true'' else ''false'') (JBool b)"
  by (intro parses_asI) simp

lemma quote_char_cases:
  "char_of (34 :: nat) \<noteq> CHR ''n''" "char_of (34 :: nat) \<noteq> CHR ''t''" "char_of (34 :: nat) \<noteq> CHR ''f''"
  by code_simp+

lemma parses_string: "parses_as (json_quote s) (JStr s)"
  using jstr_quote quote_char_cases by (intro parses_asI) (simp add: json_quote_def)

lemma int_to_dec_Cons: "\<exists>c cs. int_to_dec i = c # cs \<and> (c = CHR ''-'' \<or> is_digit c)"
  using int_to_dec_head [of i] by (cases "int_to_dec i") simp_all

lemma num_char_not_token:
  assumes "c = CHR ''-'' \<or> is_digit c"
  shows "c \<noteq> CHR ''n'' \<and> c \<noteq> CHR ''t'' \<and> c \<noteq> CHR ''f'' \<and> of_char c \<noteq> (34 :: nat) \<and> c \<noteq> CHR ''['' \<and> c \<noteq> CHR ''{''"
  using assms unfolding is_digit_def by auto

lemma jvalue_num_char:
  assumes "c = CHR ''-'' \<or> is_digit c"
  shows "jvalue (Suc n) (c # cs) = jnum (c # cs)"
proof -
  have "\<not> is_ws c"
    using assms digit_not_ws by auto
  then show ?thesis
    using num_char_not_token [OF assms]
    by (elim conjE) (simp only: jvalue.simps dropWhile.simps list.case if_False)
qed

lemma parses_number: "parses_as (int_to_dec i) (JNum i)"
proof (rule parses_asI)
  fix n' rest
  assume r: "rest = [] \<or> hd rest \<in> {CHR '','', CHR '']'', CHR ''}''}"
  obtain c cs where cs: "int_to_dec i = c # cs" and c: "c = CHR ''-'' \<or> is_digit c"
    using int_to_dec_Cons [of i] by blast
  show "jvalue (Suc n') (int_to_dec i @ rest) = Some (JNum i, rest)"
  proof -
    have "jvalue (Suc n') (int_to_dec i @ rest) = jnum (int_to_dec i @ rest)"
      using jvalue_num_char [OF c, of n' "cs @ rest"] cs by (simp only: append_Cons)
    then show ?thesis
      using jnum_int_to_dec [OF r] by (simp only:)
  qed
qed

lemma json_stringify_parses: "json_stringify v = Some t \<Longrightarrow> parses_as t (json_norm v)"
proof (induction v arbitrary: t rule: json_stringify.induct)
  case 1
  then show ?case
    by simp
next
  case 2
  then show ?case
    using parses_null by simp
next
  case (3 b)
  then show ?case
    using parses_bool [of b] by simp
next
  case (4 i)
  then show ?case
    using parses_number [of i] by simp
next
  case (5 s)
  then show ?case
    using parses_string [of s] by simp
next
  case (6 vs)
  then show ?case
    using parses_arr_step [of vs] by simp
next
  case (7 kvs)
  then show ?case
    using parses_obj_step [of kvs] by simp
qed

lemma json_decode_stringify:
  assumes "json_stringify v = Some t"
  shows "json_decode t = Some (json_norm v)"
proof -
  have "jvalue (Suc (length t)) (t @ []) = Some (json_norm v, [])"
    using json_stringify_parses [OF assms] unfolding parses_as_def by blast
  then show ?thesis
    unfolding json_decode_def by simp
qed

text \<open>
  What a client reads back from a body: an object with distinct, non-index
  keys keeps its keys in literal order, and only its defined properties.
\<close>

lemma obj_get_distinct:
  assumes "distinct (map fst kvs)" and "(k, v) \<in> set kvs"
  shows "obj_get kvs k = v"
proof -
  have "distinct (map fst (rev kvs))" and "(k, v) \<in> set (rev kvs)"
    using assms by (simp_all add: rev_map [symmetric])
  then show ?thesis
    by (simp add: obj_get_def map_of_is_SomeI)
qed

lemma json_norm_plain:
  assumes "distinct (map fst kvs)" and "\<forall>k \<in> set (map fst kvs). \<not> is_array_key k"
  shows "json_norm (JObj kvs) =
           JObj (concat (map (\<lambda>(k, v). if v = JUndefined then [] else [(k, json_norm v)]) kvs))"
proof -
  have "concat (map (\<lambda>k. if obj_get kvs k = JUndefined then [] else [(k, json_norm (obj_get kvs k))]) (map fst kvs)) =
        concat (map (\<lambda>(k, v). if v = JUndefined then [] else [(k, json_norm v)]) kvs)"
    using obj_get_distinct [OF assms(1)] by (auto simp: map_map intro!: arg_cong [where f = concat] map_cong)
  then show ?thesis
    by (simp only: json_norm.simps own_keys_plain [OF assms])
qed

lemma wire_body_json:
  assumes "v \<noteq> JUndefined"
  shows "\<exists>t. wire_body (JsonBody v) = Some t \<and> json_decode t = Some (json_norm v)"
proof -
  obtain t where t: "json_stringify v = Some t"
    using assms json_stringify_None [of v] by (cases "json_stringify v") auto
  then show ?thesis
    using json_decode_stringify [OF t] by (simp add: wire_body_def)
qed

lemma wire_body_object: "\<exists>t kvs'. wire_body (JsonBody (JObj kvs)) = Some t \<and> json_decode t = Some (JObj kvs')"
  using wire_body_json [of "JObj kvs"] by auto

lemma wire_body_array: "\<exists>t vs'. wire_body (JsonBody (JArr vs)) = Some t \<and> json_decode t = Some (JArr vs')"
  using wire_body_json [of "JArr vs"] by auto

lemma json_plain_object_keys:
  assumes "distinct (map fst kvs)" and "\<forall>k \<in> set (map fst kvs). \<not> is_array_key k"
    and "\<forall>(k, v) \<in> set kvs. v \<noteq> JUndefined"
  shows "\<exists>t kvs'. json_stringify (JObj kvs) = Some t \<and> json_decode t = Some (JObj kvs') \<and> map fst kvs' = map fst kvs"
proof -
  have "concat (map (\<lambda>(k, v). if v = JUndefined then [] else [(k, json_norm v)]) kvs) =
        map (\<lambda>(k, v). (k, json_norm v)) kvs"
    using assms(3) by (induction kvs) auto
  then show ?thesis
    using json_decode_stringify [of "JObj kvs"] json_norm_plain [OF assms(1,2)] by (auto simp: case_prod_beta)
qed

text \<open>\<^verbatim>\<open>JSON.parse\<close> on a printed text and on a text of white space only.\<close>

lemma json_parse_text_stringify:
  "json_stringify v = Some t \<Longrightarrow> json_parse_text t = Inr (json_norm v)"
  using json_decode_stringify by (simp add: json_parse_text_def)

lemma json_parse_text_blank:
  assumes "\<forall>c \<in> set s. is_ws c"
  shows "json_parse_text s = Inl (SyntaxError ''Unexpected token in JSON'')"
proof -
  have "skip_ws s = []"
    using assms by (simp add: dropWhile_eq_Nil_conv)
  then have "jvalue (Suc (length s)) s = None"
    by (simp only: jvalue.simps list.case)
  then show ?thesis
    by (simp add: json_parse_text_def json_decode_def)
qed

lemma json_stringify_nonempty: "json_stringify v = Some t \<Longrightarrow> t \<noteq> []"
  using json_text_head by blast

end
