(* ===== verification/JsonFuel.thy ===== *)
theory JsonFuel
  imports Json
begin

text \<open>
  The fuel of the \<^verbatim>\<open>JSON.parse\<close> model only bounds its recursion. A
  call that succeeds with some fuel succeeds with the same result with any
  more (\<open>jvalue_fuel_mono\<close>, \<open>parse_fuel_le\<close>); every successful call
  leaves a strictly shorter remainder (\<open>parse_rest_shorter\<close>); hence a
  text that any amount of fuel reads is read with the length of the text
  plus one (\<open>parse_fuel_enough\<close>), the fuel \<open>json_decode\<close> supplies:
  \<open>json_parse_text\<close> is the fuel-free parser
  (\<open>json_parse_text_complete\<close>). The proofs go through inversion lemmas
  that say what a successful call of each function consists of.
\<close>

subsection \<open>More fuel never changes a result\<close>

lemma jelems_step:
  assumes v: "\<And>s r. jvalue n s = Some r \<Longrightarrow> jvalue (Suc n) s = Some r"
    and e: "\<And>s r. jelems n s = Some r \<Longrightarrow> jelems (Suc n) s = Some r"
    and h: "jelems (Suc n) s = Some x"
  shows "jelems (Suc (Suc n)) s = Some x"
proof (cases "skip_ws s")
  case Nil
  then show ?thesis
    using h by (simp del: dropWhile_eq_Nil_conv)
next
  case (Cons c cs)
  show ?thesis
  proof (cases "c = CHR '']'' \<or> c \<noteq> CHR '',''")
    case True
    then show ?thesis
      using h Cons by (auto split: if_splits)
  next
    case False
    then have c: "c = CHR '',''" "c \<noteq> CHR '']''"
      by auto
    obtain vr where jv: "jvalue n cs = Some vr"
      using h Cons c by (cases "jvalue n cs") auto
    obtain y where je: "jelems n (snd vr) = Some y" and x: "x = apfst (Cons (fst vr)) y"
      using h Cons c jv by (cases vr; cases "jelems n (snd vr)") auto
    show ?thesis
      using Cons c v [OF jv] e [OF je] x by (cases vr) simp
  qed
qed

lemma jmembers_step:
  assumes v: "\<And>s r. jvalue n s = Some r \<Longrightarrow> jvalue (Suc n) s = Some r"
    and m: "\<And>s r. jmembers n s = Some r \<Longrightarrow> jmembers (Suc n) s = Some r"
    and h: "jmembers (Suc n) s = Some x"
  shows "jmembers (Suc (Suc n)) s = Some x"
proof (cases "skip_ws s")
  case Nil
  then show ?thesis
    using h by (simp del: dropWhile_eq_Nil_conv)
next
  case (Cons c cs)
  obtain k r where q: "of_char c = (34 :: nat)" and js: "jstr cs = Some (k, r)"
    using h Cons by (cases "jstr cs") (auto split: if_splits)
  obtain r2 where col: "skip_ws r = CHR '':'' # r2"
    using h Cons q js by (cases "skip_ws r") (auto simp del: dropWhile_eq_Nil_conv split: if_splits)
  obtain v r3 where jv: "jvalue n r2 = Some (v, r3)"
    using h Cons q js col by (cases "jvalue n r2") auto
  obtain c3 r4 where sk: "skip_ws r3 = c3 # r4"
    using h Cons q js col jv by (cases "skip_ws r3") (auto simp del: dropWhile_eq_Nil_conv)
  show ?thesis
  proof (cases "c3 = CHR ''}''")
    case True
    then show ?thesis
      using h Cons q js col jv sk v [OF jv] by simp
  next
    case False
    then have c3: "c3 = CHR '',''"
      using h Cons q js col jv sk by (auto split: if_splits)
    obtain y where jm: "jmembers n r4 = Some y" and x: "x = apfst (Cons (k, v)) y"
      using h Cons q js col jv sk c3 by (cases "jmembers n r4") auto
    show ?thesis
      using Cons q js col jv sk c3 v [OF jv] m [OF jm] x by simp
  qed
qed

lemma jvalue_step:
  assumes v: "\<And>s r. jvalue n s = Some r \<Longrightarrow> jvalue (Suc n) s = Some r"
    and e: "\<And>s r. jelems n s = Some r \<Longrightarrow> jelems (Suc n) s = Some r"
    and m: "\<And>s r. jmembers n s = Some r \<Longrightarrow> jmembers (Suc n) s = Some r"
    and h: "jvalue (Suc n) s = Some x"
  shows "jvalue (Suc (Suc n)) s = Some x"
proof (cases "skip_ws s")
  case Nil
  then show ?thesis
    using h by (simp del: dropWhile_eq_Nil_conv)
next
  case (Cons c cs)
  consider "c = CHR ''[''" | "c = CHR ''{''" | "c \<noteq> CHR ''[''" "c \<noteq> CHR ''{''"
    by blast
  then show ?thesis
  proof cases
    case 1
    show ?thesis
    proof (cases "skip_ws cs \<noteq> [] \<and> hd (skip_ws cs) = CHR '']''")
      case True
      then show ?thesis
        using h Cons 1 by simp
    next
      case False
      obtain vr where jv: "jvalue n cs = Some vr"
        using h Cons 1 False by (cases "jvalue n cs") auto
      obtain y where je: "jelems n (snd vr) = Some y" and x: "x = apfst (\<lambda>vs. JArr (fst vr # vs)) y"
        using h Cons 1 False jv by (cases vr; cases "jelems n (snd vr)") auto
      show ?thesis
        using Cons 1 False v [OF jv] e [OF je] x
        by (cases vr) (simp only: jvalue.simps(2) [of "Suc n"],
            auto simp del: jvalue.simps jelems.simps jmembers.simps dropWhile_eq_Nil_conv)
    qed
  next
    case 2
    show ?thesis
    proof (cases "skip_ws cs \<noteq> [] \<and> hd (skip_ws cs) = CHR ''}''")
      case True
      then show ?thesis
        using h Cons 2 by simp
    next
      case False
      obtain y where jm: "jmembers n cs = Some y" and x: "x = apfst JObj y"
        using h Cons 2 False by (cases "jmembers n cs") auto
      show ?thesis
        using Cons 2 False m [OF jm] x
        by (simp only: jvalue.simps(2) [of "Suc n"],
            auto simp del: jvalue.simps jelems.simps jmembers.simps dropWhile_eq_Nil_conv)
    qed
  next
    case 3
    have "jvalue (Suc (Suc n)) s = jvalue (Suc n) s"
      by (simp only: jvalue.simps(2) Cons list.case if_not_P [OF 3(1)] if_not_P [OF 3(2)])
    then show ?thesis
      using h by simp
  qed
qed

lemma jvalue_fuel_mono:
  "(jvalue n s = Some r \<longrightarrow> jvalue (Suc n) s = Some r) \<and>
   (jelems n s = Some rs \<longrightarrow> jelems (Suc n) s = Some rs) \<and>
   (jmembers n s = Some ms \<longrightarrow> jmembers (Suc n) s = Some ms)"
proof (induction n arbitrary: s r rs ms)
  case 0
  then show ?case
    by simp
next
  case (Suc n)
  then show ?case
    using jvalue_step [of n] jelems_step [of n] jmembers_step [of n] by meson
qed

lemma parse_fuel_le:
  assumes "n \<le> m"
  shows "(jvalue n s = Some x \<longrightarrow> jvalue m s = Some x) \<and> (jelems n s = Some y \<longrightarrow> jelems m s = Some y) \<and>
    (jmembers n s = Some z \<longrightarrow> jmembers m s = Some z)"
  using assms
proof (induction m rule: dec_induct)
  case base
  then show ?case
    by simp
next
  case (step m)
  then show ?case
    using jvalue_fuel_mono [of m s x y z] by blast
qed

subsection \<open>What a successful call consists of\<close>

lemma jvalue_SomeD:
  assumes "jvalue (Suc n) s = Some x"
  shows "jvalue (Suc 0) s = Some x \<or>
    (\<exists>cs v r y. skip_ws s = CHR ''['' # cs \<and> \<not> (skip_ws cs \<noteq> [] \<and> hd (skip_ws cs) = CHR '']'') \<and>
        jvalue n cs = Some (v, r) \<and> jelems n r = Some y \<and> x = apfst (\<lambda>vs. JArr (v # vs)) y) \<or>
    (\<exists>cs y. skip_ws s = CHR ''{'' # cs \<and> \<not> (skip_ws cs \<noteq> [] \<and> hd (skip_ws cs) = CHR ''}'') \<and>
        jmembers n cs = Some y \<and> x = apfst JObj y)"
proof (cases "skip_ws s")
  case Nil
  then show ?thesis
    using assms by (simp del: dropWhile_eq_Nil_conv)
next
  case (Cons c cs)
  consider "c = CHR ''[''" | "c = CHR ''{''" | "c \<noteq> CHR ''[''" "c \<noteq> CHR ''{''"
    by blast
  then show ?thesis
  proof cases
    case 1
    show ?thesis
    proof (cases "skip_ws cs \<noteq> [] \<and> hd (skip_ws cs) = CHR '']''")
      case True
      then show ?thesis
        using assms Cons 1 by simp
    next
      case False
      obtain vr where jv: "jvalue n cs = Some vr"
        using assms Cons 1 False by (cases "jvalue n cs") auto
      obtain y where je: "jelems n (snd vr) = Some y" and x: "x = apfst (\<lambda>vs. JArr (fst vr # vs)) y"
        using assms Cons 1 False jv by (cases vr; cases "jelems n (snd vr)") auto
      show ?thesis
        using Cons 1 False jv je x
        by (intro disjI2 disjI1 exI [of _ cs] exI [of _ "fst vr"] exI [of _ "snd vr"] exI [of _ y]) simp
    qed
  next
    case 2
    show ?thesis
    proof (cases "skip_ws cs \<noteq> [] \<and> hd (skip_ws cs) = CHR ''}''")
      case True
      then show ?thesis
        using assms Cons 2 by simp
    next
      case False
      obtain y where jm: "jmembers n cs = Some y" and x: "x = apfst JObj y"
        using assms Cons 2 False by (cases "jmembers n cs") auto
      show ?thesis
        using Cons 2 False jm x by (intro disjI2 exI [of _ cs] exI [of _ y]) (simp del: dropWhile_eq_Nil_conv)
    qed
  next
    case 3
    have "jvalue (Suc n) s = jvalue (Suc 0) s"
      by (simp only: jvalue.simps(2) Cons list.case if_not_P [OF 3(1)] if_not_P [OF 3(2)])
    then show ?thesis
      using assms by simp
  qed
qed

lemma jelems_SomeD:
  assumes "jelems (Suc n) s = Some x"
  shows "(\<exists>cs. skip_ws s = CHR '']'' # cs \<and> x = ([], cs)) \<or>
    (\<exists>cs v r y. skip_ws s = CHR '','' # cs \<and> jvalue n cs = Some (v, r) \<and> jelems n r = Some y \<and>
        x = apfst (Cons v) y)"
proof (cases "skip_ws s")
  case Nil
  then show ?thesis
    using assms by (simp del: dropWhile_eq_Nil_conv)
next
  case (Cons c cs)
  show ?thesis
  proof (cases "c = CHR '']''")
    case True
    then show ?thesis
      using assms Cons by simp
  next
    case False
    then have c: "c = CHR '',''"
      using assms Cons by (auto split: if_splits)
    obtain vr where jv: "jvalue n cs = Some vr"
      using assms Cons c by (cases "jvalue n cs") auto
    obtain y where je: "jelems n (snd vr) = Some y" and x: "x = apfst (Cons (fst vr)) y"
      using assms Cons c jv by (cases vr; cases "jelems n (snd vr)") auto
    show ?thesis
      using Cons c jv je x
      by (intro disjI2 exI [of _ cs] exI [of _ "fst vr"] exI [of _ "snd vr"] exI [of _ y]) simp
  qed
qed

lemma jmembers_SomeD:
  assumes "jmembers (Suc n) s = Some x"
  shows "\<exists>cs k r r2 v r3 c3 r4. skip_ws s = char_of (34 :: nat) # cs \<and> jstr cs = Some (k, r) \<and>
    skip_ws r = CHR '':'' # r2 \<and> jvalue n r2 = Some (v, r3) \<and> skip_ws r3 = c3 # r4 \<and>
    ((c3 = CHR ''}'' \<and> x = ([(k, v)], r4)) \<or>
     (c3 = CHR '','' \<and> (\<exists>y. jmembers n r4 = Some y \<and> x = apfst (Cons (k, v)) y)))"
proof (cases "skip_ws s")
  case Nil
  then show ?thesis
    using assms by (simp del: dropWhile_eq_Nil_conv)
next
  case (Cons c cs)
  obtain k r where q: "of_char c = (34 :: nat)" and js: "jstr cs = Some (k, r)"
    using assms Cons by (cases "jstr cs") (auto split: if_splits)
  have c: "c = char_of (34 :: nat)"
    using arg_cong [where f = "char_of :: nat \<Rightarrow> char", OF q] by simp
  obtain r2 where col: "skip_ws r = CHR '':'' # r2"
    using assms Cons q js by (cases "skip_ws r") (auto simp del: dropWhile_eq_Nil_conv split: if_splits)
  obtain v r3 where jv: "jvalue n r2 = Some (v, r3)"
    using assms Cons q js col by (cases "jvalue n r2") auto
  obtain c3 r4 where sk: "skip_ws r3 = c3 # r4"
    using assms Cons q js col jv by (cases "skip_ws r3") (auto simp del: dropWhile_eq_Nil_conv)
  show ?thesis
  proof (cases "c3 = CHR ''}''")
    case True
    then have "x = ([(k, v)], r4)"
      using assms Cons q js col jv sk by simp
    then show ?thesis
      using Cons c js col jv sk True
      by (intro exI [of _ cs] exI [of _ k] exI [of _ r] exI [of _ r2] exI [of _ v] exI [of _ r3]
          exI [of _ c3] exI [of _ r4]) simp
  next
    case False
    then have c3: "c3 = CHR '',''"
      using assms Cons q js col jv sk by (auto split: if_splits)
    obtain y where jm: "jmembers n r4 = Some y" and x: "x = apfst (Cons (k, v)) y"
      using assms Cons q js col jv sk c3 by (cases "jmembers n r4") auto
    show ?thesis
      using Cons c js col jv sk c3 jm x
      by (intro exI [of _ cs] exI [of _ k] exI [of _ r] exI [of _ r2] exI [of _ v] exI [of _ r3]
          exI [of _ c3] exI [of _ r4]) simp
  qed
qed

lemma jvalue_arr_intro:
  assumes "skip_ws s = CHR ''['' # cs" and "\<not> (skip_ws cs \<noteq> [] \<and> hd (skip_ws cs) = CHR '']'')"
    and "jvalue m cs = Some (v, r)" and "jelems m r = Some y"
  shows "jvalue (Suc m) s = Some (apfst (\<lambda>vs. JArr (v # vs)) y)"
  using assms by (auto simp del: dropWhile_eq_Nil_conv)

lemma jvalue_obj_intro:
  assumes "skip_ws s = CHR ''{'' # cs" and "\<not> (skip_ws cs \<noteq> [] \<and> hd (skip_ws cs) = CHR ''}'')"
    and "jmembers m cs = Some y"
  shows "jvalue (Suc m) s = Some (apfst JObj y)"
  using assms by (auto simp del: dropWhile_eq_Nil_conv)

lemma jelems_comma_intro:
  assumes "skip_ws s = CHR '','' # cs" and "jvalue m cs = Some (v, r)" and "jelems m r = Some y"
  shows "jelems (Suc m) s = Some (apfst (Cons v) y)"
  using assms by simp

lemma jmembers_intro:
  assumes "skip_ws s = char_of (34 :: nat) # cs" and "jstr cs = Some (k, r)" and "skip_ws r = CHR '':'' # r2"
    and "jvalue m r2 = Some (v, r3)" and "skip_ws r3 = c3 # r4"
  shows "c3 = CHR ''}'' \<Longrightarrow> jmembers (Suc m) s = Some ([(k, v)], r4)"
    and "c3 = CHR '','' \<Longrightarrow> jmembers m r4 = Some y \<Longrightarrow> jmembers (Suc m) s = Some (apfst (Cons (k, v)) y)"
  using assms by simp_all

subsection \<open>Every call consumes input\<close>

lemma jstr_shorter: "jstr s = Some (k, r) \<Longrightarrow> length r < length s"
proof (induction s arbitrary: k r rule: jstr.induct)
  case 1
  then show ?case
    by simp
next
  case (2 c cs)
  show ?case
    using "2.prems" "2.IH"
    by (fastforce simp: Let_def split: if_splits list.splits option.splits prod.splits)
qed

lemma dropWhile_shorter: "takeWhile P xs \<noteq> [] \<Longrightarrow> length (dropWhile P xs) < length xs"
  by (cases xs) (simp_all add: le_imp_less_Suc length_dropWhile_le split: if_splits)

lemma jnum_shorter: "jnum s = Some (v, r) \<Longrightarrow> length r < length s"
  using dropWhile_shorter [of is_digit s] dropWhile_shorter [of is_digit "tl s"]
  by (cases s) (auto simp: jnum_def Let_def split: if_splits)

lemma skip_ws_Cons_shorter: "skip_ws s = c # cs \<Longrightarrow> length cs < length s"
  using length_dropWhile_le [of is_ws s] by simp

lemma jvalue_one_shorter:
  assumes "jvalue (Suc 0) s = Some (v, r)"
  shows "length r < length s"
proof (cases "skip_ws s")
  case Nil
  then show ?thesis
    using assms by (simp del: dropWhile_eq_Nil_conv)
next
  case (Cons c cs)
  have l: "length cs < length s"
    using skip_ws_Cons_shorter [OF Cons] .
  have lw: "length (skip_ws cs) - Suc 0 \<le> length cs"
    using length_dropWhile_le [of is_ws cs] by simp
  have "jvalue (Suc 0) s = Some (v, r) \<Longrightarrow> length r \<le> length cs"
    using Cons lw
    by (auto simp: less_imp_le le_imp_less_Suc length_dropWhile_le dest!: jstr_shorter jnum_shorter
        split: if_splits option.splits)
  then show ?thesis
    using assms l by simp
qed

lemma parse_rest_shorter:
  "(jvalue n s = Some (v, r) \<longrightarrow> length r < length s) \<and>
   (jelems n s = Some (vs, r) \<longrightarrow> length r < length s) \<and>
   (jmembers n s = Some (ms, r) \<longrightarrow> length r < length s)"
proof (induction n arbitrary: s v r vs ms)
  case 0
  then show ?case
    by simp
next
  case (Suc n)
  have v: "length r' < length s'" if "jvalue n s' = Some (v', r')" for s' v' r'
    using Suc.IH that by blast
  have e: "length r' < length s'" if "jelems n s' = Some y" "r' = snd y" for s' y r'
    using Suc.IH [of s' _ r' "fst y"] that by (cases y) auto
  have m: "length r' < length s'" if "jmembers n s' = Some y" "r' = snd y" for s' y r'
    using Suc.IH [of s' _ r' _ "fst y"] that by (cases y) auto
  have "length r < length s" if h: "jvalue (Suc n) s = Some (v, r)"
  proof -
    consider (one) "jvalue (Suc 0) s = Some (v, r)"
      | (arr) cs v' r' y where "skip_ws s = CHR ''['' # cs" "jvalue n cs = Some (v', r')" "jelems n r' = Some y"
          "(v, r) = apfst (\<lambda>vs. JArr (v' # vs)) y"
      | (obj) cs y where "skip_ws s = CHR ''{'' # cs" "jmembers n cs = Some y" "(v, r) = apfst JObj y"
      using jvalue_SomeD [OF h] by blast
    then show ?thesis
    proof cases
      case one
      then show ?thesis
        by (rule jvalue_one_shorter)
    next
      case arr
      then show ?thesis
        using v [OF arr(2)] e [OF arr(3), of r] skip_ws_Cons_shorter [OF arr(1)] by (cases y) simp
    next
      case obj
      then show ?thesis
        using m [OF obj(2), of r] skip_ws_Cons_shorter [OF obj(1)] by (cases y) simp
    qed
  qed
  moreover have "length r < length s" if h: "jelems (Suc n) s = Some (vs, r)"
  proof -
    consider (close) cs where "skip_ws s = CHR '']'' # cs" "(vs, r) = ([], cs)"
      | (more) cs v' r' y where "skip_ws s = CHR '','' # cs" "jvalue n cs = Some (v', r')" "jelems n r' = Some y"
          "(vs, r) = apfst (Cons v') y"
      using jelems_SomeD [OF h] by blast
    then show ?thesis
    proof cases
      case close
      then show ?thesis
        using skip_ws_Cons_shorter [OF close(1)] by simp
    next
      case more
      then show ?thesis
        using v [OF more(2)] e [OF more(3), of r] skip_ws_Cons_shorter [OF more(1)] by (cases y) simp
    qed
  qed
  moreover have "length r < length s" if h: "jmembers (Suc n) s = Some (ms, r)"
  proof -
    obtain cs k r0 r2 v' r3 c3 r4 where s: "skip_ws s = char_of (34 :: nat) # cs" and js: "jstr cs = Some (k, r0)"
      and col: "skip_ws r0 = CHR '':'' # r2" and jv: "jvalue n r2 = Some (v', r3)" and sk: "skip_ws r3 = c3 # r4"
      and tail: "(c3 = CHR ''}'' \<and> (ms, r) = ([(k, v')], r4)) \<or>
         (c3 = CHR '','' \<and> (\<exists>y. jmembers n r4 = Some y \<and> (ms, r) = apfst (Cons (k, v')) y))"
      using jmembers_SomeD [OF h] by blast
    have "length r4 < length s"
      using skip_ws_Cons_shorter [OF s] jstr_shorter [OF js] skip_ws_Cons_shorter [OF col] v [OF jv]
        skip_ws_Cons_shorter [OF sk] by simp
    moreover have "length r \<le> length r4"
    proof (cases "c3 = CHR ''}''")
      case True
      then show ?thesis
        using tail by simp
    next
      case False
      then obtain y where y: "jmembers n r4 = Some y" "(ms, r) = apfst (Cons (k, v')) y"
        using tail by blast
      then have "r = snd y"
        by (cases y) simp
      then show ?thesis
        using m [OF y(1)] by simp
    qed
    ultimately show ?thesis
      by simp
  qed
  ultimately show ?case
    by blast
qed

subsection \<open>Enough fuel\<close>

lemma parse_fuel_enough:
  "(jvalue n s = Some x \<longrightarrow> jvalue (Suc (length s)) s = Some x) \<and>
   (jelems n s = Some y \<longrightarrow> jelems (Suc (length s)) s = Some y) \<and>
   (jmembers n s = Some z \<longrightarrow> jmembers (Suc (length s)) s = Some z)"
proof (induction n arbitrary: s x y z)
  case 0
  then show ?case
    by simp
next
  case (Suc n)
  have v: "jvalue m s' = Some x'" if "jvalue n s' = Some x'" "length s' < m" for s' x' m
    using Suc.IH [of s' x'] parse_fuel_le [of "Suc (length s')" m s' x'] that by simp
  have e: "jelems m s' = Some y'" if "jelems n s' = Some y'" "length s' < m" for s' y' m
    using Suc.IH [of s' _ y'] parse_fuel_le [of "Suc (length s')" m s' _ y'] that by simp
  have m: "jmembers m s' = Some z'" if "jmembers n s' = Some z'" "length s' < m" for s' z' m
    using Suc.IH [of s' _ _ z'] parse_fuel_le [of "Suc (length s')" m s' _ _ z'] that by simp
  have short: "length r < length s'" if "jvalue n s' = Some (v', r)" for s' v' r
    using parse_rest_shorter that by blast
  have "jvalue (Suc (length s)) s = Some x" if h: "jvalue (Suc n) s = Some x"
  proof -
    consider (one) "jvalue (Suc 0) s = Some x"
      | (arr) cs v' r' y' where "skip_ws s = CHR ''['' # cs" "\<not> (skip_ws cs \<noteq> [] \<and> hd (skip_ws cs) = CHR '']'')"
          "jvalue n cs = Some (v', r')" "jelems n r' = Some y'" "x = apfst (\<lambda>vs. JArr (v' # vs)) y'"
      | (obj) cs y' where "skip_ws s = CHR ''{'' # cs" "\<not> (skip_ws cs \<noteq> [] \<and> hd (skip_ws cs) = CHR ''}'')"
          "jmembers n cs = Some y'" "x = apfst JObj y'"
      using jvalue_SomeD [OF h] by blast
    then show ?thesis
    proof cases
      case one
      then show ?thesis
        using parse_fuel_le [of "Suc 0" "Suc (length s)" s x] by simp
    next
      case arr
      have l: "length cs < length s" "length r' < length cs"
        using skip_ws_Cons_shorter [OF arr(1)] short [OF arr(3)] by simp_all
      show ?thesis
        using jvalue_arr_intro [OF arr(1,2) v [OF arr(3)] e [OF arr(4)]] l arr(5) by simp
    next
      case obj
      show ?thesis
        using jvalue_obj_intro [OF obj(1,2) m [OF obj(3)]] skip_ws_Cons_shorter [OF obj(1)] obj(4) by simp
    qed
  qed
  moreover have "jelems (Suc (length s)) s = Some y" if h: "jelems (Suc n) s = Some y"
  proof -
    consider (close) cs where "skip_ws s = CHR '']'' # cs" "y = ([], cs)"
      | (more) cs v' r' y' where "skip_ws s = CHR '','' # cs" "jvalue n cs = Some (v', r')" "jelems n r' = Some y'"
          "y = apfst (Cons v') y'"
      using jelems_SomeD [OF h] by blast
    then show ?thesis
    proof cases
      case close
      then show ?thesis
        by simp
    next
      case more
      have l: "length cs < length s" "length r' < length cs"
        using skip_ws_Cons_shorter [OF more(1)] short [OF more(2)] by simp_all
      show ?thesis
        using jelems_comma_intro [OF more(1) v [OF more(2)] e [OF more(3)]] l more(4) by simp
    qed
  qed
  moreover have "jmembers (Suc (length s)) s = Some z" if h: "jmembers (Suc n) s = Some z"
  proof -
    obtain cs k r0 r2 v' r3 c3 r4 where s: "skip_ws s = char_of (34 :: nat) # cs" and js: "jstr cs = Some (k, r0)"
      and col: "skip_ws r0 = CHR '':'' # r2" and jv: "jvalue n r2 = Some (v', r3)" and sk: "skip_ws r3 = c3 # r4"
      and tail: "(c3 = CHR ''}'' \<and> z = ([(k, v')], r4)) \<or>
         (c3 = CHR '','' \<and> (\<exists>y. jmembers n r4 = Some y \<and> z = apfst (Cons (k, v')) y))"
      using jmembers_SomeD [OF h] by blast
    have l: "length r2 < length s" "length r4 < length s"
      using skip_ws_Cons_shorter [OF s] jstr_shorter [OF js] skip_ws_Cons_shorter [OF col] short [OF jv]
        skip_ws_Cons_shorter [OF sk] by simp_all
    note jv' = v [OF jv, of "length s"]
    show ?thesis
    proof (cases "c3 = CHR ''}''")
      case True
      then show ?thesis
        using jmembers_intro(1) [OF s js col jv' sk] tail l by simp
    next
      case False
      then obtain y' where y: "jmembers n r4 = Some y'" "z = apfst (Cons (k, v')) y'"
        using tail by blast
      have "c3 = CHR '',''"
        using tail False by blast
      then show ?thesis
        using jmembers_intro(2) [OF s js col jv' sk _ m [OF y(1), of "length s"]] y(2) l by simp
    qed
  qed
  ultimately show ?case
    by blast
qed

lemma json_parse_text_complete:
  "json_parse_text s = Inr v \<longleftrightarrow> (\<exists>n r. jvalue n s = Some (v, r) \<and> skip_ws r = [])"
proof
  assume "json_parse_text s = Inr v"
  then have "json_decode s = Some v"
    by (simp add: json_parse_text_def split: option.splits)
  then obtain r where "jvalue (Suc (length s)) s = Some (v, r)" "skip_ws r = []"
    by (auto simp: json_decode_def simp del: jvalue.simps dropWhile_eq_Nil_conv split: option.splits if_splits)
  then show "\<exists>n r. jvalue n s = Some (v, r) \<and> skip_ws r = []"
    by blast
next
  assume "\<exists>n r. jvalue n s = Some (v, r) \<and> skip_ws r = []"
  then obtain n r where "jvalue n s = Some (v, r)" "skip_ws r = []"
    by blast
  then show "json_parse_text s = Inr v"
    using parse_fuel_enough [of n s "(v, r)"] by (simp add: json_parse_text_def json_decode_def del: dropWhile_eq_Nil_conv)
qed

end
