(* ===== verification/Base64.thy ===== *)
theory Base64
  imports JsValue
begin

text \<open>
  Node's \<^verbatim>\<open>Buffer.from(s).toString("base64")\<close>, which both handlers use to
  build the Basic authentication header from \<^verbatim>\<open>userId:apiKey\<close>.
  \<^verbatim>\<open>Buffer.from(s)\<close> encodes the string in UTF-8; a HOL character is a code
  point below 256, which UTF-8 writes as one byte below 128 and as two bytes
  otherwise. The base64 encoder takes three bytes to four characters of the
  standard alphabet and pads a last group of one or two bytes with \<^verbatim>\<open>=\<close>.
  The second half holds the decoders a server applies to the header and the
  round trips: the credential of \<open>basic_auth\<close> reads back as the user id
  and key.
\<close>

definition utf8_char :: "char \<Rightarrow> byte list" where
  "utf8_char c =
     (let n = (of_char c :: nat)
      in if n < 128 then [word_of_nat n]
         else [word_of_nat (192 + n div 64), word_of_nat (128 + n mod 64)])"

definition utf8_encode :: "string \<Rightarrow> byte list" where
  "utf8_encode s = concat (map utf8_char s)"

definition b64_alphabet :: string where
  "b64_alphabet = ''ABCDEFGHIJKLMNOPQRSTUVWXYZabcdefghijklmnopqrstuvwxyz0123456789+/''"

definition b64_digit :: "nat \<Rightarrow> char" where
  "b64_digit i = b64_alphabet ! i"

text \<open>The 24-bit group of three bytes, and its four sextets from the most significant.\<close>

definition group24 :: "byte \<Rightarrow> byte \<Rightarrow> byte \<Rightarrow> nat" where
  "group24 a b c = unat a * 65536 + unat b * 256 + unat c"

definition sextets :: "nat \<Rightarrow> nat list" where
  "sextets n = [n div 262144, n div 4096 mod 64, n div 64 mod 64, n mod 64]"

fun base64_encode :: "byte list \<Rightarrow> string" where
  "base64_encode (a # b # c # rest) =
     map b64_digit (sextets (group24 a b c)) @ base64_encode rest"
| "base64_encode [a, b] = map b64_digit (take 3 (sextets (group24 a b 0))) @ ''=''"
| "base64_encode [a] = map b64_digit (take 2 (sextets (group24 a 0 0))) @ ''==''"
| "base64_encode [] = []"

definition buffer_base64 :: "string \<Rightarrow> string" where
  "buffer_base64 s = base64_encode (utf8_encode s)"

text \<open>
  \<^verbatim>\<open>Buffer.from(`${userId}:${apiKey}`).toString("base64")\<close>, the credential
  of the Basic authorization header both handlers send.
\<close>

definition basic_auth :: "jsval \<Rightarrow> jsval \<Rightarrow> string" where
  "basic_auth userId apiKey = buffer_base64 (js_to_string userId @ '':'' @ js_to_string apiKey)"

subsection \<open>Reading the header back\<close>

text \<open>
  What the upstream does with the header: strip \<^verbatim>\<open>Basic \<close>, decode
  base64 (four characters to three bytes, a last group padded with one or
  two \<^verbatim>\<open>=\<close>), decode UTF-8, and split at the first colon
  (RFC 7617). These are the inverse functions against which the encoder is
  checked; the source does not decode.
\<close>


fun utf8_decode :: "byte list \<Rightarrow> string option" where
  "utf8_decode [] = Some []"
| "utf8_decode (b # bs) =
     (if unat b < 128 then map_option (Cons (char_of (unat b))) (utf8_decode bs)
      else case bs of
        b2 # bs' \<Rightarrow>
          if 194 \<le> unat b \<and> unat b < 196 \<and> 128 \<le> unat b2 \<and> unat b2 < 192
          then map_option (Cons (char_of ((unat b - 192) * 64 + (unat b2 - 128)))) (utf8_decode bs')
          else None
      | [] \<Rightarrow> None)"

definition b64_value :: "char \<Rightarrow> nat option" where
  "b64_value c = map_of (zip b64_alphabet [0..<64]) c"

definition unsextets :: "nat \<Rightarrow> nat \<Rightarrow> nat \<Rightarrow> nat \<Rightarrow> nat" where
  "unsextets s0 s1 s2 s3 = s0 * 262144 + s1 * 4096 + s2 * 64 + s3"

definition bytes_of24 :: "nat \<Rightarrow> byte list" where
  "bytes_of24 n = [word_of_nat (n div 65536), word_of_nat (n div 256 mod 256), word_of_nat (n mod 256)]"

fun base64_decode :: "string \<Rightarrow> byte list option" where
  "base64_decode [] = Some []"
| "base64_decode (c0 # c1 # c2 # c3 # rest) =
     (case (b64_value c0, b64_value c1) of
        (Some s0, Some s1) \<Rightarrow>
          if rest = [] \<and> c2 = CHR ''='' \<and> c3 = CHR ''=''
          then Some (take 1 (bytes_of24 (unsextets s0 s1 0 0)))
          else if rest = [] \<and> c3 = CHR ''=''
          then map_option (\<lambda>s2. take 2 (bytes_of24 (unsextets s0 s1 s2 0))) (b64_value c2)
          else (case (b64_value c2, b64_value c3) of
                  (Some s2, Some s3) \<Rightarrow>
                    map_option ((@) (bytes_of24 (unsextets s0 s1 s2 s3))) (base64_decode rest)
                | _ \<Rightarrow> None)
      | _ \<Rightarrow> None)"
| "base64_decode _ = None"

definition parse_basic :: "string \<Rightarrow> (string \<times> string) option" where
  "parse_basic h =
     (if take 6 h = ''Basic '' then
        (case base64_decode (drop 6 h) of
           None \<Rightarrow> None
         | Some bs \<Rightarrow>
             (case utf8_decode bs of
                None \<Rightarrow> None
              | Some s \<Rightarrow>
                  if CHR '':'' \<in> set s
                  then Some (takeWhile (\<lambda>c. c \<noteq> CHR '':'') s, tl (dropWhile (\<lambda>c. c \<noteq> CHR '':'') s))
                  else None))
      else None)"

subsection \<open>Round trips\<close>

lemma unat_byte_of_nat: "n < 256 \<Longrightarrow> unat (word_of_nat n :: byte) = n"
  by (simp add: unat_of_nat)

lemma utf8_decode_char: "utf8_decode (utf8_char c @ bs) = map_option (Cons c) (utf8_decode bs)"
proof -
  define n where "n = (of_char c :: nat)"
  have n: "n < 256" "char_of n = c"
    unfolding n_def by (simp_all add: nat_of_char_less_256)
  show ?thesis
  proof (cases "n < 128")
    case True
    then show ?thesis
      using n by (simp add: utf8_char_def n_def [symmetric] unat_byte_of_nat)
  next
    case False
    have hi: "194 \<le> 192 + n div 64" "192 + n div 64 < 196"
      using False n(1) by linarith+
    have lo: "128 + n mod 64 < 192"
      by simp
    have u: "unat (word_of_nat (192 + n div 64) :: byte) = 192 + n div 64"
         "unat (word_of_nat (128 + n mod 64) :: byte) = 128 + n mod 64"
      using hi lo by (intro unat_byte_of_nat; linarith)+
    have "(192 + n div 64 - 192) * 64 + (128 + n mod 64 - 128) = n"
      by simp
    with False n hi lo u show ?thesis
      by (simp add: utf8_char_def n_def [symmetric] del: of_nat_add)
  qed
qed

lemma utf8_roundtrip: "utf8_decode (utf8_encode s) = Some s"
  by (induction s) (simp_all add: utf8_encode_def utf8_decode_char)

lemma b64_digit_value: "i < 64 \<Longrightarrow> b64_value (b64_digit i) = Some i"
proof -
  have "list_all (\<lambda>i. b64_value (b64_digit i) = Some i) [0..<64]"
    by code_simp
  then show "i < 64 \<Longrightarrow> b64_value (b64_digit i) = Some i"
    by (simp add: list_all_iff)
qed

lemma b64_digit_not_pad: "i < 64 \<Longrightarrow> b64_digit i \<noteq> CHR ''=''"
proof -
  have "list_all (\<lambda>i. b64_digit i \<noteq> CHR ''='') [0..<64]"
    by code_simp
  then show "i < 64 \<Longrightarrow> b64_digit i \<noteq> CHR ''=''"
    by (simp add: list_all_iff)
qed

lemma unsextets_sextets:
  "unsextets (n div 262144) (n div 4096 mod 64) (n div 64 mod 64) (n mod 64) = n"
proof -
  have "n mod 262144 = 4096 * (n div 4096 mod 64) + n mod 4096"
    using mod_mult2_eq [of n 4096 64] by simp
  moreover have "n mod 4096 = 64 * (n div 64 mod 64) + n mod 64"
    using mod_mult2_eq [of n 64 64] by simp
  moreover have "n = 262144 * (n div 262144) + n mod 262144"
    by simp
  ultimately show ?thesis
    unfolding unsextets_def by linarith
qed

lemma group24_bound: "group24 a b c < 16777216"
proof -
  have "unat a < 256" "unat b < 256" "unat c < 256"
    by simp_all
  then show ?thesis
    unfolding group24_def by linarith
qed

lemma base256_digits:
  fixes a b c :: nat
  assumes "a < 256" "b < 256" "c < 256"
  shows "(a * 65536 + b * 256 + c) div 65536 = a" "(a * 65536 + b * 256 + c) div 256 mod 256 = b"
    "(a * 65536 + b * 256 + c) mod 256 = c"
proof -
  show "(a * 65536 + b * 256 + c) div 65536 = a"
    using assms by (intro div_nat_eqI) simp_all
  have "(a * 65536 + b * 256 + c) div 256 = a * 256 + b"
    using assms by (intro div_nat_eqI) simp_all
  then show "(a * 65536 + b * 256 + c) div 256 mod 256 = b"
    using assms by simp
  have e: "a * 65536 + b * 256 + c = c + (a * 256 + b) * 256"
    by simp
  show "(a * 65536 + b * 256 + c) mod 256 = c"
    by (subst e, subst mod_mult_self1) (simp add: assms)
qed

lemma bytes_of24_group24: "bytes_of24 (group24 a b c) = [a, b, c]"
  using base256_digits [OF unat_byte_lt unat_byte_lt unat_byte_lt, of a b c]
  by (simp add: bytes_of24_def group24_def)

lemma sextet_bounds:
  fixes n :: nat
  assumes "n < 16777216"
  shows "n div 262144 < 64" "n div 4096 mod 64 < 64" "n div 64 mod 64 < 64" "n mod 64 < 64"
  using assms by (simp_all add: less_mult_imp_div_less)

lemma base64_roundtrip: "base64_decode (base64_encode bs) = Some bs"
proof (induction bs rule: base64_encode.induct)
  case (1 a b c rest)
  note lt = sextet_bounds [OF group24_bound [of a b c]]
  show ?case
    using "1.IH" lt unsextets_sextets [of "group24 a b c"]
    by (simp add: sextets_def b64_digit_value b64_digit_not_pad bytes_of24_group24)
next
  case (2 a b)
  note lt = sextet_bounds [OF group24_bound [of a b 0]]
  have "group24 a b 0 mod 64 = 0"
    unfolding group24_def by simp
  then have "unsextets (group24 a b 0 div 262144) (group24 a b 0 div 4096 mod 64)
               (group24 a b 0 div 64 mod 64) 0 = group24 a b 0"
    using unsextets_sextets [of "group24 a b 0"] by simp
  then show ?case
    using lt by (simp add: sextets_def b64_digit_value b64_digit_not_pad bytes_of24_group24)
next
  case (3 a)
  note lt = sextet_bounds [OF group24_bound [of a 0 0]]
  have "group24 a 0 0 mod 64 = 0" "group24 a 0 0 div 64 mod 64 = 0"
    unfolding group24_def by simp_all
  then have "unsextets (group24 a 0 0 div 262144) (group24 a 0 0 div 4096 mod 64) 0 0 = group24 a 0 0"
    using unsextets_sextets [of "group24 a 0 0"] by simp
  then show ?case
    using lt by (simp add: sextets_def b64_digit_value b64_digit_not_pad bytes_of24_group24)
qed simp

lemma parse_basic_auth:
  assumes "CHR '':'' \<notin> set u"
  shows "parse_basic (''Basic '' @ basic_auth (JStr u) (JStr k)) = Some (u, k)"
proof -
  have all: "\<And>c. c \<in> set u \<Longrightarrow> c \<noteq> CHR '':''"
    using assms by blast
  have "takeWhile (\<lambda>c. c \<noteq> CHR '':'') (u @ CHR '':'' # k) = u"
    by (simp add: takeWhile_append2 all)
  moreover have "dropWhile (\<lambda>c. c \<noteq> CHR '':'') (u @ CHR '':'' # k) = CHR '':'' # k"
    by (simp add: dropWhile_append2 all)
  ultimately show ?thesis
    by (simp add: parse_basic_def basic_auth_def buffer_base64_def base64_roundtrip utf8_roundtrip
        del: takeWhile_append dropWhile_append)
qed

end
