(* ===== verification/BookAppointment.thy ===== *)
theory BookAppointment
  imports JsonFuel Base64
begin

text \<open>
  \<^verbatim>\<open>netlify/functions/book-appointment.js\<close>: the handler that validates a
  booking request and forwards it to the upstream appointments endpoint.
  One definition per block of the source, in its order: the CORS headers,
  the required-field filter, the payload, the outbound request, the handling
  of the upstream response, the \<^verbatim>\<open>try\<close> block, and the handler with its
  method gate and \<^verbatim>\<open>catch\<close>.
\<close>

definition booking_headers :: "(string \<times> string) list" where
  "booking_headers =
     [(''Access-Control-Allow-Origin'', ''*''),
      (''Access-Control-Allow-Headers'', ''Content-Type''),
      (''Access-Control-Allow-Methods'', ''POST, OPTIONS'')]"

definition required_fields :: "string list" where
  "required_fields = [''appointmentTypeID'', ''datetime'', ''firstName'', ''lastName'', ''email'']"

text \<open>
  \<^verbatim>\<open>required.filter((k) => !booking[k])\<close>: the keys read in order; the first
  read that throws aborts the filter.
\<close>

fun missing_fields :: "jsval \<Rightarrow> string list \<Rightarrow> js_error + string list" where
  "missing_fields booking [] = Inr []"
| "missing_fields booking (k # ks) =
     bindE (get_prop booking k) (\<lambda>v.
     bindE (missing_fields booking ks) (\<lambda>ms.
     Inr (if js_truthy v then ms else k # ms)))"

text \<open>The payload object, with \<^verbatim>\<open>phone\<close> and \<^verbatim>\<open>notes\<close> defaulted by \<^verbatim>\<open>|| ""\<close>.\<close>

definition booking_payload :: "jsval \<Rightarrow> js_error + jsval" where
  "booking_payload b =
     bindE (get_prop b ''appointmentTypeID'') (\<lambda>ty.
     bindE (get_prop b ''datetime'') (\<lambda>dt.
     bindE (get_prop b ''firstName'') (\<lambda>fn.
     bindE (get_prop b ''lastName'') (\<lambda>ln.
     bindE (get_prop b ''email'') (\<lambda>em.
     bindE (get_prop b ''phone'') (\<lambda>ph.
     bindE (get_prop b ''notes'') (\<lambda>nt.
     Inr (JObj [(''appointmentTypeID'', ty), (''datetime'', dt), (''firstName'', fn),
                (''lastName'', ln), (''email'', em),
                (''phone'', js_or ph (JStr [])), (''notes'', js_or nt (JStr []))]))))))))"

definition appointments_url :: string where
  "appointments_url = ''https://acuityscheduling.com/api/v1/appointments''"

definition booking_request :: "string \<Rightarrow> jsval \<Rightarrow> http_request" where
  "booking_request auth payload =
     \<lparr>req_url = appointments_url, req_method = ''POST'',
      req_headers = [(''Authorization'', ''Basic '' @ auth), (''Content-Type'', ''application/json'')],
      req_body = Some payload\<rparr>"

text \<open>
  The upstream's answer: a non-2xx status is propagated with the body text
  (or the status) as message; a 2xx body is parsed and returned with its
  \<^verbatim>\<open>id\<close>. Parsing may throw.
\<close>

definition booking_result :: "world \<Rightarrow> int \<Rightarrow> string option \<Rightarrow> js_error + response" where
  "booking_result w st txt =
     (if \<not> resp_ok st then
        (let text = resp_text txt in
         Inr (json_response st booking_headers
               (JObj [(''error'', JStr ''Booking failed''),
                      (''message'', JStr (if text \<noteq> [] then text else int_to_dec st))])))
      else bindE (resp_json w txt) (\<lambda>data.
        Inr (json_response 200 booking_headers
              (JObj [(''success'', JBool True), (''appointmentId'', optional_prop data ''id''),
                     (''data'', data)]))))"

text \<open>\<^verbatim>\<open>event.body || "{}"\<close>: a missing or empty body reads as an empty object.\<close>

definition body_text :: "string option \<Rightarrow> string" where
  "body_text b = (case b of None \<Rightarrow> ''{}'' | Some s \<Rightarrow> if s = [] then ''{}'' else s)"

text \<open>
  The \<^verbatim>\<open>try\<close> block: the result, or the error it throws, each with the
  requests sent before it ended.
\<close>

definition booking_try ::
  "world \<Rightarrow> event \<Rightarrow> (js_error \<times> http_request list) + (response \<times> http_request list)" where
  "booking_try w ev =
     (let userId = env_val w ''ACUITY_USER_ID''; apiKey = env_val w ''ACUITY_API_KEY'' in
      if \<not> js_truthy userId \<or> \<not> js_truthy apiKey then
        Inr (json_response 500 booking_headers
              (JObj [(''error'', JStr ''Server is missing Acuity credentials'')]), [])
      else
        case json_parse w (body_text (event_body ev)) of
          Inl e \<Rightarrow> Inl (e, [])
        | Inr booking \<Rightarrow>
           (case missing_fields booking required_fields of
              Inl e \<Rightarrow> Inl (e, [])
            | Inr missing \<Rightarrow>
               if missing \<noteq> [] then
                 Inr (json_response 400 booking_headers
                       (JObj [(''error'', JStr (''Missing fields: '' @ js_join '', '' missing))]), [])
               else
                 (case booking_payload booking of
                    Inl e \<Rightarrow> Inl (e, [])
                  | Inr payload \<Rightarrow>
                     (let (outcome, sent) =
                            do_fetch w [] (booking_request (basic_auth userId apiKey) payload)
                      in case outcome of
                           Rejected e \<Rightarrow> Inl (e, sent)
                         | Received st txt \<Rightarrow>
                             (case booking_result w st txt of
                                Inl e \<Rightarrow> Inl (e, sent)
                              | Inr r \<Rightarrow> Inr (r, sent))))))"

definition internal_error :: "js_error \<Rightarrow> response" where
  "internal_error e =
     json_response 500 booking_headers
       (JObj [(''error'', JStr ''Internal error''), (''message'', JStr (error_message e))])"

definition book_appointment :: "world \<Rightarrow> event \<Rightarrow> response \<times> http_request list" where
  "book_appointment w ev =
     (if httpMethod ev = ''OPTIONS'' then
        (\<lparr>statusCode = 200, headers = booking_headers, resp_body = NoBody\<rparr>, [])
      else if httpMethod ev \<noteq> ''POST'' then
        (\<lparr>statusCode = 405, headers = booking_headers, resp_body = TextBody ''Method Not Allowed''\<rparr>, [])
      else
        (case booking_try w ev of
           Inr r \<Rightarrow> r
         | Inl (e, sent) \<Rightarrow> (internal_error e, sent)))"

subsection \<open>Properties\<close>

text \<open>
  The handler's requests are read off its result's second component; the
  helper lemmas characterise the required-field filter (it throws exactly on
  a nullish body, else it lists the falsy fields in order) and bound the
  statuses the upstream branch can produce.
\<close>

declare book_appointment_def [handler_defs] booking_try_def [handler_defs]
  booking_result_def [handler_defs] do_fetch_def [handler_defs]

abbreviation booking_auth :: "world \<Rightarrow> string" where
  "booking_auth w \<equiv> basic_auth (env_val w ''ACUITY_USER_ID'') (env_val w ''ACUITY_API_KEY'')"

lemma missing_fields_filter:
  "\<not> is_nullish b \<Longrightarrow> missing_fields b ks = Inr (filter (\<lambda>k. \<not> js_truthy (optional_prop b k)) ks)"
  by (induction ks) simp_all

lemma missing_fields_nullish:
  "is_nullish b \<Longrightarrow> missing_fields b (k # ks) = Inl (read_error (js_to_string b) k)"
  by (cases b) auto

lemma booking_payload_not_nullish:
  "\<not> is_nullish b \<Longrightarrow> \<exists>p. booking_payload b = Inr p"
  by (simp add: booking_payload_def)

text \<open>The preflight: an OPTIONS request gets 200 with no body and the CORS headers, and nothing is sent.\<close>

lemma book_appointment_preflight:
  "book_appointment w (ev\<lparr>httpMethod := ''OPTIONS''\<rparr>) =
     (\<lparr>statusCode = 200, headers = booking_headers, resp_body = NoBody\<rparr>, [])"
  by (simp add: handler_defs)

text \<open>C31: a method other than OPTIONS and POST gets 405 'Method Not Allowed' with the booking CORS headers and no request is sent.\<close>

theorem book_appointment_bad_method:
  "m \<noteq> ''OPTIONS'' \<Longrightarrow> m \<noteq> ''POST'' \<Longrightarrow>
   book_appointment w (ev\<lparr>httpMethod := m\<rparr>) =
     (\<lparr>statusCode = 405, headers = booking_headers, resp_body = TextBody ''Method Not Allowed''\<rparr>, [])"
  by (simp add: handler_defs)

text \<open>C24: a POST to the booking handler without both credentials answers 500 'Server is missing Acuity credentials' whatever the body, and sends nothing.\<close>

theorem book_appointment_no_credentials:
  "\<not> has_credentials w ''ACUITY_USER_ID'' ''ACUITY_API_KEY'' \<Longrightarrow>
   book_appointment w (ev\<lparr>httpMethod := ''POST''\<rparr>) =
     (json_response 500 booking_headers (JObj [(''error'', JStr ''Server is missing Acuity credentials'')]), [])"
  by (simp add: handler_defs has_credentials_def)

lemma required_fields_no_separator:
  "set ms \<subseteq> set required_fields \<Longrightarrow> \<forall>x\<in>set ms. \<forall>c\<in>set x. c \<notin> set '', ''"
  by (auto simp: required_fields_def)

text \<open>C3: when the parsed body is an object-like value with at least one falsy required field, the booking handler answers 400 with the message 'Missing fields: ' followed by exactly those fields, in the order checked, joined by ', ', without contacting the upstream; splitting the list at ', ' gives the fields back.\<close>

theorem book_appointment_missing:
  assumes "httpMethod ev = ''POST''" and "has_credentials w ''ACUITY_USER_ID'' ''ACUITY_API_KEY''"
    and "json_parse w (body_text (event_body ev)) = Inr b" and "\<not> is_nullish b"
    and "filter (\<lambda>k. \<not> js_truthy (optional_prop b k)) required_fields = ms" and "ms \<noteq> []"
  shows "book_appointment w ev =
     (json_response 400 booking_headers (JObj [(''error'', JStr (''Missing fields: '' @ js_join '', '' ms))]), [])
   \<and> js_split '', '' (js_join '', '' ms) = ms"
proof
  show "book_appointment w ev =
     (json_response 400 booking_headers (JObj [(''error'', JStr (''Missing fields: '' @ js_join '', '' ms))]), [])"
    using assms
    by (simp add: book_appointment_def booking_try_def has_credentials_def missing_fields_filter)
  have "set ms \<subseteq> set required_fields"
    using assms(5) by auto
  then have "\<forall>x\<in>set ms. \<forall>c\<in>set x. c \<notin> set '', ''"
    by (rule required_fields_no_separator)
  then show "js_split '', '' (js_join '', '' ms) = ms"
    using assms(6) by (intro js_split_js_join) simp_all
qed

theorem book_appointment_forwarded:
  assumes "httpMethod ev = ''POST''" and "has_credentials w ''ACUITY_USER_ID'' ''ACUITY_API_KEY''"
    and "json_parse w (body_text (event_body ev)) = Inr b" and "\<not> is_nullish b"
    and "list_all (\<lambda>k. js_truthy (optional_prop b k)) required_fields"
    and "booking_payload b = Inr p"
    and "r = booking_request (booking_auth w) p"
    and "fetch w 0 r = Received st txt"
  shows "book_appointment w ev =
     (case booking_result w st txt of Inl e \<Rightarrow> internal_error e | Inr resp \<Rightarrow> resp, [r])"
proof -
  have "filter (\<lambda>k. \<not> js_truthy (optional_prop b k)) required_fields = []"
    using assms(5) by (simp add: filter_empty_conv list_all_iff)
  with assms show ?thesis
    by (simp add: book_appointment_def booking_try_def do_fetch_def has_credentials_def
        missing_fields_filter split: sum.split)
qed

lemma missing_fields_Inr_iff:
  "missing_fields b ks = Inr ms \<longleftrightarrow>
     (\<not> is_nullish b \<or> ks = []) \<and> ms = filter (\<lambda>k. \<not> js_truthy (optional_prop b k)) ks"
  by (cases "is_nullish b"; cases ks)
    (auto simp del: missing_fields.simps simp: missing_fields.simps(1) missing_fields_filter
      missing_fields_nullish)

lemma required_fields_ne: "required_fields \<noteq> []"
  by (simp add: required_fields_def)

lemma missing_required_Inr_iff [simp]:
  "missing_fields b required_fields = Inr ms \<longleftrightarrow>
     \<not> is_nullish b \<and> ms = filter (\<lambda>k. \<not> js_truthy (optional_prop b k)) required_fields"
  by (simp add: missing_fields_Inr_iff required_fields_ne)

lemma no_missing_iff:
  "filter (\<lambda>k. \<not> js_truthy (optional_prop b k)) ks = [] \<longleftrightarrow> list_all (\<lambda>k. js_truthy (optional_prop b k)) ks"
  by (simp add: filter_empty_conv list_all_iff)

lemma booking_result_status:
  "booking_result w st txt = Inr r \<Longrightarrow> statusCode r = 200 \<or> (\<not> resp_ok st \<and> statusCode r = st)"
  by (auto simp: booking_result_def json_response_def Let_def bindE_eq_Inr_iff split: if_splits)

lemma booking_try_sent:
  assumes "booking_try w ev = Inl (e, rs) \<or> booking_try w ev = Inr (r, rs)" and "rs \<noteq> []"
  shows "has_credentials w ''ACUITY_USER_ID'' ''ACUITY_API_KEY'' \<and>
    (\<exists>b p. json_parse w (body_text (event_body ev)) = Inr b \<and> \<not> is_nullish b \<and>
       list_all (\<lambda>k. js_truthy (optional_prop b k)) required_fields \<and>
       booking_payload b = Inr p \<and> rs = [booking_request (booking_auth w) p])"
  using assms
  by (auto simp: booking_try_def do_fetch_def has_credentials_def Let_def no_missing_iff
      split: if_splits sum.splits prod.splits fetch_outcome.splits)

lemma book_appointment_log:
  assumes "snd (book_appointment w ev) \<noteq> []"
  shows "httpMethod ev = ''POST'' \<and>
    ((\<exists>e. booking_try w ev = Inl (e, snd (book_appointment w ev))) \<or>
     (\<exists>r. booking_try w ev = Inr (r, snd (book_appointment w ev))))"
  using assms by (auto simp: book_appointment_def split: if_splits sum.splits prod.splits)

text \<open>C1: the booking handler sends an outbound request only for a POST with both credentials set, a body that parses to a non-nullish value whose five required fields are all truthy; it then sends exactly one request, the appointments POST with the Basic authorization header and the payload built from the body.\<close>

theorem book_appointment_request_validated:
  assumes "snd (book_appointment w ev) \<noteq> []"
  shows "httpMethod ev = ''POST'' \<and> has_credentials w ''ACUITY_USER_ID'' ''ACUITY_API_KEY'' \<and>
    (\<exists>b p. json_parse w (body_text (event_body ev)) = Inr b \<and> \<not> is_nullish b \<and>
       list_all (\<lambda>k. js_truthy (optional_prop b k)) required_fields \<and>
       booking_payload b = Inr p \<and>
       snd (book_appointment w ev) = [booking_request (booking_auth w) p])"
  using assms book_appointment_log [OF assms]
  by (auto dest!: booking_try_sent [OF disjI1] booking_try_sent [OF disjI2])

text \<open>C9: every request the booking handler sends carries an Authorization header which, read as HTTP Basic credentials (strip 'Basic ', base64-decode, UTF-8-decode, split at the first colon), gives back exactly ACUITY_USER_ID and ACUITY_API_KEY, provided the user id contains no colon.\<close>

theorem book_appointment_credentials:
  assumes "env w ''ACUITY_USER_ID'' = Some u" and "env w ''ACUITY_API_KEY'' = Some k"
    and "CHR '':'' \<notin> set u" and "r \<in> set (snd (book_appointment w ev))"
  shows "\<exists>h. map_of (req_headers r) ''Authorization'' = Some h \<and> parse_basic h = Some (u, k)"
proof -
  have ne: "snd (book_appointment w ev) \<noteq> []"
    using assms(4) by auto
  obtain p where "snd (book_appointment w ev) = [booking_request (booking_auth w) p]"
    using ne book_appointment_log [OF ne]
    by (auto dest!: booking_try_sent [OF disjI1] booking_try_sent [OF disjI2])
  then show ?thesis
    using assms(1-4) parse_basic_auth [of u k]
    by (simp add: booking_request_def env_val_def opt_str_def)
qed

lemma booking_try_status:
  assumes "booking_try w ev = Inr (r, rs)"
  shows "statusCode r \<in> {200, 400, 500} \<or>
    (\<exists>q st txt. rs = [q] \<and> fetch w 0 q = Received st txt \<and> \<not> resp_ok st \<and> statusCode r = st)"
  using assms
  by (auto simp: booking_try_def do_fetch_def Let_def json_response_def
      dest!: booking_result_status split: if_splits sum.splits prod.splits fetch_outcome.splits)

text \<open>C29: the booking handler's status is 200, 400, 405 or 500, or else it is the non-2xx status the upstream gave to the one request the handler sent.\<close>

theorem book_appointment_status:
  "statusCode (fst (book_appointment w ev)) \<in> {200, 400, 405, 500} \<or>
   (\<exists>q st txt. snd (book_appointment w ev) = [q] \<and> fetch w 0 q = Received st txt \<and>
      \<not> resp_ok st \<and> statusCode (fst (book_appointment w ev)) = st)"
proof (cases "booking_try w ev")
  case (Inl x)
  then show ?thesis
    by (cases x) (simp add: book_appointment_def internal_error_def json_response_def)
next
  case (Inr x)
  then show ?thesis
    by (cases x) (auto simp: book_appointment_def dest!: booking_try_status)
qed

text \<open>C5: when the upstream answers the booking request with a 2xx status and a body that parses to data, the handler answers 200 with success true, appointmentId the id of data (undefined when absent) and data itself.\<close>

theorem book_appointment_success:
  assumes "httpMethod ev = ''POST''" and "has_credentials w ''ACUITY_USER_ID'' ''ACUITY_API_KEY''"
    and "json_parse w (body_text (event_body ev)) = Inr b" and "\<not> is_nullish b"
    and "list_all (\<lambda>k. js_truthy (optional_prop b k)) required_fields"
    and "booking_payload b = Inr p" and "r = booking_request (booking_auth w) p"
    and "fetch w 0 r = Received st (Some t)" and "resp_ok st" and "json_parse w t = Inr data"
  shows "book_appointment w ev =
     (json_response 200 booking_headers
        (JObj [(''success'', JBool True), (''appointmentId'', optional_prop data ''id''), (''data'', data)]),
      [r])"
  using book_appointment_forwarded [OF assms(1-8)] assms(9,10)
  by (simp add: booking_result_def resp_json_def)

text \<open>C6: when the upstream answers the booking request with a non-2xx status, the handler answers with that status and the body error 'Booking failed', message the upstream body text or, when it is empty or unreadable, the status in decimal.\<close>

theorem book_appointment_upstream_failure:
  assumes "httpMethod ev = ''POST''" and "has_credentials w ''ACUITY_USER_ID'' ''ACUITY_API_KEY''"
    and "json_parse w (body_text (event_body ev)) = Inr b" and "\<not> is_nullish b"
    and "list_all (\<lambda>k. js_truthy (optional_prop b k)) required_fields"
    and "booking_payload b = Inr p" and "r = booking_request (booking_auth w) p"
    and "fetch w 0 r = Received st txt" and "\<not> resp_ok st"
  shows "book_appointment w ev =
     (json_response st booking_headers
        (JObj [(''error'', JStr ''Booking failed''),
               (''message'', JStr (if resp_text txt \<noteq> [] then resp_text txt else int_to_dec st))]),
      [r])"
  using book_appointment_forwarded [OF assms(1-8)] assms(9)
  by (simp add: booking_result_def)

text \<open>C35: a POST whose body parses to null (with credentials set) makes the first property read throw a TypeError, so the handler answers 500 'Internal error' with that message and sends nothing.\<close>

theorem book_appointment_null_body:
  assumes "httpMethod ev = ''POST''" and "has_credentials w ''ACUITY_USER_ID'' ''ACUITY_API_KEY''"
    and "json_parse w (body_text (event_body ev)) = Inr JNull"
  shows "book_appointment w ev = (internal_error (read_error ''null'' ''appointmentTypeID''), [])"
  using assms
  by (simp add: book_appointment_def booking_try_def has_credentials_def required_fields_def)

text \<open>C36: a POST whose body JSON.parse rejects (with credentials set) answers 500 'Internal error' with the parser's message and sends nothing.\<close>

theorem book_appointment_parse_error:
  assumes "httpMethod ev = ''POST''" and "has_credentials w ''ACUITY_USER_ID'' ''ACUITY_API_KEY''"
    and "json_parse w (body_text (event_body ev)) = Inl e"
  shows "book_appointment w ev = (internal_error e, [])"
  using assms by (simp add: book_appointment_def booking_try_def has_credentials_def)

text \<open>C37: every response of the booking handler, on every path (preflight, 405, missing credentials, 400, upstream failure, success, internal error), carries exactly the booking CORS headers.\<close>

theorem book_appointment_cors:
  "headers (fst (book_appointment w ev)) = booking_headers"
  by (auto simp: book_appointment_def booking_try_def booking_result_def internal_error_def json_response_def
      do_fetch_def Let_def bindE_eq_Inr_iff split: sum.splits prod.splits fetch_outcome.splits if_splits)

text \<open>C39: the model of requiredFields.filter(k => !booking[k]), an error-threading loop over the fields, equals the reference semantics: the falsy fields in order when the body is an object-like value, and the TypeError of reading the first field when it is null or undefined.\<close>

theorem missing_fields_js_filter:
  "missing_fields b ks =
     (if is_nullish b \<and> ks \<noteq> [] then Inl (read_error (js_to_string b) (hd ks))
      else Inr (filter (\<lambda>k. \<not> js_truthy (optional_prop b k)) ks))"
  by (cases ks) (simp, auto simp: missing_fields_filter missing_fields_nullish simp del: missing_fields.simps)

lemma js_or_defined: "b \<noteq> JUndefined \<Longrightarrow> js_or a b \<noteq> JUndefined"
  by (auto simp: js_or_def)

lemma booking_payload_fields:
  assumes "booking_payload b = Inr p" and "\<not> is_nullish b"
    and "list_all (\<lambda>k. js_truthy (optional_prop b k)) required_fields"
  shows "\<exists>kvs. p = JObj kvs \<and>
    map fst kvs = [''appointmentTypeID'', ''datetime'', ''firstName'', ''lastName'', ''email'', ''phone'', ''notes''] \<and>
    (\<forall>(k, v) \<in> set kvs. v \<noteq> JUndefined)"
  using assms by (auto simp: booking_payload_def required_fields_def js_or_defined)

lemma payload_keys_plain:
  "distinct [''appointmentTypeID'', ''datetime'', ''firstName'', ''lastName'', ''email'', ''phone'', ''notes''] \<and>
   (\<forall>k \<in> set [''appointmentTypeID'', ''datetime'', ''firstName'', ''lastName'', ''email'', ''phone'', ''notes''].
      \<not> is_array_key k)"
  by code_simp

lemma book_appointment_sent_payload:
  assumes "snd (book_appointment w ev) \<noteq> []"
  shows "\<exists>b p. \<not> is_nullish b \<and> list_all (\<lambda>k. js_truthy (optional_prop b k)) required_fields \<and>
    booking_payload b = Inr p \<and> snd (book_appointment w ev) = [booking_request (booking_auth w) p]"
proof -
  have "(\<exists>e. booking_try w ev = Inl (e, snd (book_appointment w ev))) \<or>
        (\<exists>r. booking_try w ev = Inr (r, snd (book_appointment w ev)))"
    using book_appointment_log [OF assms] by blast
  then show ?thesis
  proof (elim disjE exE)
    fix e
    assume "booking_try w ev = Inl (e, snd (book_appointment w ev))"
    then show ?thesis
      using booking_try_sent [OF disjI1, of w ev e] assms by blast
  next
    fix r
    assume "booking_try w ev = Inr (r, snd (book_appointment w ev))"
    then show ?thesis
      using booking_try_sent [OF disjI2, of w ev r] assms by blast
  qed
qed

text \<open>C11: every request the booking handler sends upstream carries a body which JSON.stringify prints and which reads back as an object with exactly the fields appointmentTypeID, datetime, firstName, lastName, email, phone and notes, in this order: no field is dropped as undefined, because the five required ones are truthy and phone and notes default to the empty string.\<close>

theorem book_appointment_payload_wire:
  assumes "r \<in> set (snd (book_appointment w ev))"
  shows "\<exists>p t kvs. req_body r = Some p \<and> json_stringify p = Some t \<and> json_decode t = Some (JObj kvs) \<and>
    map fst kvs = [''appointmentTypeID'', ''datetime'', ''firstName'', ''lastName'', ''email'', ''phone'', ''notes'']"
proof -
  have ne: "snd (book_appointment w ev) \<noteq> []"
    using assms by auto
  obtain b p where b: "\<not> is_nullish b" "list_all (\<lambda>k. js_truthy (optional_prop b k)) required_fields"
      "booking_payload b = Inr p" and log: "snd (book_appointment w ev) = [booking_request (booking_auth w) p]"
    using book_appointment_sent_payload [OF ne] by blast
  obtain kvs where p: "p = JObj kvs" and keys: "map fst kvs =
      [''appointmentTypeID'', ''datetime'', ''firstName'', ''lastName'', ''email'', ''phone'', ''notes'']"
      and def: "\<forall>(k, v) \<in> set kvs. v \<noteq> JUndefined"
    using booking_payload_fields [OF b(3,1,2)] by (elim exE conjE) (rule that)
  have r: "req_body r = Some p"
    using assms log by (simp add: booking_request_def)
  have "distinct (map fst kvs)" and "\<forall>k \<in> set (map fst kvs). \<not> is_array_key k"
    unfolding keys using payload_keys_plain by blast+
  then have "\<exists>t kvs'. json_stringify (JObj kvs) = Some t \<and> json_decode t = Some (JObj kvs') \<and> map fst kvs' = map fst kvs"
    using def by (rule json_plain_object_keys)
  then show ?thesis
    unfolding keys [symmetric] using r p by blast
qed

lemma success_keys_plain:
  "distinct [''success'', ''appointmentId'', ''data''] \<and>
   (\<forall>k \<in> set [''success'', ''appointmentId'', ''data'']. \<not> is_array_key k)"
  by code_simp

text \<open>C12: on a 2xx upstream answer whose body parses to data, the booking handler's 200 body, printed by JSON.stringify and read back, is the object with success true, then appointmentId only when data.id is defined, then data only when data is defined: an absent id leaves the key out of the text.\<close>

theorem booking_result_success_body:
  assumes "resp_ok st" and "resp_json w txt = Inr data"
  shows "\<exists>r t. booking_result w st txt = Inr r \<and> wire_body (resp_body r) = Some t \<and>
    json_decode t = Some (JObj ([(''success'', JBool True)] @
       (if optional_prop data ''id'' = JUndefined then [] else [(''appointmentId'', json_norm (optional_prop data ''id''))]) @
       (if data = JUndefined then [] else [(''data'', json_norm data)])))"
proof -
  let ?kvs = "[(''success'', JBool True), (''appointmentId'', optional_prop data ''id''), (''data'', data)]"
  have r: "booking_result w st txt = Inr (json_response 200 booking_headers (JObj ?kvs))"
    using assms by (simp add: booking_result_def)
  have "json_norm (JObj ?kvs) = JObj (concat (map (\<lambda>(k, v). if v = JUndefined then [] else [(k, json_norm v)]) ?kvs))"
    using success_keys_plain by (intro json_norm_plain) simp_all
  moreover obtain t where t: "json_stringify (JObj ?kvs) = Some t"
    using json_stringify_None [of "JObj ?kvs"] by (cases "json_stringify (JObj ?kvs)") auto
  ultimately show ?thesis
    using r json_decode_stringify [OF t]
    by (simp add: wire_body_def json_response_def del: json_norm.simps(2) json_stringify.simps)
qed

lemma book_appointment_object_body:
  "httpMethod ev = ''POST'' \<Longrightarrow> \<exists>kvs. resp_body (fst (book_appointment w ev)) = JsonBody (JObj kvs)"
  by (auto simp: book_appointment_def booking_try_def booking_result_def internal_error_def json_response_def
      do_fetch_def Let_def bindE_eq_Inr_iff split: sum.splits prod.splits fetch_outcome.splits if_splits)

text \<open>C13: every answer of the booking handler to a POST has a body, and that body is a JSON text that reads back as an object, on every path: missing credentials, missing fields, upstream failure, success and the catch block.\<close>

theorem book_appointment_body_json:
  assumes "httpMethod ev = ''POST''"
  shows "\<exists>t kvs. wire_body (resp_body (fst (book_appointment w ev))) = Some t \<and> json_decode t = Some (JObj kvs)"
  using book_appointment_object_body [OF assms] wire_body_object by metis

text \<open>C18: with the runtime's JSON.parse, a POST whose body is non-empty white space only is not treated as an empty object: event.body || "{}" keeps it, JSON.parse throws a SyntaxError and the handler answers 500 'Internal error' without contacting the upstream, where an empty body gets the 400 listing the missing fields.\<close>

theorem book_appointment_blank_body:
  assumes "httpMethod ev = ''POST''" and "has_credentials w ''ACUITY_USER_ID'' ''ACUITY_API_KEY''"
    and "json_parse w = json_parse_text" and "event_body ev = Some s" and "s \<noteq> []" and "\<forall>c \<in> set s. is_ws c"
  shows "book_appointment w ev = (internal_error (SyntaxError ''Unexpected token in JSON''), [])"
  using assms json_parse_text_blank [OF assms(6)]
  by (simp add: book_appointment_def booking_try_def has_credentials_def body_text_def)

lemma book_appointment_sends:
  assumes "httpMethod ev = ''POST''" and "has_credentials w ''ACUITY_USER_ID'' ''ACUITY_API_KEY''"
    and "json_parse w (body_text (event_body ev)) = Inr b" and "\<not> is_nullish b"
    and "list_all (\<lambda>k. js_truthy (optional_prop b k)) required_fields"
  shows "snd (book_appointment w ev) \<noteq> []"
proof -
  obtain p where p: "booking_payload b = Inr p"
    using booking_payload_not_nullish [OF assms(4)] by blast
  have "filter (\<lambda>k. \<not> js_truthy (optional_prop b k)) required_fields = []"
    using assms(5) by (simp add: no_missing_iff)
  with assms p show ?thesis
    by (simp add: book_appointment_def booking_try_def do_fetch_def has_credentials_def
        missing_fields_filter Let_def split: fetch_outcome.split sum.split)
qed

text \<open>C17: with the runtime's JSON.parse, a client that posts JSON.stringify(b) has its booking forwarded upstream exactly when the value it reads back (b without its undefined properties) is an object-like value whose five required fields are truthy: printing in the browser and parsing in the handler compose to the check on b itself.\<close>

theorem book_appointment_client_roundtrip:
  assumes "httpMethod ev = ''POST''" and "has_credentials w ''ACUITY_USER_ID'' ''ACUITY_API_KEY''"
    and "json_parse w = json_parse_text" and "json_stringify b = Some t" and "event_body ev = Some t"
  shows "snd (book_appointment w ev) \<noteq> [] \<longleftrightarrow>
    \<not> is_nullish (json_norm b) \<and> list_all (\<lambda>k. js_truthy (optional_prop (json_norm b) k)) required_fields"
proof -
  have parse: "json_parse w (body_text (event_body ev)) = Inr (json_norm b)"
    using assms(3-5) json_parse_text_stringify [OF assms(4)] json_stringify_nonempty [OF assms(4)]
    by (simp add: body_text_def)
  show ?thesis
  proof
    assume "snd (book_appointment w ev) \<noteq> []"
    then obtain b' p where "\<not> is_nullish b'" "list_all (\<lambda>k. js_truthy (optional_prop b' k)) required_fields"
        "json_parse w (body_text (event_body ev)) = Inr b'"
      using book_appointment_sent_payload booking_try_sent [OF disjI1] booking_try_sent [OF disjI2]
        book_appointment_log by metis
    then show "\<not> is_nullish (json_norm b) \<and> list_all (\<lambda>k. js_truthy (optional_prop (json_norm b) k)) required_fields"
      using parse by simp
  next
    assume "\<not> is_nullish (json_norm b) \<and> list_all (\<lambda>k. js_truthy (optional_prop (json_norm b) k)) required_fields"
    then show "snd (book_appointment w ev) \<noteq> []"
      using book_appointment_sends [OF assms(1,2) parse] by blast
  qed
qed

lemma get_prop_Inl: "get_prop b k = Inl e \<Longrightarrow> \<exists>what. e = read_error what k"
  by (cases b) auto

lemma missing_fields_Inl: "missing_fields b ks = Inl e \<Longrightarrow> \<exists>what k. e = read_error what k"
proof (induction ks)
  case (Cons k ks)
  show ?case
  proof (cases "get_prop b k")
    case (Inl e')
    then have "e = e'"
      using Cons.prems by simp
    then show ?thesis
      using get_prop_Inl [OF Inl] by blast
  next
    case (Inr v)
    then show ?thesis
      using Cons by (cases "missing_fields b ks") auto
  qed
qed simp

lemma book_appointment_parsed:
  assumes "httpMethod ev = ''POST''" and "has_credentials w ''ACUITY_USER_ID'' ''ACUITY_API_KEY''"
    and "json_parse w (body_text (event_body ev)) = Inr b"
  shows "book_appointment w ev \<noteq> (internal_error (SyntaxError ''Unexpected token in JSON''), [])"
proof
  assume eq: "book_appointment w ev = (internal_error (SyntaxError ''Unexpected token in JSON''), [])"
  consider (err) e where "missing_fields b required_fields = Inl e"
    | (miss) ms where "missing_fields b required_fields = Inr ms" "ms \<noteq> []"
    | (none) "missing_fields b required_fields = Inr []"
    by (cases "missing_fields b required_fields") auto
  then show False
  proof cases
    case err
    then obtain what k where "e = read_error what k"
      using missing_fields_Inl by blast
    moreover have "book_appointment w ev = (internal_error e, [])"
      using assms err by (simp add: book_appointment_def booking_try_def has_credentials_def)
    ultimately show False
      using eq by (simp add: internal_error_def json_response_def read_error_def)
  next
    case miss
    then have "statusCode (fst (book_appointment w ev)) = 400"
      using assms by (simp add: book_appointment_def booking_try_def has_credentials_def json_response_def
          del: missing_required_Inr_iff)
    with eq show False
      by (simp add: internal_error_def json_response_def)
  next
    case none
    then have "\<not> is_nullish b" "filter (\<lambda>k. \<not> js_truthy (optional_prop b k)) required_fields = []"
      by (metis missing_required_Inr_iff)+
    then have "\<not> is_nullish b" "list_all (\<lambda>k. js_truthy (optional_prop b k)) required_fields"
      using no_missing_iff by blast+
    then have "snd (book_appointment w ev) \<noteq> []"
      using book_appointment_sends [OF assms] by blast
    with eq show False
      by simp
  qed
qed

text \<open>C33: the booking handler's JSON.parse never fails for lack of fuel: for a POST with credentials and the runtime's parser, the handler answers the 500 with the SyntaxError and sends nothing exactly when no amount of fuel reads the body as a JSON value followed only by white space.\<close>

theorem book_appointment_parse_total:
  assumes "httpMethod ev = ''POST''" and "has_credentials w ''ACUITY_USER_ID'' ''ACUITY_API_KEY''"
    and "json_parse w = json_parse_text"
  shows "book_appointment w ev = (internal_error (SyntaxError ''Unexpected token in JSON''), []) \<longleftrightarrow>
    \<not> (\<exists>n v r. jvalue n (body_text (event_body ev)) = Some (v, r) \<and> skip_ws r = [])"
proof
  assume eq: "book_appointment w ev = (internal_error (SyntaxError ''Unexpected token in JSON''), [])"
  show "\<not> (\<exists>n v r. jvalue n (body_text (event_body ev)) = Some (v, r) \<and> skip_ws r = [])"
  proof
    assume "\<exists>n v r. jvalue n (body_text (event_body ev)) = Some (v, r) \<and> skip_ws r = []"
    then obtain v where "json_parse w (body_text (event_body ev)) = Inr v"
      using json_parse_text_complete assms(3) by metis
    with eq show False
      using book_appointment_parsed [OF assms(1,2)] by blast
  qed
next
  assume none: "\<not> (\<exists>n v r. jvalue n (body_text (event_body ev)) = Some (v, r) \<and> skip_ws r = [])"
  have "json_parse w (body_text (event_body ev)) = Inl (SyntaxError ''Unexpected token in JSON'')"
  proof (cases "json_parse_text (body_text (event_body ev))")
    case (Inl e)
    then show ?thesis
      using assms(3) by (simp add: json_parse_text_def split: option.splits)
  next
    case (Inr v)
    then show ?thesis
      using none json_parse_text_complete by blast
  qed
  then show "book_appointment w ev = (internal_error (SyntaxError ''Unexpected token in JSON''), [])"
    using assms(1,2) by (simp add: book_appointment_def booking_try_def has_credentials_def)
qed

end
