(* ===== verification/DateTime.thy ===== *)
theory DateTime
  imports JsValue
begin

text \<open>
  The part of the JavaScript \<^verbatim>\<open>Date\<close> object the availability handler uses:
  time values (milliseconds since the epoch, \<^verbatim>\<open>NaN\<close> as \<open>None\<close>),
  \<^verbatim>\<open>TimeClip\<close>, the proleptic Gregorian calendar of \<^verbatim>\<open>MakeDay\<close>,
  \<^verbatim>\<open>YearFromTime\<close> and \<^verbatim>\<open>MonthFromTime\<close>, \<^verbatim>\<open>toISOString\<close>, the
  constructor \<^verbatim>\<open>new Date(y, m, d)\<close> with its reading of the years 0 to 99
  as 1900 + y (\<^verbatim>\<open>MakeFullYear\<close>, \<open>full_year\<close>), and local
  time as UTC plus a fixed offset (the zone's \<^verbatim>\<open>LocalTZA\<close>; daylight saving
  changes are not modelled). Day numbers and calendar dates are converted by
  the era-based formulas of the proleptic Gregorian calendar (400-year eras
  of 146097 days), with HOL's \<open>div\<close> and \<open>mod\<close> rounding down as the
  specification's \<open>floor\<close> does. The second half states the calendar
  itself (leap years, month lengths, valid dates) and proves the formulas
  a bijection onto it, then the lemmas on the printed ISO text.
\<close>

definition ms_per_day :: int where
  "ms_per_day = 86400000"

definition max_time_value :: int where
  "max_time_value = 8640000000000000"

text \<open>The day number (days since 1970-01-01) of year \<open>y\<close>, month \<open>m\<close> (1 to 12), day \<open>d\<close>.\<close>

definition days_from_civil :: "int \<Rightarrow> int \<Rightarrow> int \<Rightarrow> int" where
  "days_from_civil y m d =
     (let y' = (if m \<le> 2 then y - 1 else y);
          era = y' div 400; yoe = y' - era * 400;
          mp = (if 2 < m then m - 3 else m + 9);
          doy = (153 * mp + 2) div 5 + d - 1;
          doe = yoe * 365 + yoe div 4 - yoe div 100 + doy
      in era * 146097 + doe - 719468)"

text \<open>The calendar date (year, month 1 to 12, day) of a day number.\<close>

definition civil_from_days :: "int \<Rightarrow> int \<times> int \<times> int" where
  "civil_from_days z =
     (let z' = z + 719468; era = z' div 146097; doe = z' - era * 146097;
          yoe = (doe - doe div 1460 + doe div 36524 - doe div 146096) div 365;
          doy = doe - (365 * yoe + yoe div 4 - yoe div 100);
          mp = (5 * doy + 2) div 153;
          d = doy - (153 * mp + 2) div 5 + 1;
          m = (if mp < 10 then mp + 3 else mp - 9);
          y = yoe + era * 400
      in (if m \<le> 2 then y + 1 else y, m, d))"

text \<open>
  \<^verbatim>\<open>MakeDay(year, month, date)\<close>: the month is 0-based and may lie outside
  0 to 11, in which case it carries into the year.
\<close>

definition make_day :: "int \<Rightarrow> int \<Rightarrow> int \<Rightarrow> int" where
  "make_day y m dt = days_from_civil (y + m div 12) (m mod 12 + 1) 1 + dt - 1"

text \<open>\<^verbatim>\<open>YearFromTime(t)\<close> and \<^verbatim>\<open>MonthFromTime(t)\<close> (0-based).\<close>

definition year_month_of :: "time_ms \<Rightarrow> int \<times> int" where
  "year_month_of t = (case civil_from_days (t div ms_per_day) of (y, m, d) \<Rightarrow> (y, m - 1))"

definition time_clip :: "int \<Rightarrow> time_ms option" where
  "time_clip t = (if \<bar>t\<bar> \<le> max_time_value then Some t else None)"

text \<open>A non-negative integer in decimal, left-padded with zeros to width \<open>w\<close>.\<close>

definition pad_int :: "nat \<Rightarrow> int \<Rightarrow> string" where
  "pad_int w n = (let s = nat_to_dec (nat n) in replicate (w - length s) (CHR ''0'') @ s)"

definition iso_year :: "int \<Rightarrow> string" where
  "iso_year y =
     (if 0 \<le> y \<and> y \<le> 9999 then pad_int 4 y
      else (if y < 0 then CHR ''-'' else CHR ''+'') # pad_int 6 \<bar>y\<bar>)"

text \<open>\<^verbatim>\<open>Date.prototype.toISOString\<close>: a \<^verbatim>\<open>RangeError\<close> on an invalid date.\<close>

definition to_iso_string :: "time_ms option \<Rightarrow> js_error + string" where
  "to_iso_string tv =
     (case tv of
        None \<Rightarrow> Inl (RangeError ''Invalid time value'')
      | Some t \<Rightarrow>
          (case civil_from_days (t div ms_per_day) of (y, mo, d) \<Rightarrow>
             let ms = t mod ms_per_day in
             Inr (iso_year y @ ''-'' @ pad_int 2 mo @ ''-'' @ pad_int 2 d @ ''T'' @
                  pad_int 2 (ms div 3600000) @ '':'' @ pad_int 2 (ms div 60000 mod 60) @ '':'' @
                  pad_int 2 (ms div 1000 mod 60) @ ''.'' @ pad_int 3 (ms mod 1000) @ ''Z'')))"

text \<open>
  The year argument of the \<^verbatim>\<open>Date\<close> constructor (ECMAScript
  \<^verbatim>\<open>MakeFullYear\<close>): an integer year from 0 to 99 is read as 1900 + y.
\<close>

abbreviation full_year :: "int \<Rightarrow> int" where
  "full_year y \<equiv> (if 0 \<le> y \<and> y \<le> 99 then 1900 + y else y)"

text \<open>
  \<^verbatim>\<open>new Date(y, m, d)\<close> read in a zone \<open>tz\<close> milliseconds ahead of UTC:
  \<^verbatim>\<open>TimeClip(UTC(MakeDate(MakeDay(MakeFullYear(y), m, d), 0)))\<close>.
\<close>

definition local_date :: "int \<Rightarrow> int \<Rightarrow> int \<Rightarrow> int \<Rightarrow> time_ms option" where
  "local_date tz y m d = time_clip (make_day (full_year y) m d * ms_per_day - tz)"

text \<open>\<^verbatim>\<open>getFullYear()\<close> and \<^verbatim>\<open>getMonth()\<close>: year and month of the local time.\<close>

definition local_year_month :: "int \<Rightarrow> time_ms \<Rightarrow> int \<times> int" where
  "local_year_month tz t = year_month_of (t + tz)"


subsection \<open>The calendar the formulas implement\<close>

text \<open>
  The proleptic Gregorian calendar as the specification states it
  (\<^verbatim>\<open>InLeapYear\<close>, \<^verbatim>\<open>DaysInMonth\<close>), against which the era formulas are
  checked, and the number of days of a 400-year era before its year \<open>y\<close>
  (0 to 400), counted from 1 March of the era's first year.
\<close>

definition era_days_before :: "int \<Rightarrow> int" where
  "era_days_before y = 365 * y + y div 4 - y div 100 + y div 400"

definition is_leap_year :: "int \<Rightarrow> bool" where
  "is_leap_year y \<longleftrightarrow> y mod 4 = 0 \<and> (y mod 100 \<noteq> 0 \<or> y mod 400 = 0)"

definition days_in_month :: "int \<Rightarrow> int \<Rightarrow> int" where
  "days_in_month y m =
     (if m = 2 then (if is_leap_year y then 29 else 28)
      else if m = 4 \<or> m = 6 \<or> m = 9 \<or> m = 11 then 30 else 31)"

definition valid_date :: "int \<Rightarrow> int \<Rightarrow> int \<Rightarrow> bool" where
  "valid_date y m d \<longleftrightarrow> 1 \<le> m \<and> m \<le> 12 \<and> 1 \<le> d \<and> d \<le> days_in_month y m"

text \<open>
  The month after year \<open>y\<close>, month \<open>m\<close> (1 to 12), and the text
  \<^verbatim>\<open>YYYY-MM\<close> that \<^verbatim>\<open>toISOString().slice(0, 7)\<close> gives for a day of it.
\<close>

definition next_month :: "int \<times> int \<Rightarrow> int \<times> int" where
  "next_month ym = (case ym of (y, m) \<Rightarrow> if m = 12 then (y + 1, 1) else (y, m + 1))"

definition month_token :: "int \<times> int \<Rightarrow> string" where
  "month_token ym = (case ym of (y, m) \<Rightarrow> iso_year y @ ''-'' @ pad_int 2 m)"

subsection \<open>Calendar lemmas\<close>

text \<open>
  The era formulas against the calendar: \<open>civil_from_days\<close> and
  \<open>days_from_civil\<close> are inverse bijections between day numbers and valid
  dates. The proof splits a day of an era into its year of the era and its
  day of that year (a year of 365 days, or 366 in a leap year), recovers the
  year by the formula's corrections for every fourth, hundredth and
  four-hundredth year, and the month and day by the 153-day five-month cycle.
\<close>

lemma succ_div:
  fixes a b :: int
  assumes "1 < b"
  shows "(a + 1) div b = a div b + (if a mod b = b - 1 then 1 else 0)"
proof -
  have "(a mod b + 1) div b = (if a mod b = b - 1 then 1 else 0)"
  proof (cases "a mod b = b - 1")
    case True
    then show ?thesis using assms by simp
  next
    case False
    moreover have "a mod b < b - 1 \<or> a mod b = b - 1"
      using pos_mod_bound [of b a] assms by linarith
    ultimately show ?thesis
      using assms by (simp add: div_pos_pos_trivial)
  qed
  then show ?thesis
    using div_add1_eq [of a 1 b] assms by simp
qed

lemma succ_mod_zero:
  fixes a b :: int
  assumes "0 < b"
  shows "(a + 1) mod b = 0 \<longleftrightarrow> a mod b = b - 1"
proof (cases "a mod b = b - 1")
  case True
  then show ?thesis
    using assms mod_add_left_eq [of a b 1] by simp
next
  case False
  moreover have "a mod b < b - 1 \<or> a mod b = b - 1"
    using pos_mod_bound [of b a] assms by linarith
  ultimately have "(a mod b + 1) mod b = a mod b + 1"
    using assms pos_mod_sign [of b a] by (intro mod_pos_pos_trivial) linarith+
  then show ?thesis
    using False assms mod_add_left_eq [of a b 1] pos_mod_sign [of b a] by linarith
qed

lemma step_split:
  fixes f :: "nat \<Rightarrow> int"
  assumes "f 0 \<le> n" "n < f N"
  shows "\<exists>k<N. f k \<le> n \<and> n < f (Suc k)"
  using assms(2)
proof (induction N)
  case 0
  then show ?case using assms(1) by simp
next
  case (Suc N)
  then show ?case
    by (cases "n < f N") (auto intro: less_SucI)
qed

lemma era_year_of_day:
  fixes yoe doy :: int
  assumes yb: "0 \<le> yoe" "yoe < 400" and db: "0 \<le> doy" "doy \<le> 365"
    and leap: "doy = 365 \<Longrightarrow> yoe mod 4 = 3 \<and> (yoe mod 100 \<noteq> 99 \<or> yoe = 399)"
  defines "doe \<equiv> yoe * 365 + yoe div 4 - yoe div 100 + doy"
  shows "(doe - doe div 1460 + doe div 36524 - doe div 146096) div 365 = yoe"
proof -
  define c where "c = yoe div 100"
  define q where "q = (yoe mod 100) div 4"
  define r where "r = yoe mod 4"
  have m4: "yoe mod 100 mod 4 = r"
    unfolding r_def by (rule mod_mod_cancel) simp
  have m100: "yoe mod 100 = 4 * q + r"
    using div_mult_mod_eq [of "yoe mod 100" 4] m4 unfolding q_def by linarith
  have yoe: "yoe = 100 * c + 4 * q + r"
    using div_mult_mod_eq [of yoe 100] m100 unfolding c_def by linarith
  have c: "0 \<le> c" "c \<le> 3"
    using yb unfolding c_def by simp_all
  have q: "0 \<le> q" "q \<le> 24"
    unfolding q_def by simp_all
  have r: "0 \<le> r" "r \<le> 3"
    unfolding r_def by simp_all
  have lp: "doy = 365 \<Longrightarrow> r = 3 \<and> (q < 24 \<or> c = 3)"
    using leap m100 yoe q unfolding r_def [symmetric] by fastforce
  have d4: "yoe div 4 = 25 * c + q"
    by (rule int_div_pos_eq [where r = r]) (use yoe r in simp_all)
  have doe: "doe = 36524 * c + 1461 * q + 365 * r + doy"
    using d4 yoe unfolding doe_def c_def by simp
  show ?thesis
  proof (cases "doy = 365 \<and> c = 3 \<and> q = 24")
    case True
    with lp have "doe = 146096" "yoe = 399" using doe yoe by auto
    then show ?thesis by simp
  next
    case False
    have small: "1461 * q + 365 * r + doy < 36524"
      using False lp q r db by (cases "doy = 365") auto
    have e3: "doe div 146096 = 0"
      by (rule int_div_pos_eq [where r = doe]) (use doe c q r db small in simp_all)
    have e2: "doe div 36524 = c"
      by (rule int_div_pos_eq [where r = "1461 * q + 365 * r + doy"]) (use doe q r db small in simp_all)
    obtain e where e1: "doe div 1460 = 25 * c + q + e" and e: "0 \<le> doy - e" "doy - e < 365"
    proof (cases "24 * c + q + 365 * r + doy < 1460")
      case True
      have "doe div 1460 = 25 * c + q + 0"
        by (rule int_div_pos_eq [where r = "24 * c + q + 365 * r + doy"]) (use doe c q r db True in simp_all)
      moreover have "doy < 365"
        using True lp c q db by fastforce
      ultimately show ?thesis using that db by simp
    next
      case False
      have "doe div 1460 = 25 * c + q + 1"
        by (rule int_div_pos_eq [where r = "24 * c + q + 365 * r + doy - 1460"]) (use doe c q r db False in simp_all)
      moreover have "0 < doy" using False c q r by linarith
      ultimately show ?thesis using that db by simp
    qed
    have "doe - doe div 1460 + doe div 36524 - doe div 146096 = 365 * yoe + (doy - e)"
      using doe e1 e2 e3 yoe by simp
    also have "\<dots> div 365 = yoe"
      by (rule int_div_pos_eq [where r = "doy - e"]) (use e in auto)
    finally show ?thesis .
  qed
qed

lemma era_days_before_bounds [simp]: "era_days_before 0 = 0" "era_days_before 400 = 146097"
  by (simp_all add: era_days_before_def)

lemma era_days_before_in_era:
  "0 \<le> y \<Longrightarrow> y < 400 \<Longrightarrow> era_days_before y = 365 * y + y div 4 - y div 100"
  by (simp add: era_days_before_def)

lemma era_year_length:
  fixes yoe :: int
  assumes "0 \<le> yoe" "yoe < 400"
  shows "era_days_before (yoe + 1) - era_days_before yoe = 365 \<or>
         (era_days_before (yoe + 1) - era_days_before yoe = 366 \<and> yoe mod 4 = 3 \<and>
          (yoe mod 100 \<noteq> 99 \<or> yoe = 399))"
proof -
  have m: "yoe mod 100 = 99 \<Longrightarrow> yoe mod 4 = 3"
    using mod_mod_cancel [of 4 100 yoe] by simp
  have "yoe mod 400 = 399 \<longleftrightarrow> yoe = 399"
    using assms by simp
  then show ?thesis
    using m unfolding era_days_before_def
    by (simp add: succ_div [of 4] succ_div [of 100] succ_div [of 400] assms)
qed

lemma leap_of_era:
  fixes yoe era :: int
  assumes "0 \<le> yoe" "yoe < 400"
  shows "is_leap_year (yoe + era * 400 + 1) \<longleftrightarrow>
    yoe mod 4 = 3 \<and> (yoe mod 100 \<noteq> 99 \<or> yoe = 399)"
proof -
  have m4: "(yoe + era * 400 + 1) mod 4 = (yoe + 1) mod 4"
    using mod_mult_self1 [of "yoe + 1" "100 * era" 4] by (simp add: ac_simps)
  have m100: "(yoe + era * 400 + 1) mod 100 = (yoe + 1) mod 100"
    using mod_mult_self1 [of "yoe + 1" "4 * era" 100] by (simp add: ac_simps)
  have m400: "(yoe + era * 400 + 1) mod 400 = (yoe + 1) mod 400"
    using mod_mult_self1 [of "yoe + 1" era 400] by (simp add: ac_simps)
  have "yoe mod 400 = 399 \<longleftrightarrow> yoe = 399"
    using assms by simp
  then show ?thesis
    unfolding is_leap_year_def m4 m100 m400
    by (simp only: succ_mod_zero [of 4] succ_mod_zero [of 100] succ_mod_zero [of 400] zero_less_numeral)
      simp
qed

lemma days_from_civil_mod:
  "days_from_civil y m d =
     (let y' = (if m \<le> 2 then y - 1 else y); yoe = y' mod 400;
          mp = (if 2 < m then m - 3 else m + 9)
      in y' div 400 * 146097 + (yoe * 365 + yoe div 4 - yoe div 100 + ((153 * mp + 2) div 5 + d - 1))
         - 719468)"
  by (simp add: days_from_civil_def Let_def minus_div_mult_eq_mod [symmetric])

lemma civil_from_days_era:
  assumes "0 \<le> doe" "doe < 146097"
  shows "civil_from_days (era * 146097 + doe - 719468) =
    (let yoe = (doe - doe div 1460 + doe div 36524 - doe div 146096) div 365;
         doy = doe - (365 * yoe + yoe div 4 - yoe div 100);
         mp = (5 * doy + 2) div 153;
         d = doy - (153 * mp + 2) div 5 + 1;
         m = (if mp < 10 then mp + 3 else mp - 9);
         y = yoe + era * 400
     in (if m \<le> 2 then y + 1 else y, m, d))"
proof -
  have e: "(era * 146097 + doe) div 146097 = era"
    by (rule int_div_pos_eq [where r = doe]) (use assms in simp_all)
  show ?thesis
    unfolding civil_from_days_def Let_def
    by (simp only: diff_add_cancel e add_diff_cancel_left')
qed

lemma month_cases:
  fixes m :: int
  assumes "1 \<le> m" "m \<le> 12"
  shows "m = 1 \<or> m = 2 \<or> m = 3 \<or> m = 4 \<or> m = 5 \<or> m = 6 \<or> m = 7 \<or> m = 8 \<or> m = 9 \<or>
    m = 10 \<or> m = 11 \<or> m = 12"
  using assms by presburger

lemma valid_date_bounds:
  "valid_date y m d \<Longrightarrow> 1 \<le> m \<and> m \<le> 12 \<and> 1 \<le> d \<and> d \<le> 31"
  by (auto simp: valid_date_def days_in_month_def split: if_splits)

lemma month_of_day:
  assumes "valid_date y m d"
  defines "mp \<equiv> if 2 < m then m - 3 else m + 9"
  defines "doy \<equiv> (153 * mp + 2) div 5 + d - 1"
  shows "(5 * doy + 2) div 153 = mp \<and> 0 \<le> doy \<and> doy \<le> 365 \<and> (doy = 365 \<longrightarrow> m = 2 \<and> is_leap_year y)"
proof -
  have m: "1 \<le> m" "m \<le> 12" and d: "1 \<le> d" "d \<le> days_in_month y m"
    using assms(1) by (simp_all add: valid_date_def)
  have "0 \<le> 5 * doy + 2 - 153 * mp \<and> 5 * doy + 2 - 153 * mp < 153 \<and> 0 \<le> doy \<and> doy \<le> 365 \<and>
    (doy = 365 \<longrightarrow> m = 2 \<and> is_leap_year y)"
    using month_cases [OF m] d unfolding doy_def mp_def days_in_month_def
    by (elim disjE) (auto split: if_splits)
  moreover have "(5 * doy + 2) div 153 = mp" if "0 \<le> 5 * doy + 2 - 153 * mp" "5 * doy + 2 - 153 * mp < 153"
    by (rule int_div_pos_eq [where r = "5 * doy + 2 - 153 * mp"]) (use that in simp_all)
  ultimately show ?thesis
    by blast
qed

lemma day_of_month_bound:
  assumes "0 \<le> doy" "doy \<le> 365" "doy = 365 \<Longrightarrow> is_leap_year y"
  defines "mp \<equiv> (5 * doy + 2) div 153"
  shows "1 \<le> doy - (153 * mp + 2) div 5 + 1 \<and>
    doy - (153 * mp + 2) div 5 + 1 \<le> days_in_month y (if mp < 10 then mp + 3 else mp - 9)"
proof -
  have mp_b: "0 \<le> mp" "mp \<le> 11"
    using assms(1,2) zdiv_mono1 [of "5 * doy + 2" 1827 153] unfolding mp_def by simp_all
  have "153 * mp \<le> 5 * doy + 2" "5 * doy + 2 < 153 * mp + 153"
    using div_mult_mod_eq [of "5 * doy + 2" 153] pos_mod_bound [of 153 "5 * doy + 2"]
      pos_mod_sign [of 153 "5 * doy + 2"] unfolding mp_def by linarith+
  moreover have "mp = 0 \<or> mp = 1 \<or> mp = 2 \<or> mp = 3 \<or> mp = 4 \<or> mp = 5 \<or> mp = 6 \<or> mp = 7 \<or>
      mp = 8 \<or> mp = 9 \<or> mp = 10 \<or> mp = 11"
    using mp_b by presburger
  moreover have "doy \<le> 364 \<or> is_leap_year y"
    using assms(2,3) by (cases "doy = 365") auto
  ultimately show ?thesis
    using assms(2) unfolding days_in_month_def by (elim disjE) (auto split: if_splits)
qed

lemma civil_from_days_inverse:
  assumes "civil_from_days z = (y, m, d)"
  shows "days_from_civil y m d = z \<and> valid_date y m d"
proof -
  define era where "era = (z + 719468) div 146097"
  define n where "n = (z + 719468) mod 146097"
  have n_b: "0 \<le> n" "n < 146097"
    by (simp_all add: n_def)
  have z: "z = era * 146097 + n - 719468"
    using div_mult_mod_eq [of "z + 719468" 146097] unfolding era_def n_def by linarith
  have "\<exists>k<400. era_days_before (int k) \<le> n \<and> n < era_days_before (int (Suc k))"
    by (rule step_split) (use n_b in simp_all)
  then obtain k where k: "k < 400" "era_days_before (int k) \<le> n" "n < era_days_before (int (Suc k))"
    by blast
  define yoe where "yoe = int k"
  have yoe_b: "0 \<le> yoe" "yoe < 400"
    using k(1) by (simp_all add: yoe_def)
  define doy where "doy = n - (365 * yoe + yoe div 4 - yoe div 100)"
  have gk: "era_days_before yoe = 365 * yoe + yoe div 4 - yoe div 100"
    using yoe_b by (rule era_days_before_in_era)
  have len: "doy < era_days_before (yoe + 1) - era_days_before yoe" "0 \<le> doy"
    using k gk unfolding doy_def yoe_def by (simp_all add: add.commute)
  have doy_b: "doy \<le> 365" "doy = 365 \<Longrightarrow> yoe mod 4 = 3 \<and> (yoe mod 100 \<noteq> 99 \<or> yoe = 399)"
    using era_year_length [OF yoe_b] len by auto
  have n_eq: "n = yoe * 365 + yoe div 4 - yoe div 100 + doy"
    unfolding doy_def by simp
  have yr: "(n - n div 1460 + n div 36524 - n div 146096) div 365 = yoe"
    unfolding n_eq by (rule era_year_of_day [OF yoe_b len(2) doy_b])
  define mp where "mp = (5 * doy + 2) div 153"
  define b where "b = (153 * mp + 2) div 5"
  define m' where "m' = (if mp < 10 then mp + 3 else mp - 9)"
  define y' where "y' = (if m' \<le> 2 then yoe + era * 400 + 1 else yoe + era * 400)"
  have mp_b: "0 \<le> mp" "mp \<le> 11"
    using len(2) zdiv_mono1 [of "5 * doy + 2" 1827 153] doy_b(1) unfolding mp_def by simp_all
  have "doy = 365 \<Longrightarrow> is_leap_year y'"
  proof -
    assume "doy = 365"
    then have "m' = 2" "yoe mod 4 = 3 \<and> (yoe mod 100 \<noteq> 99 \<or> yoe = 399)"
      using doy_b(2) by (simp_all add: m'_def mp_def)
    then show "is_leap_year y'"
      using leap_of_era [OF yoe_b] by (simp add: y'_def)
  qed
  then have dm: "1 \<le> doy - b + 1" "doy - b + 1 \<le> days_in_month y' m'"
    using day_of_month_bound [OF len(2) doy_b(1)] unfolding m'_def b_def mp_def by blast+
  have "civil_from_days z = (y', m', doy - b + 1)"
    unfolding z civil_from_days_era [OF n_b] Let_def yr
    by (simp only: doy_def [symmetric] mp_def [symmetric] b_def [symmetric] m'_def [symmetric]
        y'_def [symmetric])
  then have m_eq: "m = m'" and y_eq: "y = y'" and d_eq: "d = doy - b + 1"
    using assms by auto
  have y'': "(if m \<le> 2 then y - 1 else y) = yoe + era * 400"
    by (simp add: y_eq y'_def m_eq)
  have mp': "(if 2 < m then m - 3 else m + 9) = mp"
    using m_eq mp_b unfolding m'_def by auto
  have ediv: "(yoe + era * 400) div 400 = era" and emod: "(yoe + era * 400) mod 400 = yoe"
    using yoe_b by simp_all
  have "days_from_civil y m d = z"
    unfolding days_from_civil_mod Let_def y'' mp' ediv emod b_def [symmetric]
    by (simp add: d_eq z n_eq)
  moreover have "valid_date y m d"
    using dm mp_b unfolding valid_date_def m_eq y_eq d_eq m'_def by auto
  ultimately show ?thesis ..
qed

lemma days_from_civil_inverse:
  assumes "valid_date y m d"
  shows "civil_from_days (days_from_civil y m d) = (y, m, d)"
proof -
  define y' where "y' = (if m \<le> 2 then y - 1 else y)"
  define era where "era = y' div 400"
  define yoe where "yoe = y' mod 400"
  define mp where "mp = (if 2 < m then m - 3 else m + 9)"
  define doy where "doy = (153 * mp + 2) div 5 + d - 1"
  define doe where "doe = yoe * 365 + yoe div 4 - yoe div 100 + doy"
  have m: "1 \<le> m" "m \<le> 12"
    using assms by (simp_all add: valid_date_def)
  have yoe_b: "0 \<le> yoe" "yoe < 400"
    by (simp_all add: yoe_def)
  have mf: "(5 * doy + 2) div 153 = mp" "0 \<le> doy" "doy \<le> 365"
    "doy = 365 \<Longrightarrow> m = 2 \<and> is_leap_year y"
    using month_of_day [OF assms] unfolding doy_def mp_def by blast+
  have y_era: "y = (if m \<le> 2 then yoe + era * 400 + 1 else yoe + era * 400)"
    by (simp add: yoe_def era_def y'_def)
  have lp: "doy = 365 \<Longrightarrow> yoe mod 4 = 3 \<and> (yoe mod 100 \<noteq> 99 \<or> yoe = 399)"
    using mf(4) leap_of_era [OF yoe_b, of era] y_era by auto
  have yr: "(doe - doe div 1460 + doe div 36524 - doe div 146096) div 365 = yoe"
    unfolding doe_def by (rule era_year_of_day [OF yoe_b mf(2,3) lp])
  have "yoe div 100 \<le> yoe div 4"
    using yoe_b by (intro zdiv_mono2) simp_all
  moreover have "yoe div 4 \<le> 99"
    using zdiv_mono1 [of yoe 399 4] yoe_b by simp
  moreover have "300 \<le> yoe \<Longrightarrow> 3 \<le> yoe div 100"
    using zdiv_mono1 [of 300 yoe 100] by simp
  ultimately have doe_b: "0 \<le> doe" "doe < 146097"
    using yoe_b mf(2,3) unfolding doe_def by (cases "300 \<le> yoe"; linarith)+
  have days: "days_from_civil y m d = era * 146097 + doe - 719468"
    unfolding days_from_civil_mod Let_def y'_def [symmetric] era_def [symmetric]
      mp_def [symmetric] yoe_def [symmetric] doe_def doy_def
    by simp
  have doy_eq: "doe - (365 * yoe + yoe div 4 - yoe div 100) = doy"
    unfolding doe_def by simp
  have m': "(if mp < 10 then mp + 3 else mp - 9) = m"
    using m by (auto simp: mp_def)
  have y': "yoe + era * 400 = y'"
    by (simp add: yoe_def era_def)
  show ?thesis
    unfolding days civil_from_days_era [OF doe_b] Let_def yr doy_eq mf(1) m' y'
    by (simp add: y'_def doy_def)
qed

lemma civil_from_days_first_day:
  "1 \<le> m \<Longrightarrow> m \<le> 12 \<Longrightarrow> civil_from_days (days_from_civil y m 1) = (y, m, 1)"
  by (rule days_from_civil_inverse) (simp add: valid_date_def days_in_month_def)

text \<open>The era formulas of the Date model implement the proleptic Gregorian calendar: civil_from_days maps a day number to (y, m, d) exactly when (y, m, d) is a valid date (month 1 to 12, day within the month's length, 29 February only in leap years) and \<open>days_from_civil\<close> maps it back to that day number.\<close>

theorem calendar_bijection:
  "civil_from_days z = (y, m, d) \<longleftrightarrow> valid_date y m d \<and> days_from_civil y m d = z"
  using civil_from_days_inverse days_from_civil_inverse by blast

text \<open>Printing: the ISO text of a day in years 0 to 9999 starts with its \<^verbatim>\<open>YYYY-MM\<close>.\<close>

lemma length_nat_to_dec:
  "n < 10 ^ k \<Longrightarrow> 0 < k \<Longrightarrow> length (nat_to_dec n) \<le> k"
proof (induction n arbitrary: k rule: nat_to_dec.induct)
  case (1 n)
  show ?case
  proof (cases "n < 10")
    case True
    then show ?thesis using "1.prems" by (simp add: nat_to_dec.simps [of n])
  next
    case False
    obtain j where k: "k = Suc j"
      using "1.prems"(2) by (cases k) auto
    have "0 < j"
      using False "1.prems"(1) k by (cases j) auto
    moreover have "n div 10 < 10 ^ j"
      using "1.prems"(1) k by (simp add: less_mult_imp_div_less mult.commute)
    ultimately have "length (nat_to_dec (n div 10)) \<le> j"
      using "1.IH" False by blast
    then show ?thesis
      using False k by (simp add: nat_to_dec.simps [of n])
  qed
qed

lemma length_pad_int:
  "0 \<le> n \<Longrightarrow> n < 10 ^ w \<Longrightarrow> 0 < w \<Longrightarrow> length (pad_int w n) = w"
  using length_nat_to_dec [of "nat n" w]
  by (simp add: pad_int_def Let_def nat_less_iff)

lemma length_iso_year: "0 \<le> y \<Longrightarrow> y \<le> 9999 \<Longrightarrow> length (iso_year y) = 4"
  by (simp add: iso_year_def length_pad_int)

lemma to_iso_string_civil:
  assumes "civil_from_days (t div ms_per_day) = (y, m, d)"
  shows "\<exists>rest. to_iso_string (Some t) = Inr (iso_year y @ ''-'' @ pad_int 2 m @ rest)"
  using assms by (simp add: to_iso_string_def Let_def)

lemma days_from_civil_range:
  assumes "0 \<le> y" "y \<le> 10000" "1 \<le> m" "m \<le> 12" "1 \<le> d" "d \<le> 31"
  shows "-9999999 < days_from_civil y m d \<and> days_from_civil y m d < 9999999"
proof -
  define y' where "y' = (if m \<le> 2 then y - 1 else y)"
  define yoe where "yoe = y' mod 400"
  define mp where "mp = (if 2 < m then m - 3 else m + 9)"
  have e: "-1 \<le> y' div 400" "y' div 400 \<le> 25"
    using assms zdiv_mono1 [of "-1" y' 400] zdiv_mono1 [of y' 10000 400] unfolding y'_def by auto
  have yoe_b: "0 \<le> yoe" "yoe < 400"
    by (simp_all add: yoe_def)
  have "yoe div 100 \<le> yoe div 4"
    using yoe_b by (intro zdiv_mono2) simp_all
  moreover have "yoe div 4 \<le> 99"
    using zdiv_mono1 [of yoe 399 4] yoe_b by simp
  moreover have "0 \<le> yoe div 100"
    using yoe_b by simp
  moreover have "0 \<le> (153 * mp + 2) div 5" "(153 * mp + 2) div 5 \<le> 337"
    using assms zdiv_mono1 [of "153 * mp + 2" 1685 5] unfolding mp_def by auto
  ultimately show ?thesis
    using e yoe_b assms unfolding days_from_civil_mod Let_def
    by (simp only: y'_def [symmetric] yoe_def [symmetric] mp_def [symmetric]) linarith
qed

lemma take_month_token:
  assumes "0 \<le> y" "y \<le> 9999" "1 \<le> m" "m \<le> 12"
  shows "take 7 (iso_year y @ ''-'' @ pad_int 2 m @ rest) = month_token (y, m)"
proof -
  have "length (iso_year y) = 4" "length (pad_int 2 m) = 2"
    using assms by (simp_all add: length_iso_year length_pad_int)
  then show ?thesis
    by (simp add: month_token_def)
qed

lemma time_clip_day:
  assumes "-99999999 < t div ms_per_day" "t div ms_per_day < 99999999"
  shows "time_clip t = Some t"
proof -
  have "t = ms_per_day * (t div ms_per_day) + t mod ms_per_day" "0 \<le> t mod ms_per_day"
    "t mod ms_per_day < ms_per_day"
    by (simp_all add: ms_per_day_def)
  then have "\<bar>t\<bar> \<le> max_time_value"
    using assms unfolding abs_le_iff max_time_value_def ms_per_day_def by linarith
  then show ?thesis
    by (simp add: time_clip_def)
qed

lemma next_month_parts:
  assumes "1 \<le> m" "m \<le> 12" "next_month (y, m) = (y2, m2)"
  shows "y + m div 12 = y2" "m mod 12 + 1 = m2" "1 \<le> m2" "m2 \<le> 12" "y \<le> y2" "y2 \<le> y + 1"
  using assms by (cases "m = 12"; simp add: next_month_def)+

subsection \<open>Month arithmetic and month tokens\<close>

text \<open>
  The formula in closed form (the days before the March-based year plus the
  days of the year), from which the next month's first day is the current
  month's first day plus the month's length; and the \<^verbatim>\<open>YYYY-MM\<close> token
  of a month reads back as its year and month, so different months print
  different tokens.
\<close>

lemma dec_value_pad_int: "0 \<le> n \<Longrightarrow> int (dec_value (pad_int w n)) = n"
  by (simp add: pad_int_def Let_def dec_value_zeros dec_value_nat_to_dec)

lemma month_token_parts:
  assumes "0 \<le> y" "y \<le> 9999" "1 \<le> m" "m \<le> 12"
  shows "int (dec_value (take 4 (month_token (y, m)))) = y" "int (dec_value (drop 5 (month_token (y, m)))) = m"
proof -
  have "length (pad_int 4 y) = 4" "iso_year y = pad_int 4 y"
    using assms by (simp_all add: length_pad_int iso_year_def)
  then show "int (dec_value (take 4 (month_token (y, m)))) = y"
    "int (dec_value (drop 5 (month_token (y, m)))) = m"
    using assms by (simp_all add: month_token_def dec_value_pad_int)
qed

lemma month_token_inj:
  assumes "0 \<le> y" "y \<le> 9999" "1 \<le> m" "m \<le> 12" "0 \<le> y'" "y' \<le> 9999" "1 \<le> m'" "m' \<le> 12"
  shows "month_token (y, m) = month_token (y', m') \<longleftrightarrow> (y, m) = (y', m')"
  using month_token_parts [OF assms(1-4)] month_token_parts [OF assms(5-8)] by auto

lemma era_days:
  fixes y :: int
  shows "y div 400 * 146097 + (y mod 400 * 365 + y mod 400 div 4 - y mod 400 div 100) =
    365 * y + y div 4 - y div 100 + y div 400"
proof -
  define e where "e = y div 400"
  define r where "r = y mod 400"
  have y: "y = r + e * 400"
    unfolding e_def r_def by simp
  have "y div 4 = r div 4 + e * 100"
    using div_mult_self1 [of 4 r "e * 100"] unfolding y by (simp add: ac_simps)
  moreover have "y div 100 = r div 100 + e * 4"
    using div_mult_self1 [of 100 r "e * 4"] unfolding y by (simp add: ac_simps)
  moreover have "y div 400 = e"
    unfolding e_def ..
  ultimately show ?thesis
    unfolding e_def [symmetric] r_def [symmetric] using y by simp
qed

lemma days_from_civil_closed:
  "days_from_civil y m d =
     (let y' = (if m \<le> 2 then y - 1 else y); mp = (if 2 < m then m - 3 else m + 9)
      in era_days_before y' + (153 * mp + 2) div 5 + d - 1 - 719468)"
proof -
  define y' where "y' = (if m \<le> 2 then y - 1 else y)"
  define mp where "mp = (if 2 < m then m - 3 else m + 9)"
  have "days_from_civil y m d =
      y' div 400 * 146097 + (y' mod 400 * 365 + y' mod 400 div 4 - y' mod 400 div 100 +
        ((153 * mp + 2) div 5 + d - 1)) - 719468"
    unfolding days_from_civil_mod Let_def y'_def mp_def ..
  also have "\<dots> = era_days_before y' + (153 * mp + 2) div 5 + d - 1 - 719468"
    using era_days [of y'] unfolding era_days_before_def by linarith
  finally show ?thesis
    unfolding Let_def y'_def mp_def .
qed

lemma year_days_step:
  "era_days_before (x + 1) - era_days_before x = (if is_leap_year (x + 1) then 366 else 365)"
proof -
  have d: "(x + 1) div 4 = x div 4 + (if x mod 4 = 3 then 1 else 0)"
    "(x + 1) div 100 = x div 100 + (if x mod 100 = 99 then 1 else 0)"
    "(x + 1) div 400 = x div 400 + (if x mod 400 = 399 then 1 else 0)"
    by (subst succ_div; simp)+
  have lp: "is_leap_year (x + 1) \<longleftrightarrow> x mod 4 = 3 \<and> (x mod 100 \<noteq> 99 \<or> x mod 400 = 399)"
    unfolding is_leap_year_def using succ_mod_zero [of 4 x] succ_mod_zero [of 100 x] succ_mod_zero [of 400 x]
    by simp
  have m4: "x mod 100 = 99 \<Longrightarrow> x mod 4 = 3"
    using mod_mod_cancel [of 4 100 x] by simp
  have m100: "x mod 400 = 399 \<Longrightarrow> x mod 100 = 99"
    using mod_mod_cancel [of 100 400 x] by simp
  show ?thesis
    unfolding era_days_before_def d lp
    using m4 m100 by (cases "x mod 4 = 3"; cases "x mod 100 = 99"; cases "x mod 400 = 399") simp_all
qed

lemma days_from_civil_month_step:
  assumes "1 \<le> m" "m \<le> 12"
  shows "days_from_civil (fst (next_month (y, m))) (snd (next_month (y, m))) 1 =
    days_from_civil y m 1 + days_in_month y m"
proof -
  have yr: "era_days_before y = era_days_before (y - 1) + (if is_leap_year y then 366 else 365)"
    using year_days_step [of "y - 1"] by simp
  show ?thesis
    using month_cases [OF assms]
    by (elim disjE) (simp_all add: yr next_month_def days_from_civil_closed days_in_month_def)
qed

lemma days_from_civil_day: "days_from_civil y m d = days_from_civil y m 1 + (d - 1)"
  by (simp add: days_from_civil_closed Let_def)

lemma civil_from_days_month_end:
  assumes "1 \<le> m" "m \<le> 12"
  shows "civil_from_days (days_from_civil (fst (next_month (y, m))) (snd (next_month (y, m))) 1 - 1) =
    (y, m, days_in_month y m)"
proof -
  have "valid_date y m (days_in_month y m)"
    using assms by (simp add: valid_date_def days_in_month_def)
  moreover have "days_from_civil (fst (next_month (y, m))) (snd (next_month (y, m))) 1 - 1 =
      days_from_civil y m (days_in_month y m)"
    using days_from_civil_month_step [OF assms] days_from_civil_day [of y m "days_in_month y m"] by simp
  ultimately show ?thesis
    using days_from_civil_inverse by simp
qed

lemma before_next_month:
  assumes "valid_date y m d"
  shows "days_from_civil y m 1 \<le> days_from_civil y m d"
    "days_from_civil y m d < days_from_civil (fst (next_month (y, m))) (snd (next_month (y, m))) 1"
  using assms days_from_civil_month_step [of m y] days_from_civil_day [of y m d]
  by (auto simp: valid_date_def)

end
