(* ===== verification/GetAvailability.thy ===== *)
theory GetAvailability
  imports Json Base64 DateTime
begin

text \<open>
  \<^verbatim>\<open>netlify/functions/get-availability.js\<close>: the handler that queries the
  upstream for the open slots of an appointment type in the current and the
  next month. One definition per block of the source, in its order: the CORS
  headers, the query-string reads, the placeholder answer without
  credentials, the two month tokens, one month query (a \<^verbatim>\<open>try\<close> block that
  never lets an error out), the debug and the normal answer, the outer
  \<^verbatim>\<open>try\<close> block and the handler with its \<^verbatim>\<open>OPTIONS\<close> check and
  \<^verbatim>\<open>catch\<close>. The accumulator of the two queries is a record of the source's
  two arrays and the log of requests sent.
\<close>

definition availability_headers :: "(string \<times> string) list" where
  "availability_headers =
     [(''Access-Control-Allow-Origin'', ''*''),
      (''Access-Control-Allow-Headers'', ''Content-Type''),
      (''Access-Control-Allow-Methods'', ''GET, OPTIONS'')]"

text \<open>\<^verbatim>\<open>event.queryStringParameters || {}\<close>.\<close>

definition query_params :: "event \<Rightarrow> (string \<rightharpoonup> string)" where
  "query_params ev = (case queryStringParameters ev of None \<Rightarrow> Map.empty | Some qs \<Rightarrow> qs)"

text \<open>\<^verbatim>\<open>qs.appointmentTypeId || qs.appointmentTypeID\<close>.\<close>

definition appointment_type_id :: "(string \<rightharpoonup> string) \<Rightarrow> jsval" where
  "appointment_type_id qs = js_or (opt_str (qs ''appointmentTypeId'')) (opt_str (qs ''appointmentTypeID''))"

text \<open>\<^verbatim>\<open>qs.debug === '1'\<close>.\<close>

definition debug_requested :: "(string \<rightharpoonup> string) \<Rightarrow> bool" where
  "debug_requested qs \<longleftrightarrow> qs ''debug'' = Some ''1''"

text \<open>
  Without credentials: one placeholder slot 35 days after now, with a
  diagnostic. Printing the date throws when it is out of range.
\<close>

definition placeholder_response :: "world \<Rightarrow> js_error + response" where
  "placeholder_response w =
     bindE (to_iso_string (time_clip (now w + 35 * 24 * 60 * 60 * 1000))) (\<lambda>t.
       Inr (json_response 200 availability_headers
             (JArr [JObj [(''time'', JStr t),
                          (''debug'', JStr ''Missing ACUITY_USER or ACUITY_KEY environment variables'')]])))"

text \<open>
  \<^verbatim>\<open>currentMonth\<close> from the UTC date of now, \<^verbatim>\<open>nextMonth\<close> from the first day
  of the local month after the local month of now, both printed in UTC and
  cut to their first seven characters.
\<close>

definition month_tokens :: "world \<Rightarrow> js_error + string \<times> string" where
  "month_tokens w =
     bindE (to_iso_string (time_clip (now w))) (\<lambda>cur.
       case local_year_month (tz_offset w) (now w) of (y, m) \<Rightarrow>
         bindE (to_iso_string (local_date (tz_offset w) y (m + 1) 1)) (\<lambda>nxt.
           Inr (take 7 cur, take 7 nxt)))"

definition availability_url :: "string \<Rightarrow> string \<Rightarrow> string" where
  "availability_url typeId month =
     ''https://acuityscheduling.com/api/v1/availability/times?appointmentTypeID='' @ typeId @
     ''&month='' @ month"

definition availability_request :: "string \<Rightarrow> string \<Rightarrow> http_request" where
  "availability_request auth url =
     \<lparr>req_url = url, req_method = ''GET'', req_headers = [(''Authorization'', ''Basic '' @ auth)],
      req_body = None\<rparr>"

record avail_acc =
  allResults :: "jsval list"
  debugInfo :: "string list"
  requests :: "http_request list"

text \<open>
  One month's query: its \<^verbatim>\<open>try\<close> block appends the slots of an array answer
  and one line of diagnostics; its \<^verbatim>\<open>catch\<close> turns every error (a rejected
  fetch, an unparseable body, a \<^verbatim>\<open>length\<close> read on \<^verbatim>\<open>null\<close>) into a line of
  diagnostics. The slots are appended before the \<^verbatim>\<open>length\<close> read.
\<close>

definition month_query ::
  "world \<Rightarrow> string \<Rightarrow> string \<Rightarrow> string \<Rightarrow> string \<Rightarrow> avail_acc \<Rightarrow> avail_acc" where
  "month_query w label auth typeId month acc =
     (case do_fetch w (requests acc) (availability_request auth (availability_url typeId month)) of
        (outcome, log) \<Rightarrow>
          let acc1 = acc\<lparr>requests := log\<rparr>;
              failed = (\<lambda>a e. a\<lparr>debugInfo := debugInfo acc @ [label @ '' error: '' @ error_message e]\<rparr>)
          in case outcome of
               Rejected e \<Rightarrow> failed acc1 e
             | Received st txt \<Rightarrow>
                 if resp_ok st then
                   (case resp_json w txt of
                      Inl e \<Rightarrow> failed acc1 e
                    | Inr data \<Rightarrow>
                        let acc2 = (if is_array data
                                    then acc1\<lparr>allResults := allResults acc @ array_elems data\<rparr>
                                    else acc1)
                        in case length_text data of
                             Inl e \<Rightarrow> failed acc2 e
                           | Inr n \<Rightarrow>
                               acc2\<lparr>debugInfo := debugInfo acc @ [label @ '': '' @ n @ '' results'']\<rparr>)
                 else acc1\<lparr>debugInfo := debugInfo acc @ [label @ '': HTTP '' @ int_to_dec st]\<rparr>)"

definition debug_body :: "jsval \<Rightarrow> jsval \<Rightarrow> jsval \<Rightarrow> avail_acc \<Rightarrow> jsval" where
  "debug_body typeId userId apiKey acc =
     JObj [(''appointmentTypeId'', typeId),
           (''userId'', JStr (if js_truthy userId then ''SET'' else ''MISSING'')),
           (''apiKey'', JStr (if js_truthy apiKey then ''SET'' else ''MISSING'')),
           (''debugInfo'', JArr (map JStr (debugInfo acc))),
           (''totalResults'', JNum (int (length (allResults acc)))),
           (''sampleResults'', JArr (take 3 (allResults acc)))]"

definition results_response :: "avail_acc \<Rightarrow> response" where
  "results_response acc =
     (if 0 < length (allResults acc)
      then json_response 200 availability_headers (JArr (take 12 (allResults acc)))
      else json_response 200 availability_headers (JArr []))"

definition availability_try ::
  "world \<Rightarrow> event \<Rightarrow> (js_error \<times> http_request list) + (response \<times> http_request list)" where
  "availability_try w ev =
     (let qs = query_params ev; typeId = appointment_type_id qs; debug = debug_requested qs in
      if \<not> js_truthy typeId then
        Inr (json_response 400 availability_headers (JObj [(''error'', JStr ''Missing appointmentTypeId'')]), [])
      else
        let userId = env_val w ''ACUITY_USER''; apiKey = env_val w ''ACUITY_KEY'' in
        if \<not> js_truthy userId \<or> \<not> js_truthy apiKey then
          (case placeholder_response w of Inl e \<Rightarrow> Inl (e, []) | Inr r \<Rightarrow> Inr (r, []))
        else
          (case month_tokens w of
             Inl e \<Rightarrow> Inl (e, [])
           | Inr (cur, nxt) \<Rightarrow>
               let auth = basic_auth userId apiKey; tid = js_to_string typeId;
                   acc0 = \<lparr>allResults = [], debugInfo = [], requests = []\<rparr>;
                   acc1 = month_query w ''Current month'' auth tid cur acc0;
                   acc2 = month_query w ''Next month'' auth tid nxt acc1
               in if debug
                  then Inr (json_response 200 availability_headers (debug_body typeId userId apiKey acc2),
                            requests acc2)
                  else Inr (results_response acc2, requests acc2)))"

definition get_availability :: "world \<Rightarrow> event \<Rightarrow> response \<times> http_request list" where
  "get_availability w ev =
     (if httpMethod ev = ''OPTIONS'' then
        (\<lparr>statusCode = 200, headers = availability_headers, resp_body = NoBody\<rparr>, [])
      else
        (case availability_try w ev of
           Inr r \<Rightarrow> r
         | Inl (e, log) \<Rightarrow>
             (json_response 500 availability_headers (JObj [(''error'', JStr (error_message e))]), log)))"

text \<open>
  What one month query contributes to the slot list, read off its outcome:
  the elements of a 2xx body that parses to an array, nothing otherwise.
\<close>

definition query_slots :: "world \<Rightarrow> fetch_outcome \<Rightarrow> jsval list" where
  "query_slots w outcome =
     (case outcome of
        Received st txt \<Rightarrow>
          if resp_ok st then (case resp_json w txt of Inr data \<Rightarrow> array_elems data | Inl _ \<Rightarrow> []) else []
      | Rejected _ \<Rightarrow> [])"

abbreviation avail_auth :: "world \<Rightarrow> string" where
  "avail_auth w \<equiv> basic_auth (env_val w ''ACUITY_USER'') (env_val w ''ACUITY_KEY'')"

abbreviation month_request :: "world \<Rightarrow> event \<Rightarrow> string \<Rightarrow> http_request" where
  "month_request w ev month \<equiv>
     availability_request (avail_auth w)
       (availability_url (js_to_string (appointment_type_id (query_params ev))) month)"

text \<open>
  The accumulator states the month queries can build: the empty one the
  handler starts from (\<^verbatim>\<open>let allResults = []; let debugInfo = []\<close>, no
  request sent), and every state one more query (the \<^verbatim>\<open>try\<close>/\<^verbatim>\<open>catch\<close>
  of lines 50 to 67, repeated for the next month) leads to.
\<close>

inductive acc_reachable :: "world \<Rightarrow> avail_acc \<Rightarrow> bool" for w :: world where
  init: "acc_reachable w \<lparr>allResults = [], debugInfo = [], requests = []\<rparr>"
| query: "acc_reachable w acc \<Longrightarrow> acc_reachable w (month_query w label auth tid month acc)"

text \<open>
  The slots a log of requests accounts for: the \<open>i\<close>-th request's
  contribution (\<open>query_slots\<close>) for its answer, in order.
\<close>

fun logged_slots :: "world \<Rightarrow> nat \<Rightarrow> http_request list \<Rightarrow> jsval list" where
  "logged_slots w i [] = []"
| "logged_slots w i (r # rs) = query_slots w (fetch w i r) @ logged_slots w (Suc i) rs"

subsection \<open>Properties\<close>

text \<open>
  Each month query appends exactly one request, one line of diagnostics and
  the slots of its own outcome, whatever the other query did: the failure
  isolation of the source's inner \<^verbatim>\<open>try\<close> blocks. The handler theorems
  follow from these three facts.
\<close>

lemma month_tokens_cong:
  "now w = now w' \<Longrightarrow> tz_offset w = tz_offset w' \<Longrightarrow> month_tokens w = month_tokens w'"
  by (simp add: month_tokens_def)

lemma array_elems_not_array: "\<not> is_array d \<Longrightarrow> array_elems d = []"
  by (cases d) simp_all

lemma month_query_requests [simp]:
  "requests (month_query w label auth tid month acc) =
     requests acc @ [availability_request auth (availability_url tid month)]"
  by (simp add: month_query_def do_fetch_def Let_def
      split: fetch_outcome.split sum.split if_split)

lemma month_query_results [simp]:
  "allResults (month_query w label auth tid month acc) =
     allResults acc @
     query_slots w (fetch w (length (requests acc)) (availability_request auth (availability_url tid month)))"
  by (simp add: month_query_def do_fetch_def query_slots_def Let_def array_elems_not_array
      split: fetch_outcome.split sum.split if_split)

lemma month_query_debug_length [simp]:
  "length (debugInfo (month_query w label auth tid month acc)) = Suc (length (debugInfo acc))"
  by (simp add: month_query_def do_fetch_def Let_def
      split: fetch_outcome.split sum.split if_split)

text \<open>C22: a non-OPTIONS request to the availability handler without a truthy appointmentTypeId or appointmentTypeID answers 400 'Missing appointmentTypeId' and sends nothing, whatever the other parameters and the world.\<close>

theorem get_availability_missing_id:
  assumes "httpMethod ev \<noteq> ''OPTIONS''" and "\<not> js_truthy (appointment_type_id (query_params ev))"
  shows "get_availability w ev =
     (json_response 400 availability_headers (JObj [(''error'', JStr ''Missing appointmentTypeId'')]), [])"
  using assms by (simp add: get_availability_def availability_try_def)

text \<open>C4: with an appointment type, credentials and valid month tokens, the availability handler sends exactly two requests, the current month's query and then the next month's, whatever the upstream answers.\<close>

theorem get_availability_queries:
  assumes "httpMethod ev \<noteq> ''OPTIONS''" and "js_truthy (appointment_type_id (query_params ev))"
    and "has_credentials w ''ACUITY_USER'' ''ACUITY_KEY''" and "month_tokens w = Inr (cur, nxt)"
  shows "snd (get_availability w ev) = [month_request w ev cur, month_request w ev nxt]"
  using assms by (simp add: get_availability_def availability_try_def has_credentials_def Let_def)

text \<open>C2: without debug, with an appointment type, credentials and valid month tokens, the availability handler answers 200 with the first 12 of the current month's slots followed by the next month's slots, where a month contributes the elements of a 2xx array answer and nothing when its fetch fails, its status is not 2xx or its body does not parse; it sends the two month requests in that order.\<close>

theorem get_availability_results:
  assumes "httpMethod ev \<noteq> ''OPTIONS''" and "js_truthy (appointment_type_id (query_params ev))"
    and "has_credentials w ''ACUITY_USER'' ''ACUITY_KEY''" and "month_tokens w = Inr (cur, nxt)"
    and "\<not> debug_requested (query_params ev)"
  shows "get_availability w ev =
     (json_response 200 availability_headers
        (JArr (take 12 (query_slots w (fetch w 0 (month_request w ev cur)) @
                        query_slots w (fetch w 1 (month_request w ev nxt))))),
      [month_request w ev cur, month_request w ev nxt])"
  using assms by (simp add: get_availability_def availability_try_def has_credentials_def Let_def
      results_response_def)

text \<open>C21: in debug mode the availability handler answers 200 with exactly the keys appointmentTypeId, userId, apiKey, debugInfo (two lines, one per month), totalResults (the number of slots of both months) and sampleResults (the first three slots).\<close>

theorem get_availability_debug:
  assumes "httpMethod ev \<noteq> ''OPTIONS''" and "js_truthy (appointment_type_id (query_params ev))"
    and "has_credentials w ''ACUITY_USER'' ''ACUITY_KEY''" and "month_tokens w = Inr (cur, nxt)"
    and "debug_requested (query_params ev)"
    and "slots = query_slots w (fetch w 0 (month_request w ev cur)) @
                 query_slots w (fetch w 1 (month_request w ev nxt))"
  shows "\<exists>lines. length lines = 2 \<and>
     get_availability w ev =
       (json_response 200 availability_headers
          (JObj [(''appointmentTypeId'', appointment_type_id (query_params ev)),
                 (''userId'', JStr ''SET''), (''apiKey'', JStr ''SET''),
                 (''debugInfo'', JArr (map JStr lines)),
                 (''totalResults'', JNum (int (length slots))),
                 (''sampleResults'', JArr (take 3 slots))]),
        [month_request w ev cur, month_request w ev nxt])"
proof -
  let ?tid = "js_to_string (appointment_type_id (query_params ev))"
  let ?acc2 = "month_query w ''Next month'' (avail_auth w) ?tid nxt
                 (month_query w ''Current month'' (avail_auth w) ?tid cur
                   \<lparr>allResults = [], debugInfo = [], requests = []\<rparr>)"
  have "length (debugInfo ?acc2) = 2"
    by simp
  then show ?thesis
    using assms
    by (intro exI [of _ "debugInfo ?acc2"])
      (simp add: get_availability_def availability_try_def has_credentials_def Let_def debug_body_def)
qed

lemma to_iso_string_Inl: "to_iso_string tv = Inl e \<longleftrightarrow> tv = None \<and> e = RangeError ''Invalid time value''"
  by (auto simp: to_iso_string_def Let_def split: option.splits prod.splits)

lemma to_iso_string_Some: "\<exists>s. to_iso_string (Some t) = Inr s"
  by (simp add: to_iso_string_def Let_def split: prod.splits)

lemma month_tokens_Inl: "month_tokens w = Inl e \<Longrightarrow> e = RangeError ''Invalid time value''"
  by (cases "local_year_month (tz_offset w) (now w)")
    (auto simp: month_tokens_def bindE_eq_Inl_iff to_iso_string_Inl)

lemma placeholder_response_Inl: "placeholder_response w = Inl e \<Longrightarrow> e = RangeError ''Invalid time value''"
  by (auto simp: placeholder_response_def bindE_eq_Inl_iff to_iso_string_Inl)

lemma placeholder_response_status:
  "placeholder_response w = Inr r \<Longrightarrow> statusCode r = 200"
  by (auto simp: placeholder_response_def bindE_eq_Inr_iff json_response_def)

text \<open>C23: without both availability credentials the handler answers 200 with one placeholder slot whose time is the ISO print of a time between now plus 34 and now plus 36 days, with the diagnostic naming the missing variables, and sends nothing.\<close>

theorem get_availability_placeholder:
  assumes "httpMethod ev \<noteq> ''OPTIONS''" and "js_truthy (appointment_type_id (query_params ev))"
    and "\<not> has_credentials w ''ACUITY_USER'' ''ACUITY_KEY''"
    and "\<bar>now w + 35 * ms_per_day\<bar> \<le> max_time_value"
  shows "\<exists>t s. get_availability w ev =
       (json_response 200 availability_headers
          (JArr [JObj [(''time'', JStr s),
                       (''debug'', JStr ''Missing ACUITY_USER or ACUITY_KEY environment variables'')]]), [])
     \<and> to_iso_string (Some t) = Inr s \<and> now w + 34 * ms_per_day \<le> t \<and> t \<le> now w + 36 * ms_per_day"
proof -
  let ?t = "now w + 35 * ms_per_day"
  obtain s where s: "to_iso_string (Some ?t) = Inr s"
    using to_iso_string_Some by blast
  have "placeholder_response w =
     Inr (json_response 200 availability_headers
          (JArr [JObj [(''time'', JStr s),
                       (''debug'', JStr ''Missing ACUITY_USER or ACUITY_KEY environment variables'')]]))"
    using assms(4) s by (simp add: placeholder_response_def time_clip_def ms_per_day_def)
  with assms(1-3) s show ?thesis
    by (intro exI [of _ ?t] exI [of _ s])
      (auto simp: get_availability_def availability_try_def has_credentials_def Let_def ms_per_day_def)
qed

text \<open>
  In UTC the month tokens are those of the current month and the next:
  \<^verbatim>\<open>toISOString\<close> and \<^verbatim>\<open>getMonth\<close> then read the same calendar, so
  the calendar round trip carries the month of \<^verbatim>\<open>now\<close> to the first day of
  the following month and back. A clock in the years 0 to 9998 is also
  far inside the range of \<^verbatim>\<open>Date\<close>, so neither date print throws.
\<close>

lemma shifted_day:
  assumes "-ms_per_day < tz" "tz < ms_per_day"
  shows "(D * ms_per_day - tz) div ms_per_day = (if 0 < tz then D - 1 else D)"
proof (cases "0 < tz")
  case True
  have "(D * ms_per_day - tz) div ms_per_day = D - 1"
    by (rule int_div_pos_eq [where r = "ms_per_day - tz"]) (use assms True in \<open>simp_all add: algebra_simps\<close>)
  with True show ?thesis by simp
next
  case False
  have "(D * ms_per_day - tz) div ms_per_day = D"
    by (rule int_div_pos_eq [where r = "- tz"]) (use assms False in \<open>simp_all add: algebra_simps\<close>)
  with False show ?thesis by simp
qed

lemma month_tokens_local:
  assumes tz: "-ms_per_day < tz_offset w" "tz_offset w < ms_per_day"
    and u: "civil_from_days (now w div ms_per_day) = (yu, mu, du)" "0 \<le> yu" "yu \<le> 9999"
    and l: "civil_from_days ((now w + tz_offset w) div ms_per_day) = (y, m, d)" "0 \<le> y" "y < 9999"
  shows "month_tokens w = Inr (month_token (yu, mu),
    if 0 < tz_offset w then month_token (full_year y, m) else month_token (next_month (full_year y, m)))"
proof -
  define Y where "Y = full_year y"
  have Yb: "0 \<le> Y" "Y < 9999"
    using l(2,3) unfolding Y_def by auto
  have iu: "days_from_civil yu mu du = now w div ms_per_day" "1 \<le> mu" "mu \<le> 12" "1 \<le> du" "du \<le> 31"
    using civil_from_days_inverse [OF u(1)] valid_date_bounds by auto
  have il: "1 \<le> m" "m \<le> 12"
    using civil_from_days_inverse [OF l(1)] valid_date_bounds by auto
  have clip: "time_clip (now w) = Some (now w)"
    using days_from_civil_range [of yu mu du] iu u(2,3) by (intro time_clip_day) auto
  obtain y2 m2 where nm: "next_month (Y, m) = (y2, m2)"
    by (cases "next_month (Y, m)")
  note n = next_month_parts [OF il nm]
  define D where "D = days_from_civil y2 m2 1"
  have Dr: "-9999999 < D" "D < 9999999"
    using days_from_civil_range [of y2 m2 1] n Yb unfolding D_def by auto
  have nd: "make_day Y (m - 1 + 1) 1 = D"
    using n by (simp add: make_day_def D_def)
  have sd: "(D * ms_per_day - tz_offset w) div ms_per_day = (if 0 < tz_offset w then D - 1 else D)"
    using tz by (rule shifted_day)
  have ld: "local_date (tz_offset w) y (m - 1 + 1) 1 = Some (D * ms_per_day - tz_offset w)"
    unfolding local_date_def Y_def [symmetric] nd using Dr sd by (intro time_clip_day) (simp_all split: if_split)
  have lym: "local_year_month (tz_offset w) (now w) = (y, m - 1)"
    by (simp add: local_year_month_def year_month_of_def l(1))
  obtain r1 where r1: "to_iso_string (Some (now w)) = Inr (iso_year yu @ ''-'' @ pad_int 2 mu @ r1)"
    using to_iso_string_civil [OF u(1)] by blast
  define ym2 where "ym2 = (if 0 < tz_offset w then (Y, m) else (y2, m2))"
  have c2: "civil_from_days ((D * ms_per_day - tz_offset w) div ms_per_day) =
      (fst ym2, snd ym2, if 0 < tz_offset w then days_in_month Y m else 1)"
    unfolding sd ym2_def
    using civil_from_days_month_end [OF il, of Y] civil_from_days_first_day [OF n(3,4), of y2] nm
    unfolding D_def by simp
  obtain r2 where r2: "to_iso_string (Some (D * ms_per_day - tz_offset w)) =
      Inr (iso_year (fst ym2) @ ''-'' @ pad_int 2 (snd ym2) @ r2)"
    using to_iso_string_civil [OF c2] by blast
  have t1: "take 7 (iso_year yu @ ''-'' @ pad_int 2 mu @ r1) = month_token (yu, mu)"
    using u iu by (intro take_month_token) simp_all
  have b: "0 \<le> fst ym2" "fst ym2 \<le> 9999" "1 \<le> snd ym2" "snd ym2 \<le> 12"
    using Yb n il unfolding ym2_def by auto
  have t2: "take 7 (iso_year (fst ym2) @ ''-'' @ pad_int 2 (snd ym2) @ r2) = month_token (fst ym2, snd ym2)"
    using b by (intro take_month_token)
  have "month_token (fst ym2, snd ym2) =
      (if 0 < tz_offset w then month_token (full_year y, m) else month_token (next_month (full_year y, m)))"
    by (simp add: ym2_def nm Y_def [symmetric])
  then show ?thesis
    by (simp only: month_tokens_def clip r1 bindE_Inr lym prod.case ld r2 t1 t2)
qed

lemma utc_month_not_next:
  assumes "0 < tz_offset w"
    and u: "civil_from_days (now w div ms_per_day) = (yu, mu, du)"
    and l: "civil_from_days ((now w + tz_offset w) div ms_per_day) = (y, m, d)"
  shows "(yu, mu) \<noteq> next_month (y, m)"
proof
  assume eq: "(yu, mu) = next_month (y, m)"
  have "now w div ms_per_day \<le> (now w + tz_offset w) div ms_per_day"
    using assms(1) by (intro zdiv_mono1) (simp_all add: ms_per_day_def)
  moreover have "valid_date yu mu du" "days_from_civil yu mu du = now w div ms_per_day"
    using civil_from_days_inverse [OF u] by simp_all
  moreover have "valid_date y m d" "days_from_civil y m d = (now w + tz_offset w) div ms_per_day"
    using civil_from_days_inverse [OF l] by simp_all
  ultimately show False
    using before_next_month [of yu mu du] before_next_month [of y m d] eq
    by (metis fst_conv snd_conv leD order.strict_trans2 order_trans)
qed

lemma month_tokens_utc:
  assumes "tz_offset w = 0" and "civil_from_days (now w div ms_per_day) = (y, m, d)"
    and "0 \<le> y" "y < 9999"
  shows "month_tokens w = Inr (month_token (y, m), month_token (next_month (full_year y, m)))"
  using month_tokens_local [of w y m d y m d] assms by (simp add: ms_per_day_def)

lemma placeholder_response_utc:
  assumes "civil_from_days (now w div ms_per_day) = (y, m, d)" "0 \<le> y" "y < 9999"
  shows "\<exists>r. placeholder_response w = Inr r"
proof -
  have z: "-9999999 < now w div ms_per_day" "now w div ms_per_day < 9999999"
    using days_from_civil_range [of y m d] civil_from_days_inverse [OF assms(1)] assms(2,3)
    by (auto dest: valid_date_bounds)
  have "(now w + 35 * 24 * 60 * 60 * 1000) div ms_per_day = now w div ms_per_day + 35"
    using div_mult_self1 [of ms_per_day "now w" 35] by (simp add: ms_per_day_def)
  then have "time_clip (now w + 35 * 24 * 60 * 60 * 1000) = Some (now w + 35 * 24 * 60 * 60 * 1000)"
    using z by (intro time_clip_day) simp_all
  then show ?thesis
    using to_iso_string_Some by (auto simp: placeholder_response_def bindE_eq_Inr_iff)
qed

text \<open>C25: the availability handler answers 500 only when printing a date throws (a clock outside the range of Date), with the RangeError message and no request sent: upstream failures, unparseable bodies and non-array answers never reach the outer catch.\<close>

theorem get_availability_500_only_invalid_date:
  assumes "statusCode (fst (get_availability w ev)) = 500"
  shows "snd (get_availability w ev) = [] \<and>
    (month_tokens w = Inl (RangeError ''Invalid time value'') \<or>
     placeholder_response w = Inl (RangeError ''Invalid time value'')) \<and>
    resp_body (fst (get_availability w ev)) = JsonBody (JObj [(''error'', JStr ''Invalid time value'')])"
  using assms
  by (auto simp: get_availability_def availability_try_def Let_def json_response_def results_response_def
      dest: month_tokens_Inl placeholder_response_Inl placeholder_response_status
      split: if_splits sum.splits prod.splits)

text \<open>C7: when the function runs in UTC with a clock in the years 0 to 9998, the availability handler (with an appointment type and credentials) queries exactly the month of now and then the calendar month after the month of now in the year new Date reads, as YYYY-MM, December rolling over to January of the next year; for the years 100 to 9998 that is the month after now, for the years 0 to 99 (read by new Date as 1900 + y) it is the following month of the year 19yy.\<close>

theorem get_availability_utc_months:
  assumes "httpMethod ev \<noteq> ''OPTIONS''" and "js_truthy (appointment_type_id (query_params ev))"
    and "has_credentials w ''ACUITY_USER'' ''ACUITY_KEY''"
    and "tz_offset w = 0" and "civil_from_days (now w div ms_per_day) = (y, m, d)"
    and "0 \<le> y" and "y < 9999"
  shows "snd (get_availability w ev) =
    [month_request w ev (month_token (y, m)), month_request w ev (month_token (next_month (full_year y, m)))]"
  using assms month_tokens_utc [OF assms(4-7)]
  by (simp add: get_availability_def availability_try_def has_credentials_def Let_def)

text \<open>C8: in UTC with a clock in the years 0 to 9998 the availability handler never answers 500, whatever the event, the credentials and the upstream do.\<close>

theorem get_availability_utc_never_500:
  assumes "tz_offset w = 0" and "civil_from_days (now w div ms_per_day) = (y, m, d)"
    and "0 \<le> y" and "y < 9999"
  shows "statusCode (fst (get_availability w ev)) \<noteq> 500"
  using month_tokens_utc [OF assms] placeholder_response_utc [OF assms(2-4)]
  by (auto simp: get_availability_def availability_try_def Let_def json_response_def results_response_def
      dest: placeholder_response_status split: if_splits sum.splits prod.splits)

lemma get_availability_sent:
  assumes "r \<in> set (snd (get_availability w ev))"
  shows "has_credentials w ''ACUITY_USER'' ''ACUITY_KEY'' \<and> (\<exists>url. r = availability_request (avail_auth w) url)"
  using assms
  by (auto simp: get_availability_def availability_try_def has_credentials_def Let_def
      split: if_splits sum.splits prod.splits)

text \<open>C26: in any zone ahead of UTC (by less than a day), for every clock in the years 0 to 9998, the availability handler queries the UTC month of now and then the local current month (its year read by new Date, 19yy for the years 0 to 99), and never the month after the local current month: nextMonth, local midnight of the 1st of the next month printed in UTC, is the last day of the current month.\<close>

theorem get_availability_east_skips_next_month:
  assumes "httpMethod ev \<noteq> ''OPTIONS''" and "js_truthy (appointment_type_id (query_params ev))"
    and "has_credentials w ''ACUITY_USER'' ''ACUITY_KEY''"
    and "0 < tz_offset w" and "tz_offset w < ms_per_day"
    and "civil_from_days (now w div ms_per_day) = (yu, mu, du)" and "0 \<le> yu" and "yu \<le> 9999"
    and "civil_from_days ((now w + tz_offset w) div ms_per_day) = (y, m, d)" and "0 \<le> y" and "y < 9999"
  shows "snd (get_availability w ev) =
      [month_request w ev (month_token (yu, mu)), month_request w ev (month_token (full_year y, m))] \<and>
    month_token (next_month (y, m)) \<notin> {month_token (yu, mu), month_token (full_year y, m)}"
proof
  have "-ms_per_day < tz_offset w"
    using assms(4) by (simp add: ms_per_day_def)
  then have "month_tokens w = Inr (month_token (yu, mu), month_token (full_year y, m))"
    using month_tokens_local [OF _ assms(5-11)] assms(4) by simp
  with assms(1-3) show "snd (get_availability w ev) =
      [month_request w ev (month_token (yu, mu)), month_request w ev (month_token (full_year y, m))]"
    by (simp add: get_availability_def availability_try_def has_credentials_def Let_def)
next
  obtain y2 m2 where nm: "next_month (y, m) = (y2, m2)"
    by (cases "next_month (y, m)")
  have m: "1 \<le> m" "m \<le> 12" "1 \<le> mu" "mu \<le> 12"
    using civil_from_days_inverse [OF assms(9)] civil_from_days_inverse [OF assms(6)] valid_date_bounds
    by auto
  note n = next_month_parts [OF m(1,2) nm]
  have "(yu, mu) \<noteq> (y2, m2)"
    using utc_month_not_next [OF assms(4,6,9)] nm by simp
  moreover have "(full_year y, m) \<noteq> (y2, m2)"
    using nm assms(10) by (auto simp: next_month_def split: if_splits)
  moreover have "0 \<le> full_year y" "full_year y \<le> 9999"
    using assms(10,11) by auto
  ultimately show "month_token (next_month (y, m)) \<notin> {month_token (yu, mu), month_token (full_year y, m)}"
    using month_token_inj [of y2 m2 yu mu] month_token_inj [of y2 m2 "full_year y" m] n m assms(7,8,10,11)
    by (auto simp: nm)
qed

text \<open>C27: in UTC and any zone behind it (by less than a day), for every clock in the years 0 to 9998, the availability handler queries the UTC month of now and then the month after the local current month (its year read by new Date, 19yy for the years 0 to 99); in the last hours of a local month the UTC month is already the next one, so both queries name the same month.\<close>

theorem get_availability_west_months:
  assumes "httpMethod ev \<noteq> ''OPTIONS''" and "js_truthy (appointment_type_id (query_params ev))"
    and "has_credentials w ''ACUITY_USER'' ''ACUITY_KEY''"
    and "-ms_per_day < tz_offset w" and "tz_offset w \<le> 0"
    and "civil_from_days (now w div ms_per_day) = (yu, mu, du)" and "0 \<le> yu" and "yu \<le> 9999"
    and "civil_from_days ((now w + tz_offset w) div ms_per_day) = (y, m, d)" and "0 \<le> y" and "y < 9999"
  shows "snd (get_availability w ev) =
      [month_request w ev (month_token (yu, mu)), month_request w ev (month_token (next_month (full_year y, m)))]"
proof -
  have "tz_offset w < ms_per_day"
    using assms(5) by (simp add: ms_per_day_def)
  then have "month_tokens w = Inr (month_token (yu, mu), month_token (next_month (full_year y, m)))"
    using month_tokens_local [OF assms(4) _ assms(6-11)] assms(5) by simp
  with assms(1-3) show ?thesis
    by (simp add: get_availability_def availability_try_def has_credentials_def Let_def)
qed

text \<open>C10: every request the availability handler sends carries an Authorization header which, read as HTTP Basic credentials, gives back exactly ACUITY_USER and ACUITY_KEY, provided the user id contains no colon.\<close>

theorem get_availability_credentials:
  assumes "env w ''ACUITY_USER'' = Some u" and "env w ''ACUITY_KEY'' = Some k"
    and "CHR '':'' \<notin> set u" and "r \<in> set (snd (get_availability w ev))"
  shows "\<exists>h. map_of (req_headers r) ''Authorization'' = Some h \<and> parse_basic h = Some (u, k)"
proof -
  obtain url where "r = availability_request (avail_auth w) url"
    using get_availability_sent [OF assms(4)] by blast
  then show ?thesis
    using assms(1-3) parse_basic_auth [of u k]
    by (simp add: availability_request_def env_val_def opt_str_def)
qed

text \<open>C30: the availability handler's status is always 200, 400 or 500.\<close>

theorem get_availability_status:
  "statusCode (fst (get_availability w ev)) \<in> {200, 400, 500}"
  by (auto simp: get_availability_def availability_try_def Let_def json_response_def results_response_def
      dest: placeholder_response_status split: if_splits sum.splits prod.splits)

text \<open>C32: every method other than OPTIONS is answered by the availability handler as a GET is.\<close>

theorem get_availability_ignores_method:
  "m \<noteq> ''OPTIONS'' \<Longrightarrow> get_availability w (ev\<lparr>httpMethod := m\<rparr>) = get_availability w (ev\<lparr>httpMethod := ''GET''\<rparr>)"
  by (simp add: get_availability_def availability_try_def query_params_def)

text \<open>The preflight: an OPTIONS request gets 200 with no body and the GET/OPTIONS CORS headers, and nothing is sent.\<close>

lemma get_availability_preflight:
  "get_availability w (ev\<lparr>httpMethod := ''OPTIONS''\<rparr>) =
     (\<lparr>statusCode = 200, headers = availability_headers, resp_body = NoBody\<rparr>, [])"
  by (simp add: get_availability_def)

text \<open>C38: every response of the availability handler, on every path (preflight, 400, placeholder, debug, results, 500), carries exactly the availability CORS headers.\<close>

theorem get_availability_cors:
  "headers (fst (get_availability w ev)) = availability_headers"
  by (auto simp: get_availability_def availability_try_def placeholder_response_def json_response_def
      results_response_def Let_def bindE_eq_Inr_iff split: sum.splits prod.splits if_splits)

text \<open>C40: the final answer of the availability handler, which tests allResults.length > 0 before slicing, equals the branch-free answer allResults.slice(0, 12): the test is redundant.\<close>

theorem results_response_take:
  "results_response acc = json_response 200 availability_headers (JArr (take 12 (allResults acc)))"
  by (simp add: results_response_def)

lemma availability_try_body:
  assumes "availability_try w ev = Inr (r, rs)"
  shows "(\<exists>kvs. resp_body r = JsonBody (JObj kvs)) \<or> (\<exists>vs. resp_body r = JsonBody (JArr vs))"
  using assms
  by (auto simp: availability_try_def placeholder_response_def results_response_def debug_body_def
      json_response_def Let_def bindE_eq_Inr_iff split: if_splits sum.splits prod.splits)

lemma get_availability_compound_body:
  assumes "httpMethod ev \<noteq> ''OPTIONS''"
  shows "(\<exists>kvs. resp_body (fst (get_availability w ev)) = JsonBody (JObj kvs)) \<or>
         (\<exists>vs. resp_body (fst (get_availability w ev)) = JsonBody (JArr vs))"
  using assms availability_try_body [of w ev]
  by (auto simp: get_availability_def json_response_def split: sum.splits prod.splits)

text \<open>C14: every answer of the availability handler to a request other than OPTIONS has a body, and that body is a JSON text that reads back as an object or an array, on every path: missing id, placeholder, debug, slots and the catch block.\<close>

theorem get_availability_body_json:
  assumes "httpMethod ev \<noteq> ''OPTIONS''"
  shows "\<exists>t v. wire_body (resp_body (fst (get_availability w ev))) = Some t \<and> json_decode t = Some v \<and>
    ((\<exists>kvs. v = JObj kvs) \<or> (\<exists>vs. v = JArr vs))"
  using get_availability_compound_body [OF assms] wire_body_object wire_body_array by metis

lemma logged_slots_snoc:
  "logged_slots w i (rs @ [r]) = logged_slots w i rs @ query_slots w (fetch w (i + length rs) r)"
  by (induction rs arbitrary: i) simp_all

text \<open>C15: every accumulator the month queries can build from the empty one (any number of queries, any labels and months) has exactly one line of diagnostics per request sent, and its collected slots are the concatenation, in request order, of what each logged request contributed: the elements of a 2xx answer that parses to an array, nothing otherwise. Proved by rule induction on the reachability relation.\<close>

theorem acc_reachable_invariant:
  assumes "acc_reachable w acc"
  shows "length (debugInfo acc) = length (requests acc) \<and> allResults acc = logged_slots w 0 (requests acc)"
  using assms
proof (induction rule: acc_reachable.induct)
  case init
  then show ?case
    by simp
next
  case (query acc label auth tid month)
  then show ?case
    by (simp add: logged_slots_snoc)
qed

lemma get_availability_results_log:
  assumes "httpMethod ev \<noteq> ''OPTIONS''" and "js_truthy (appointment_type_id (query_params ev))"
    and "has_credentials w ''ACUITY_USER'' ''ACUITY_KEY''" and "month_tokens w = Inr (cur, nxt)"
    and "\<not> debug_requested (query_params ev)"
  shows "get_availability w ev =
     (json_response 200 availability_headers (JArr (take 12 (logged_slots w 0 (snd (get_availability w ev))))),
      snd (get_availability w ev))"
  using assms by (simp add: get_availability_def availability_try_def has_credentials_def Let_def
      results_response_def)

text \<open>C16: when the availability handler answers with slots (an id, credentials, valid month tokens, no debug), the text it sends reads back through JSON.parse as the first 12 of the slots that the requests it logged account for, in request order (logged_slots), undefined entries read as null: the answer on the wire refines the abstract 'first twelve slots of the sent queries'.\<close>

theorem get_availability_slots_wire:
  assumes "httpMethod ev \<noteq> ''OPTIONS''" and "js_truthy (appointment_type_id (query_params ev))"
    and "has_credentials w ''ACUITY_USER'' ''ACUITY_KEY''" and "month_tokens w = Inr (cur, nxt)"
    and "\<not> debug_requested (query_params ev)"
  shows "\<exists>t. wire_body (resp_body (fst (get_availability w ev))) = Some t \<and>
    json_decode t = Some (JArr (map (\<lambda>v. if v = JUndefined then JNull else json_norm v)
                                 (take 12 (logged_slots w 0 (snd (get_availability w ev))))))"
proof -
  let ?vs = "take 12 (logged_slots w 0 (snd (get_availability w ev)))"
  have "resp_body (fst (get_availability w ev)) = JsonBody (JArr ?vs)"
    using get_availability_results_log [OF assms] by (metis fst_conv json_response_def response.select_convs(3))
  then show ?thesis
    using wire_body_json [of "JArr ?vs"] by simp
qed

lemma month_request_inj:
  "month_request w ev a = month_request w ev b \<longleftrightarrow> a = b"
  by (simp add: availability_request_def availability_url_def)

text \<open>C19: for any zone offset within a day and any clock in years 0 to 9998, the availability handler asks twice for the same month exactly when, east of UTC, the UTC month equals the local month of the year new Date reads (nearly always from year 100 on), and, at or west of UTC, the UTC month is the month after that local month (the last hours of a local month); in the years 0 to 99, read as 19yy, the two never coincide.\<close>

theorem get_availability_same_month:
  assumes "httpMethod ev \<noteq> ''OPTIONS''" and "js_truthy (appointment_type_id (query_params ev))"
    and "has_credentials w ''ACUITY_USER'' ''ACUITY_KEY''"
    and "-ms_per_day < tz_offset w" and "tz_offset w < ms_per_day"
    and "civil_from_days (now w div ms_per_day) = (yu, mu, du)" and "0 \<le> yu" and "yu \<le> 9999"
    and "civil_from_days ((now w + tz_offset w) div ms_per_day) = (y, m, d)" and "0 \<le> y" and "y < 9999"
  shows "(\<exists>r. snd (get_availability w ev) = [r, r]) \<longleftrightarrow>
    (if 0 < tz_offset w then (yu, mu) = (full_year y, m) else (yu, mu) = next_month (full_year y, m))"
proof -
  obtain Y where Y: "full_year y = Y"
    by simp
  have fy: "0 \<le> Y" "Y < 9999"
    using assms(10,11) Y by auto
  obtain y2 m2 where nm: "next_month (Y, m) = (y2, m2)"
    by (cases "next_month (Y, m)")
  have m: "1 \<le> m" "m \<le> 12" "1 \<le> mu" "mu \<le> 12"
    using civil_from_days_inverse [OF assms(9)] civil_from_days_inverse [OF assms(6)] valid_date_bounds
    by auto
  note n = next_month_parts [OF m(1,2) nm]
  define tok2 where "tok2 = (if 0 < tz_offset w then month_token (Y, m) else month_token (next_month (Y, m)))"
  have "month_tokens w = Inr (month_token (yu, mu), tok2)"
    unfolding tok2_def Y [symmetric] by (rule month_tokens_local [OF assms(4-11)])
  then have log: "snd (get_availability w ev) = [month_request w ev (month_token (yu, mu)), month_request w ev tok2]"
    using assms(1-3) by (simp add: get_availability_def availability_try_def has_credentials_def Let_def)
  have "month_token (yu, mu) = tok2 \<longleftrightarrow>
      (if 0 < tz_offset w then (yu, mu) = (Y, m) else (yu, mu) = next_month (Y, m))"
    unfolding tok2_def nm
    using month_token_inj [of yu mu Y m] month_token_inj [of yu mu y2 m2] m n fy assms(7,8) by auto
  then show ?thesis
    unfolding Y using log month_request_inj by auto
qed

lemma get_availability_debug_body:
  assumes "httpMethod ev \<noteq> ''OPTIONS''" and "js_truthy (appointment_type_id (query_params ev))"
    and "has_credentials w ''ACUITY_USER'' ''ACUITY_KEY''" and "month_tokens w = Inr (cur, nxt)"
    and "debug_requested (query_params ev)"
  shows "\<exists>acc. resp_body (fst (get_availability w ev)) =
      JsonBody (debug_body (appointment_type_id (query_params ev)) (env_val w ''ACUITY_USER'') (env_val w ''ACUITY_KEY'') acc) \<and>
    allResults acc = logged_slots w 0 (snd (get_availability w ev))"
proof -
  let ?tid = "js_to_string (appointment_type_id (query_params ev))"
  let ?acc2 = "month_query w ''Next month'' (avail_auth w) ?tid nxt
                 (month_query w ''Current month'' (avail_auth w) ?tid cur
                   \<lparr>allResults = [], debugInfo = [], requests = []\<rparr>)"
  show ?thesis
    using assms
    by (intro exI [of _ ?acc2])
      (simp add: get_availability_def availability_try_def has_credentials_def Let_def json_response_def)
qed

lemma debug_keys_plain:
  "distinct [''appointmentTypeId'', ''userId'', ''apiKey'', ''debugInfo'', ''totalResults'', ''sampleResults''] \<and>
   (\<forall>k \<in> set [''appointmentTypeId'', ''userId'', ''apiKey'', ''debugInfo'', ''totalResults'', ''sampleResults''].
      \<not> is_array_key k)"
  by code_simp

text \<open>C20: in debug mode the text the availability handler sends reads back as an object with exactly the keys appointmentTypeId, userId, apiKey, debugInfo, totalResults and sampleResults in this order, none dropped, and its totalResults is the number of slots the logged requests account for.\<close>

theorem get_availability_debug_wire:
  assumes "httpMethod ev \<noteq> ''OPTIONS''" and "js_truthy (appointment_type_id (query_params ev))"
    and "has_credentials w ''ACUITY_USER'' ''ACUITY_KEY''" and "month_tokens w = Inr (cur, nxt)"
    and "debug_requested (query_params ev)"
  shows "\<exists>t kvs. wire_body (resp_body (fst (get_availability w ev))) = Some t \<and> json_decode t = Some (JObj kvs) \<and>
    map fst kvs = [''appointmentTypeId'', ''userId'', ''apiKey'', ''debugInfo'', ''totalResults'', ''sampleResults''] \<and>
    map_of kvs ''totalResults'' = Some (JNum (int (length (logged_slots w 0 (snd (get_availability w ev))))))"
proof -
  obtain acc where body: "resp_body (fst (get_availability w ev)) =
      JsonBody (debug_body (appointment_type_id (query_params ev)) (env_val w ''ACUITY_USER'') (env_val w ''ACUITY_KEY'') acc)"
    and slots: "allResults acc = logged_slots w 0 (snd (get_availability w ev))"
    using get_availability_debug_body [OF assms] by blast
  let ?tid = "appointment_type_id (query_params ev)"
  let ?kvs = "[(''appointmentTypeId'', ?tid),
           (''userId'', JStr (if js_truthy (env_val w ''ACUITY_USER'') then ''SET'' else ''MISSING'')),
           (''apiKey'', JStr (if js_truthy (env_val w ''ACUITY_KEY'') then ''SET'' else ''MISSING'')),
           (''debugInfo'', JArr (map JStr (debugInfo acc))),
           (''totalResults'', JNum (int (length (allResults acc)))),
           (''sampleResults'', JArr (take 3 (allResults acc)))]"
  have tid: "?tid \<noteq> JUndefined"
    using assms(2) by auto
  have norm: "json_norm (JObj ?kvs) = JObj (concat (map (\<lambda>(k, v). if v = JUndefined then [] else [(k, json_norm v)]) ?kvs))"
    using debug_keys_plain by (intro json_norm_plain) simp_all
  obtain t where t: "wire_body (JsonBody (JObj ?kvs)) = Some t" "json_decode t = Some (json_norm (JObj ?kvs))"
    using wire_body_json [of "JObj ?kvs"] by auto
  show ?thesis
    using body slots t norm tid
    by (simp add: debug_body_def del: json_norm.simps(2))
qed

text \<open>C34: when both monthly upstream calls succeed and answer with the JSON text of arrays xs and ys, which the runtime's parser reads, the availability response body is JSON text that parses back to the first twelve of the normalised xs followed by ys.\<close>

theorem get_availability_upstream_text:
  assumes "httpMethod ev \<noteq> ''OPTIONS''" and "js_truthy (appointment_type_id (query_params ev))"
    and "has_credentials w ''ACUITY_USER'' ''ACUITY_KEY''" and "month_tokens w = Inr (cur, nxt)"
    and "\<not> debug_requested (query_params ev)" and "json_parse w = json_parse_text"
    and "fetch w 0 (month_request w ev cur) = Received st1 (Some t1)" and "resp_ok st1"
    and "json_stringify (JArr xs) = Some t1"
    and "fetch w 1 (month_request w ev nxt) = Received st2 (Some t2)" and "resp_ok st2"
    and "json_stringify (JArr ys) = Some t2"
  shows "\<exists>t. wire_body (resp_body (fst (get_availability w ev))) = Some t \<and>
    json_decode t = Some (JArr (map (\<lambda>v. if v = JUndefined then JNull else json_norm v)
      (take 12 (map (\<lambda>v. if v = JUndefined then JNull else json_norm v) (xs @ ys)))))"
proof -
  let ?en = "\<lambda>v. if v = JUndefined then JNull else json_norm v"
  have log: "snd (get_availability w ev) = [month_request w ev cur, month_request w ev nxt]"
    using assms(1-4) by (simp add: get_availability_def availability_try_def has_credentials_def Let_def)
  have p1: "json_parse w t1 = Inr (JArr (map ?en xs))" and p2: "json_parse w t2 = Inr (JArr (map ?en ys))"
    using json_parse_text_stringify [OF assms(9)] json_parse_text_stringify [OF assms(12)] assms(6) by simp_all
  have "logged_slots w 0 (snd (get_availability w ev)) = map ?en (xs @ ys)"
    using log assms(7,8,10,11) p1 p2 by (simp add: query_slots_def resp_json_def)
  then have "resp_body (fst (get_availability w ev)) = JsonBody (JArr (take 12 (map ?en (xs @ ys))))"
    using get_availability_results_log [OF assms(1-5)] by (metis fst_conv json_response_def response.select_convs(3))
  then show ?thesis
    using wire_body_json [of "JArr (take 12 (map ?en (xs @ ys)))"] by simp
qed

end
