(* ===== verification/Examples.thy ===== *)
theory Examples
  imports BookAppointment GetAvailability
begin

text \<open>
  Concrete inputs on which the hypotheses of the handler theorems hold: a
  world with credentials set, a table standing for the runtime's
  \<^verbatim>\<open>JSON.parse\<close> on the bodies used here, and one event per branch. Each
  witness applies a theorem at these inputs and evaluates the handler by
  simplification.
\<close>

definition demo_booking :: jsval where
  "demo_booking =
     JObj [(''appointmentTypeID'', JNum 7), (''datetime'', JStr ''2025-03-01T10:00:00Z''),
           (''firstName'', JStr ''Ada''), (''lastName'', JStr ''King''),
           (''email'', JStr ''ada@example.org'')]"

definition demo_slot :: "int \<Rightarrow> jsval" where
  "demo_slot i = JObj [(''time'', JNum i)]"

definition demo_parse :: "string \<Rightarrow> js_error + jsval" where
  "demo_parse s =
     (if s = ''{}'' then Inr (JObj [])
      else if s = ''five'' then Inr (JArr (map demo_slot [1, 2, 3, 4, 5]))
      else if s = ''ten'' then Inr (JArr (map demo_slot [6, 7, 8, 9, 10, 11, 12, 13, 14, 15]))
      else if s = ''three'' then Inr (JArr (map demo_slot [1, 2, 3]))
      else if s = ''null'' then Inr JNull
      else if s = ''booking'' then Inr demo_booking
      else if s = ''appointment'' then Inr (JObj [(''id'', JNum 123)])
      else Inl (SyntaxError ''Unexpected token''))"

definition demo_env :: "string \<rightharpoonup> string" where
  "demo_env = [''ACUITY_USER_ID'' \<mapsto> ''u'', ''ACUITY_API_KEY'' \<mapsto> ''k'',
               ''ACUITY_USER'' \<mapsto> ''u'', ''ACUITY_KEY'' \<mapsto> ''k'']"

definition demo_world :: "(nat \<Rightarrow> http_request \<Rightarrow> fetch_outcome) \<Rightarrow> world" where
  "demo_world f = \<lparr>env = demo_env, now = 1735689600000, tz_offset = 0, fetch = f,
                    json_parse = demo_parse\<rparr>"

text \<open>The same world at 2024-12-15T12:00:00Z, a month whose successor is in the next year.\<close>

definition december_world :: world where
  "december_world = (demo_world (\<lambda>_ _. Received 200 None))\<lparr>now := 1734264000000\<rparr>"

text \<open>
  The same world on 0050-03-15 (UTC). \<^verbatim>\<open>new Date(50, 3, 1)\<close> reads the
  year as 1950, so the next-month token is in 1950.
\<close>

definition year50_world :: world where
  "year50_world = (demo_world (\<lambda>_ _. Received 200 None))\<lparr>now := days_from_civil 50 3 15 * ms_per_day\<rparr>"

text \<open>
  The same world in a zone two hours ahead of UTC at 2025-01-15T12:00:00Z,
  and five hours behind UTC at 2025-02-01T04:30:00Z, which is still
  2025-01-31 locally.
\<close>

definition east_world :: world where
  "east_world = (demo_world (\<lambda>_ _. Received 200 None))\<lparr>now := 1736942400000, tz_offset := 7200000\<rparr>"

definition west_world :: world where
  "west_world = (demo_world (\<lambda>_ _. Received 200 None))\<lparr>now := 1738384200000, tz_offset := -18000000\<rparr>"

definition post_event :: "string \<Rightarrow> event" where
  "post_event b = \<lparr>httpMethod = ''POST'', event_body = Some b, queryStringParameters = None\<rparr>"

definition demo_payload :: jsval where
  "demo_payload =
     JObj [(''appointmentTypeID'', JNum 7), (''datetime'', JStr ''2025-03-01T10:00:00Z''),
           (''firstName'', JStr ''Ada''), (''lastName'', JStr ''King''),
           (''email'', JStr ''ada@example.org''), (''phone'', JStr []), (''notes'', JStr [])]"

definition avail_event :: "string \<Rightarrow> (string \<rightharpoonup> string) \<Rightarrow> event" where
  "avail_event m q = \<lparr>httpMethod = m, event_body = None, queryStringParameters = Some q\<rparr>"

text \<open>Upstream answers: 5 then 10 slots; a network failure then 3 slots.\<close>

definition five_then_ten :: "nat \<Rightarrow> http_request \<Rightarrow> fetch_outcome" where
  "five_then_ten n r = (if n = 0 then Received 200 (Some ''five'') else Received 200 (Some ''ten''))"

definition fail_then_three :: "nat \<Rightarrow> http_request \<Rightarrow> fetch_outcome" where
  "fail_then_three n r =
     (if n = 0 then Rejected (TypeError ''fetch failed'') else Received 200 (Some ''three''))"

text \<open>An upstream that answers both months with JSON text: 3 slots, then 2.\<close>

definition text_slots :: "nat \<Rightarrow> http_request \<Rightarrow> fetch_outcome" where
  "text_slots n r =
     (if n = 0 then Received 200 (json_stringify (JArr (map demo_slot [1, 2, 3])))
      else Received 200 (json_stringify (JArr (map demo_slot [4, 5]))))"

lemmas demo_simps = demo_booking_def demo_parse_def demo_env_def demo_world_def post_event_def
  env_val_def opt_str_def has_credentials_def body_text_def avail_event_def query_params_def
  appointment_type_id_def js_or_def debug_requested_def

theorem book_appointment_bad_method_witness:
  "''GET'' \<noteq> ''OPTIONS'' \<and> ''GET'' \<noteq> ''POST'' \<and>
   statusCode (fst (book_appointment (demo_world (\<lambda>_ _. Received 200 None))
     ((post_event ''{}'')\<lparr>httpMethod := ''GET''\<rparr>))) = 405"
  using book_appointment_bad_method [of "''GET''" "demo_world (\<lambda>_ _. Received 200 None)" "post_event ''{}''"]
  by simp

theorem book_appointment_no_credentials_witness:
  "\<not> has_credentials ((demo_world (\<lambda>_ _. Received 200 None))\<lparr>env := Map.empty\<rparr>) ''ACUITY_USER_ID'' ''ACUITY_API_KEY'' \<and>
   statusCode (fst (book_appointment ((demo_world (\<lambda>_ _. Received 200 None))\<lparr>env := Map.empty\<rparr>)
     ((post_event ''{}'')\<lparr>httpMethod := ''POST''\<rparr>))) = 500"
proof -
  have h: "\<not> has_credentials ((demo_world (\<lambda>_ _. Received 200 None))\<lparr>env := Map.empty\<rparr>) ''ACUITY_USER_ID'' ''ACUITY_API_KEY''"
    by (simp add: demo_simps)
  show ?thesis
    using h book_appointment_no_credentials [OF h, of "post_event ''{}''"] by (simp add: json_response_def)
qed

theorem book_appointment_missing_witness:
  "js_split '', '' (js_join '', '' required_fields) = required_fields \<and>
   fst (book_appointment (demo_world (\<lambda>_ _. Received 200 None)) (post_event ''{}'')) =
     json_response 400 booking_headers
       (JObj [(''error'', JStr (''Missing fields: '' @ js_join '', '' required_fields))])"
proof -
  have "filter (\<lambda>k. \<not> js_truthy (optional_prop (JObj []) k)) required_fields = required_fields"
    by (simp add: required_fields_def obj_get_def)
  then show ?thesis
    using book_appointment_missing [of "post_event ''{}''" "demo_world (\<lambda>_ _. Received 200 None)" "JObj []" required_fields]
    by (simp add: demo_simps required_fields_def)
qed

lemma demo_booking_valid:
  "\<not> is_nullish demo_booking \<and> list_all (\<lambda>k. js_truthy (optional_prop demo_booking k)) required_fields \<and>
   booking_payload demo_booking = Inr demo_payload"
  by (simp add: demo_booking_def demo_payload_def required_fields_def booking_payload_def obj_get_def)

theorem book_appointment_success_witness:
  "book_appointment (demo_world (\<lambda>_ _. Received 201 (Some ''appointment''))) (post_event ''booking'') =
     (json_response 200 booking_headers
        (JObj [(''success'', JBool True), (''appointmentId'', JNum 123),
               (''data'', JObj [(''id'', JNum 123)])]),
      [booking_request (booking_auth (demo_world (\<lambda>_ _. Received 201 (Some ''appointment'')))) demo_payload])"
  using book_appointment_success [of "post_event ''booking''" "demo_world (\<lambda>_ _. Received 201 (Some ''appointment''))"
      demo_booking demo_payload _ 201 "''appointment''" "JObj [(''id'', JNum 123)]"] demo_booking_valid
  by (simp add: demo_simps resp_ok_def obj_get_def)

theorem book_appointment_upstream_failure_witness:
  "book_appointment (demo_world (\<lambda>_ _. Received 422 (Some ''slot taken''))) (post_event ''booking'') =
     (json_response 422 booking_headers
        (JObj [(''error'', JStr ''Booking failed''), (''message'', JStr ''slot taken'')]),
      [booking_request (booking_auth (demo_world (\<lambda>_ _. Received 422 (Some ''slot taken'')))) demo_payload])"
  using book_appointment_upstream_failure [of "post_event ''booking''" "demo_world (\<lambda>_ _. Received 422 (Some ''slot taken''))"
      demo_booking demo_payload _ 422 "Some ''slot taken''"] demo_booking_valid
  by (simp add: demo_simps resp_ok_def resp_text_def)

theorem book_appointment_request_validated_witness:
  "snd (book_appointment (demo_world (\<lambda>_ _. Received 201 (Some ''appointment''))) (post_event ''booking'')) \<noteq> [] \<and>
   has_credentials (demo_world (\<lambda>_ _. Received 201 (Some ''appointment''))) ''ACUITY_USER_ID'' ''ACUITY_API_KEY''"
proof -
  have h: "snd (book_appointment (demo_world (\<lambda>_ _. Received 201 (Some ''appointment''))) (post_event ''booking'')) \<noteq> []"
    using book_appointment_success_witness by simp
  show ?thesis using h book_appointment_request_validated [OF h] by simp
qed

theorem book_appointment_null_body_witness:
  "fst (book_appointment (demo_world (\<lambda>_ _. Received 200 None)) (post_event ''null'')) =
     internal_error (TypeError ''Cannot read properties of null (reading 'appointmentTypeID')'')"
  using book_appointment_null_body [of "post_event ''null''" "demo_world (\<lambda>_ _. Received 200 None)"]
  by (simp add: demo_simps read_error_def)

theorem book_appointment_parse_error_witness:
  "book_appointment (demo_world (\<lambda>_ _. Received 200 None)) (post_event ''{oops'') =
     (internal_error (SyntaxError ''Unexpected token''), [])"
  using book_appointment_parse_error [of "post_event ''{oops''" "demo_world (\<lambda>_ _. Received 200 None)"]
  by (simp add: demo_simps)

lemma demo_month_tokens_utc:
  "month_tokens (demo_world (\<lambda>_ _. Received 200 None)) = Inr (''2025-01'', ''2025-02'')"
  by code_simp

lemma year50_month_tokens: "month_tokens year50_world = Inr (''0050-03'', ''1950-04'')"
  by code_simp

lemma demo_month_tokens: "month_tokens (demo_world f) = Inr (''2025-01'', ''2025-02'')"
  using demo_month_tokens_utc month_tokens_cong [of "demo_world f" "demo_world (\<lambda>_ _. Received 200 None)"]
  by (simp add: demo_world_def)

theorem get_availability_missing_id_witness:
  "''GET'' \<noteq> ''OPTIONS'' \<and> \<not> js_truthy (appointment_type_id (query_params (avail_event ''GET'' Map.empty))) \<and>
   statusCode (fst (get_availability (demo_world (\<lambda>_ _. Received 200 None)) (avail_event ''GET'' Map.empty))) = 400"
  using get_availability_missing_id [of "avail_event ''GET'' Map.empty" "demo_world (\<lambda>_ _. Received 200 None)"]
  by (simp add: demo_simps json_response_def)

theorem get_availability_results_witness:
  "get_availability (demo_world five_then_ten) (avail_event ''GET'' [''appointmentTypeId'' \<mapsto> ''42'']) =
     (json_response 200 availability_headers (JArr (map demo_slot [1, 2, 3, 4, 5, 6, 7, 8, 9, 10, 11, 12])),
      [month_request (demo_world five_then_ten) (avail_event ''GET'' [''appointmentTypeId'' \<mapsto> ''42'']) ''2025-01'',
       month_request (demo_world five_then_ten) (avail_event ''GET'' [''appointmentTypeId'' \<mapsto> ''42'']) ''2025-02''])"
  using get_availability_results [of "avail_event ''GET'' [''appointmentTypeId'' \<mapsto> ''42'']"
      "demo_world five_then_ten" "''2025-01''" "''2025-02''"] demo_month_tokens
  by (simp add: demo_simps query_slots_def five_then_ten_def resp_ok_def resp_json_def)

theorem get_availability_queries_witness:
  "snd (get_availability (demo_world fail_then_three) (avail_event ''POST'' [''appointmentTypeID'' \<mapsto> ''42''])) =
     [month_request (demo_world fail_then_three) (avail_event ''POST'' [''appointmentTypeID'' \<mapsto> ''42'']) ''2025-01'',
      month_request (demo_world fail_then_three) (avail_event ''POST'' [''appointmentTypeID'' \<mapsto> ''42'']) ''2025-02''] \<and>
   fst (get_availability (demo_world fail_then_three) (avail_event ''POST'' [''appointmentTypeID'' \<mapsto> ''42''])) =
     json_response 200 availability_headers (JArr (map demo_slot [1, 2, 3]))"
proof
  show "snd (get_availability (demo_world fail_then_three) (avail_event ''POST'' [''appointmentTypeID'' \<mapsto> ''42''])) =
     [month_request (demo_world fail_then_three) (avail_event ''POST'' [''appointmentTypeID'' \<mapsto> ''42'']) ''2025-01'',
      month_request (demo_world fail_then_three) (avail_event ''POST'' [''appointmentTypeID'' \<mapsto> ''42'']) ''2025-02'']"
    using get_availability_queries [of "avail_event ''POST'' [''appointmentTypeID'' \<mapsto> ''42'']"
        "demo_world fail_then_three" "''2025-01''" "''2025-02''"] demo_month_tokens
    by (simp add: demo_simps)
  show "fst (get_availability (demo_world fail_then_three) (avail_event ''POST'' [''appointmentTypeID'' \<mapsto> ''42''])) =
     json_response 200 availability_headers (JArr (map demo_slot [1, 2, 3]))"
    using get_availability_results [of "avail_event ''POST'' [''appointmentTypeID'' \<mapsto> ''42'']"
        "demo_world fail_then_three" "''2025-01''" "''2025-02''"] demo_month_tokens
    by (simp add: demo_simps query_slots_def fail_then_three_def resp_ok_def resp_json_def)
qed

theorem get_availability_debug_witness:
  "\<exists>lines. length lines = 2 \<and>
   get_availability (demo_world five_then_ten) (avail_event ''GET'' [''appointmentTypeId'' \<mapsto> ''42'', ''debug'' \<mapsto> ''1'']) =
     (json_response 200 availability_headers
        (JObj [(''appointmentTypeId'', JStr ''42''), (''userId'', JStr ''SET''), (''apiKey'', JStr ''SET''),
               (''debugInfo'', JArr (map JStr lines)), (''totalResults'', JNum 15),
               (''sampleResults'', JArr (map demo_slot [1, 2, 3]))]),
      [month_request (demo_world five_then_ten) (avail_event ''GET'' [''appointmentTypeId'' \<mapsto> ''42'', ''debug'' \<mapsto> ''1'']) ''2025-01'',
       month_request (demo_world five_then_ten) (avail_event ''GET'' [''appointmentTypeId'' \<mapsto> ''42'', ''debug'' \<mapsto> ''1'']) ''2025-02''])"
  using get_availability_debug [of "avail_event ''GET'' [''appointmentTypeId'' \<mapsto> ''42'', ''debug'' \<mapsto> ''1'']"
      "demo_world five_then_ten" "''2025-01''" "''2025-02''"] demo_month_tokens
  by (simp add: demo_simps query_slots_def five_then_ten_def resp_ok_def resp_json_def)

theorem get_availability_placeholder_witness:
  "\<exists>t s. get_availability ((demo_world (\<lambda>_ _. Received 200 None))\<lparr>env := Map.empty\<rparr>)
             (avail_event ''GET'' [''appointmentTypeId'' \<mapsto> ''42'']) =
       (json_response 200 availability_headers
          (JArr [JObj [(''time'', JStr s),
                       (''debug'', JStr ''Missing ACUITY_USER or ACUITY_KEY environment variables'')]]), [])
     \<and> to_iso_string (Some t) = Inr s \<and> 1735689600000 + 34 * ms_per_day \<le> t \<and> t \<le> 1735689600000 + 36 * ms_per_day"
  using get_availability_placeholder [of "avail_event ''GET'' [''appointmentTypeId'' \<mapsto> ''42'']"
      "(demo_world (\<lambda>_ _. Received 200 None))\<lparr>env := Map.empty\<rparr>"]
  by (simp add: demo_simps ms_per_day_def max_time_value_def)

theorem get_availability_500_witness:
  "statusCode (fst (get_availability ((demo_world (\<lambda>_ _. Received 200 None))\<lparr>now := 9000000000000000\<rparr>)
      (avail_event ''GET'' [''appointmentTypeId'' \<mapsto> ''42'']))) = 500 \<and>
   month_tokens ((demo_world (\<lambda>_ _. Received 200 None))\<lparr>now := 9000000000000000\<rparr>) =
     Inl (RangeError ''Invalid time value'')"
proof -
  have h: "statusCode (fst (get_availability ((demo_world (\<lambda>_ _. Received 200 None))\<lparr>now := 9000000000000000\<rparr>)
      (avail_event ''GET'' [''appointmentTypeId'' \<mapsto> ''42'']))) = 500"
    by (simp add: demo_simps get_availability_def availability_try_def month_tokens_def time_clip_def
        max_time_value_def to_iso_string_def json_response_def)
  show ?thesis
    using h get_availability_500_only_invalid_date [OF h]
    by (simp add: demo_simps placeholder_response_def month_tokens_def time_clip_def
        max_time_value_def to_iso_string_def)
qed

theorem get_availability_ignores_method_witness:
  "''DELETE'' \<noteq> ''OPTIONS'' \<and>
   get_availability (demo_world five_then_ten) (avail_event ''DELETE'' [''appointmentTypeId'' \<mapsto> ''42'']) =
   get_availability (demo_world five_then_ten) (avail_event ''GET'' [''appointmentTypeId'' \<mapsto> ''42''])"
  using get_availability_ignores_method [of "''DELETE''" "demo_world five_then_ten"
      "avail_event ''GET'' [''appointmentTypeId'' \<mapsto> ''42'']"]
  by (simp add: avail_event_def)

lemma december_civil:
  "civil_from_days (now december_world div ms_per_day) = (2024, 12, 15)"
  by code_simp

lemma december_tokens:
  "month_token (2024, 12) = ''2024-12'' \<and> month_token (next_month (2024, 12)) = ''2025-01''"
  by code_simp

theorem get_availability_utc_months_witness:
  "tz_offset december_world = 0 \<and>
   snd (get_availability december_world (avail_event ''GET'' [''appointmentTypeId'' \<mapsto> ''42''])) =
     [month_request december_world (avail_event ''GET'' [''appointmentTypeId'' \<mapsto> ''42'']) ''2024-12'',
      month_request december_world (avail_event ''GET'' [''appointmentTypeId'' \<mapsto> ''42'']) ''2025-01'']"
  using get_availability_utc_months [OF _ _ _ _ december_civil,
      of "avail_event ''GET'' [''appointmentTypeId'' \<mapsto> ''42'']"] december_tokens
  by (simp add: demo_simps december_world_def)

theorem get_availability_utc_never_500_witness:
  "tz_offset december_world = 0 \<and>
   statusCode (fst (get_availability december_world (avail_event ''GET'' [''appointmentTypeId'' \<mapsto> ''42'']))) \<noteq> 500"
  using get_availability_utc_never_500 [OF _ december_civil,
      of "avail_event ''GET'' [''appointmentTypeId'' \<mapsto> ''42'']"]
  by (simp add: december_world_def demo_world_def)

text \<open>The booking the demo upstream accepts, and the request that carries it.\<close>

lemma demo_booking_sent:
  "snd (book_appointment (demo_world (\<lambda>_ _. Received 201 (Some ''appointment''))) (post_event ''booking'')) =
     [booking_request (booking_auth (demo_world (\<lambda>_ _. Received 201 (Some ''appointment'')))) demo_payload]"
  using book_appointment_forwarded [where ev = "post_event ''booking''"
      and w = "demo_world (\<lambda>_ _. Received 201 (Some ''appointment''))" and b = demo_booking and p = demo_payload
      and r = "booking_request (booking_auth (demo_world (\<lambda>_ _. Received 201 (Some ''appointment'')))) demo_payload"
      and st = 201 and ?txt = "Some ''appointment''"] demo_booking_valid
  by (simp add: demo_simps)

theorem book_appointment_credentials_witness:
  "booking_request (booking_auth (demo_world (\<lambda>_ _. Received 201 (Some ''appointment'')))) demo_payload
     \<in> set (snd (book_appointment (demo_world (\<lambda>_ _. Received 201 (Some ''appointment''))) (post_event ''booking''))) \<and>
   (\<exists>h. map_of (req_headers (booking_request (booking_auth (demo_world (\<lambda>_ _. Received 201 (Some ''appointment''))))
                   demo_payload)) ''Authorization'' = Some h \<and> parse_basic h = Some (''u'', ''k''))"
proof -
  note demo_booking_sent
  then show ?thesis
    using book_appointment_credentials [where w = "demo_world (\<lambda>_ _. Received 201 (Some ''appointment''))"
        and u = "''u''" and k = "''k''" and ev = "post_event ''booking''"
        and r = "booking_request (booking_auth (demo_world (\<lambda>_ _. Received 201 (Some ''appointment'')))) demo_payload"]
    by (simp add: demo_simps)
qed

theorem get_availability_credentials_witness:
  "month_request (demo_world (\<lambda>_ _. Received 200 None)) (avail_event ''GET'' [''appointmentTypeId'' \<mapsto> ''42'']) ''2025-01''
     \<in> set (snd (get_availability (demo_world (\<lambda>_ _. Received 200 None)) (avail_event ''GET'' [''appointmentTypeId'' \<mapsto> ''42'']))) \<and>
   (\<exists>h. map_of (req_headers (month_request (demo_world (\<lambda>_ _. Received 200 None))
                   (avail_event ''GET'' [''appointmentTypeId'' \<mapsto> ''42'']) ''2025-01'')) ''Authorization'' = Some h \<and>
        parse_basic h = Some (''u'', ''k''))"
proof -
  have "month_request (demo_world (\<lambda>_ _. Received 200 None)) (avail_event ''GET'' [''appointmentTypeId'' \<mapsto> ''42'']) ''2025-01''
     \<in> set (snd (get_availability (demo_world (\<lambda>_ _. Received 200 None)) (avail_event ''GET'' [''appointmentTypeId'' \<mapsto> ''42''])))"
    using demo_month_tokens
    by (simp add: demo_simps get_availability_def availability_try_def Let_def)
  then show ?thesis
    using get_availability_credentials [where w = "demo_world (\<lambda>_ _. Received 200 None)"
        and u = "''u''" and k = "''k''" and ev = "avail_event ''GET'' [''appointmentTypeId'' \<mapsto> ''42'']"
        and r = "month_request (demo_world (\<lambda>_ _. Received 200 None)) (avail_event ''GET'' [''appointmentTypeId'' \<mapsto> ''42'']) ''2025-01''"]
    by (simp add: demo_simps)
qed

lemma east_dates:
  "civil_from_days (now east_world div ms_per_day) = (2025, 1, 15) \<and>
   civil_from_days ((now east_world + tz_offset east_world) div ms_per_day) = (2025, 1, 15)"
  by code_simp

lemma west_dates:
  "civil_from_days (now west_world div ms_per_day) = (2025, 2, 1) \<and>
   civil_from_days ((now west_world + tz_offset west_world) div ms_per_day) = (2025, 1, 31)"
  by code_simp

lemma zone_tokens:
  "month_token (2025, 1) = ''2025-01'' \<and> month_token (2025, 2) = ''2025-02'' \<and>
   month_token (next_month (2025, 1)) = ''2025-02''"
  by code_simp

theorem get_availability_east_skips_next_month_witness:
  "snd (get_availability east_world (avail_event ''GET'' [''appointmentTypeId'' \<mapsto> ''42''])) =
     [month_request east_world (avail_event ''GET'' [''appointmentTypeId'' \<mapsto> ''42'']) ''2025-01'',
      month_request east_world (avail_event ''GET'' [''appointmentTypeId'' \<mapsto> ''42'']) ''2025-01''] \<and>
   ''2025-02'' \<notin> {''2025-01''}"
  using get_availability_east_skips_next_month [where ev = "avail_event ''GET'' [''appointmentTypeId'' \<mapsto> ''42'']"
      and w = east_world and yu = 2025 and mu = 1 and du = 15 and y = 2025 and m = 1 and d = 15]
    east_dates zone_tokens
  by (simp add: demo_simps east_world_def ms_per_day_def)

theorem get_availability_west_months_witness:
  "snd (get_availability west_world (avail_event ''GET'' [''appointmentTypeId'' \<mapsto> ''42''])) =
     [month_request west_world (avail_event ''GET'' [''appointmentTypeId'' \<mapsto> ''42'']) ''2025-02'',
      month_request west_world (avail_event ''GET'' [''appointmentTypeId'' \<mapsto> ''42'']) ''2025-02'']"
  using get_availability_west_months [where ev = "avail_event ''GET'' [''appointmentTypeId'' \<mapsto> ''42'']"
      and w = west_world and yu = 2025 and mu = 2 and du = 1 and y = 2025 and m = 1 and d = 31]
    west_dates zone_tokens
  by (simp add: demo_simps west_world_def ms_per_day_def)

theorem book_appointment_payload_wire_witness:
  "booking_request (booking_auth (demo_world (\<lambda>_ _. Received 201 (Some ''appointment'')))) demo_payload \<in> set (snd (book_appointment (demo_world (\<lambda>_ _. Received 201 (Some ''appointment''))) (post_event ''booking''))) \<and>
   (\<exists>p t kvs. req_body (booking_request (booking_auth (demo_world (\<lambda>_ _. Received 201 (Some ''appointment'')))) demo_payload) = Some p \<and>
      json_stringify p = Some t \<and> json_decode t = Some (JObj kvs) \<and>
      map fst kvs = [''appointmentTypeID'', ''datetime'', ''firstName'', ''lastName'', ''email'', ''phone'', ''notes''])"
  using book_appointment_payload_wire [where w = "demo_world (\<lambda>_ _. Received 201 (Some ''appointment''))" and ev = "post_event ''booking''"
      and r = "booking_request (booking_auth (demo_world (\<lambda>_ _. Received 201 (Some ''appointment'')))) demo_payload"] demo_booking_sent
  by simp

text \<open>
  An upstream that accepts the booking with an empty object: the body the
  client reads has no \<^verbatim>\<open>appointmentId\<close>.
\<close>

theorem booking_result_success_body_witness:
  "resp_ok 201 \<and> resp_json (demo_world (\<lambda>_ _. Received 201 (Some ''{}''))) (Some ''{}'') = Inr (JObj []) \<and>
   (\<exists>r t. booking_result (demo_world (\<lambda>_ _. Received 201 (Some ''{}''))) 201 (Some ''{}'') = Inr r \<and>
      wire_body (resp_body r) = Some t \<and>
      json_decode t = Some (JObj [(''success'', JBool True), (''data'', JObj [])]))"
  using booking_result_success_body [where w = "demo_world (\<lambda>_ _. Received 201 (Some ''{}''))"
      and st = 201 and ?txt = "Some ''{}''" and data = "JObj []"]
  by (simp add: demo_simps resp_ok_def resp_json_def obj_get_def own_keys_def)

theorem book_appointment_body_json_witness:
  "httpMethod (post_event ''{}'') = ''POST'' \<and>
   (\<exists>t kvs. wire_body (resp_body (fst (book_appointment (demo_world (\<lambda>_ _. Received 200 None)) (post_event ''{}'')))) = Some t \<and>
      json_decode t = Some (JObj kvs))"
  using book_appointment_body_json [of "post_event ''{}''" "demo_world (\<lambda>_ _. Received 200 None)"]
  by (simp add: post_event_def)

theorem get_availability_body_json_witness:
  "httpMethod (avail_event ''GET'' [''appointmentTypeId'' \<mapsto> ''42'']) \<noteq> ''OPTIONS'' \<and>
   (\<exists>t v. wire_body (resp_body (fst (get_availability (demo_world five_then_ten)
        (avail_event ''GET'' [''appointmentTypeId'' \<mapsto> ''42''])))) = Some t \<and>
      json_decode t = Some v \<and> ((\<exists>kvs. v = JObj kvs) \<or> (\<exists>vs. v = JArr vs)))"
  using get_availability_body_json [of "avail_event ''GET'' [''appointmentTypeId'' \<mapsto> ''42'']" "demo_world five_then_ten"]
  by (simp add: avail_event_def)

text \<open>
  The two queries of the handler against an upstream that fails the first
  month and returns three slots for the second.
\<close>

theorem acc_reachable_invariant_witness:
  "acc_reachable (demo_world fail_then_three) (month_query (demo_world fail_then_three) ''Next month'' ''a'' ''42'' ''2025-02'' (month_query (demo_world fail_then_three) ''Current month'' ''a'' ''42'' ''2025-01'' \<lparr>allResults = [], debugInfo = [], requests = []\<rparr>)) \<and>
   length (debugInfo (month_query (demo_world fail_then_three) ''Next month'' ''a'' ''42'' ''2025-02'' (month_query (demo_world fail_then_three) ''Current month'' ''a'' ''42'' ''2025-01'' \<lparr>allResults = [], debugInfo = [], requests = []\<rparr>))) = length (requests (month_query (demo_world fail_then_three) ''Next month'' ''a'' ''42'' ''2025-02'' (month_query (demo_world fail_then_three) ''Current month'' ''a'' ''42'' ''2025-01'' \<lparr>allResults = [], debugInfo = [], requests = []\<rparr>))) \<and>
   allResults (month_query (demo_world fail_then_three) ''Next month'' ''a'' ''42'' ''2025-02'' (month_query (demo_world fail_then_three) ''Current month'' ''a'' ''42'' ''2025-01'' \<lparr>allResults = [], debugInfo = [], requests = []\<rparr>)) = logged_slots (demo_world fail_then_three) 0 (requests (month_query (demo_world fail_then_three) ''Next month'' ''a'' ''42'' ''2025-02'' (month_query (demo_world fail_then_three) ''Current month'' ''a'' ''42'' ''2025-01'' \<lparr>allResults = [], debugInfo = [], requests = []\<rparr>)))"
proof -
  have r: "acc_reachable (demo_world fail_then_three) (month_query (demo_world fail_then_three) ''Next month'' ''a'' ''42'' ''2025-02'' (month_query (demo_world fail_then_three) ''Current month'' ''a'' ''42'' ''2025-01'' \<lparr>allResults = [], debugInfo = [], requests = []\<rparr>))"
    by (intro acc_reachable.query acc_reachable.init)
  show ?thesis
    using acc_reachable_invariant [OF r] r by simp
qed

theorem get_availability_slots_wire_witness:
  "httpMethod (avail_event ''GET'' [''appointmentTypeId'' \<mapsto> ''42'']) \<noteq> ''OPTIONS'' \<and> js_truthy (appointment_type_id (query_params (avail_event ''GET'' [''appointmentTypeId'' \<mapsto> ''42'']))) \<and>
   has_credentials (demo_world five_then_ten) ''ACUITY_USER'' ''ACUITY_KEY'' \<and> month_tokens (demo_world five_then_ten) = Inr (''2025-01'', ''2025-02'') \<and>
   \<not> debug_requested (query_params (avail_event ''GET'' [''appointmentTypeId'' \<mapsto> ''42''])) \<and>
   (\<exists>t. wire_body (resp_body (fst (get_availability (demo_world five_then_ten) (avail_event ''GET'' [''appointmentTypeId'' \<mapsto> ''42''])))) = Some t \<and>
      json_decode t = Some (JArr (map (\<lambda>v. if v = JUndefined then JNull else json_norm v)
        (take 12 (logged_slots (demo_world five_then_ten) 0 (snd (get_availability (demo_world five_then_ten) (avail_event ''GET'' [''appointmentTypeId'' \<mapsto> ''42'']))))))))"
  using get_availability_slots_wire [of "avail_event ''GET'' [''appointmentTypeId'' \<mapsto> ''42'']" "demo_world five_then_ten" "''2025-01''" "''2025-02''"] demo_month_tokens
  by (simp add: demo_simps)

text \<open>
  The demo world with the runtime's \<^verbatim>\<open>JSON.parse\<close> in place of the
  table: a body of two spaces, and the demo booking as a client sends it.
\<close>

theorem book_appointment_blank_body_witness:
  "httpMethod (post_event ''  '') = ''POST'' \<and> has_credentials ((demo_world (\<lambda>_ _. Received 201 (Some ''appointment'')))\<lparr>json_parse := json_parse_text\<rparr>) ''ACUITY_USER_ID'' ''ACUITY_API_KEY'' \<and>
   json_parse ((demo_world (\<lambda>_ _. Received 201 (Some ''appointment'')))\<lparr>json_parse := json_parse_text\<rparr>) = json_parse_text \<and> event_body (post_event ''  '') = Some ''  '' \<and> ''  '' \<noteq> [] \<and>
   book_appointment ((demo_world (\<lambda>_ _. Received 201 (Some ''appointment'')))\<lparr>json_parse := json_parse_text\<rparr>) (post_event ''  '') = (internal_error (SyntaxError ''Unexpected token in JSON''), [])"
proof -
  have ws: "\<forall>c \<in> set ''  ''. is_ws c"
    by (simp add: is_ws_def)
  show ?thesis
    using book_appointment_blank_body [of "post_event ''  ''" "(demo_world (\<lambda>_ _. Received 201 (Some ''appointment'')))\<lparr>json_parse := json_parse_text\<rparr>" "''  ''"] ws
    by (simp add: demo_simps)
qed

lemma demo_booking_text: "json_stringify demo_booking = Some (the (json_stringify demo_booking))"
  by (simp add: demo_booking_def)

lemma demo_booking_norm_valid:
  "\<not> is_nullish (json_norm demo_booking) \<and>
   list_all (\<lambda>k. js_truthy (optional_prop (json_norm demo_booking) k)) required_fields"
  by code_simp

theorem book_appointment_client_roundtrip_witness:
  "httpMethod (post_event (the (json_stringify demo_booking))) = ''POST'' \<and>
   has_credentials ((demo_world (\<lambda>_ _. Received 201 (Some ''appointment'')))\<lparr>json_parse := json_parse_text\<rparr>) ''ACUITY_USER_ID'' ''ACUITY_API_KEY'' \<and> json_parse ((demo_world (\<lambda>_ _. Received 201 (Some ''appointment'')))\<lparr>json_parse := json_parse_text\<rparr>) = json_parse_text \<and>
   json_stringify demo_booking = Some (the (json_stringify demo_booking)) \<and>
   event_body (post_event (the (json_stringify demo_booking))) = Some (the (json_stringify demo_booking)) \<and>
   snd (book_appointment ((demo_world (\<lambda>_ _. Received 201 (Some ''appointment'')))\<lparr>json_parse := json_parse_text\<rparr>) (post_event (the (json_stringify demo_booking)))) \<noteq> []"
  using book_appointment_client_roundtrip [of "post_event (the (json_stringify demo_booking))" "(demo_world (\<lambda>_ _. Received 201 (Some ''appointment'')))\<lparr>json_parse := json_parse_text\<rparr>"
      demo_booking "the (json_stringify demo_booking)"] demo_booking_text demo_booking_norm_valid
  by (simp add: post_event_def demo_env_def demo_world_def env_val_def opt_str_def has_credentials_def)

text \<open>
  Five hours behind UTC, in the last hours of January: both queries ask for
  February.
\<close>

theorem get_availability_same_month_witness:
  "httpMethod (avail_event ''GET'' [''appointmentTypeId'' \<mapsto> ''42'']) \<noteq> ''OPTIONS'' \<and> js_truthy (appointment_type_id (query_params (avail_event ''GET'' [''appointmentTypeId'' \<mapsto> ''42'']))) \<and>
   has_credentials west_world ''ACUITY_USER'' ''ACUITY_KEY'' \<and>
   -ms_per_day < tz_offset west_world \<and> tz_offset west_world < ms_per_day \<and>
   civil_from_days (now west_world div ms_per_day) = (2025, 2, 1) \<and>
   civil_from_days ((now west_world + tz_offset west_world) div ms_per_day) = (2025, 1, 31) \<and>
   (\<exists>r. snd (get_availability west_world (avail_event ''GET'' [''appointmentTypeId'' \<mapsto> ''42''])) = [r, r])"
  using get_availability_same_month [where ev = "avail_event ''GET'' [''appointmentTypeId'' \<mapsto> ''42'']"
      and w = west_world and yu = 2025 and mu = 2 and du = 1 and y = 2025 and m = 1 and d = 31]
    west_dates
  by (simp add: demo_simps west_world_def ms_per_day_def next_month_def)

theorem get_availability_debug_wire_witness:
  "httpMethod (avail_event ''GET'' [''appointmentTypeId'' \<mapsto> ''42'', ''debug'' \<mapsto> ''1'']) \<noteq> ''OPTIONS'' \<and> js_truthy (appointment_type_id (query_params (avail_event ''GET'' [''appointmentTypeId'' \<mapsto> ''42'', ''debug'' \<mapsto> ''1'']))) \<and>
   has_credentials (demo_world five_then_ten) ''ACUITY_USER'' ''ACUITY_KEY'' \<and>
   month_tokens (demo_world five_then_ten) = Inr (''2025-01'', ''2025-02'') \<and>
   debug_requested (query_params (avail_event ''GET'' [''appointmentTypeId'' \<mapsto> ''42'', ''debug'' \<mapsto> ''1''])) \<and>
   (\<exists>t kvs. wire_body (resp_body (fst (get_availability (demo_world five_then_ten) (avail_event ''GET'' [''appointmentTypeId'' \<mapsto> ''42'', ''debug'' \<mapsto> ''1''])))) = Some t \<and>
      json_decode t = Some (JObj kvs) \<and>
      map fst kvs = [''appointmentTypeId'', ''userId'', ''apiKey'', ''debugInfo'', ''totalResults'', ''sampleResults''] \<and>
      map_of kvs ''totalResults'' =
        Some (JNum (int (length (logged_slots (demo_world five_then_ten) 0
          (snd (get_availability (demo_world five_then_ten) (avail_event ''GET'' [''appointmentTypeId'' \<mapsto> ''42'', ''debug'' \<mapsto> ''1'']))))))))"
  using get_availability_debug_wire [of "avail_event ''GET'' [''appointmentTypeId'' \<mapsto> ''42'', ''debug'' \<mapsto> ''1'']" "demo_world five_then_ten" "''2025-01''" "''2025-02''"]
    demo_month_tokens
  by (simp add: demo_simps)

text \<open>
  A nested body read by the runtime's parser: some fuel reads it, so the
  handler's parse step gives the value.
\<close>

lemma nested_body_parses: "jvalue 4 ''[[1]]'' = Some (JArr [JArr [JNum 1]], [])"
  by code_simp

theorem book_appointment_parse_total_witness:
  "book_appointment ((demo_world (\<lambda>_ _. Received 201 (Some ''appointment'')))\<lparr>json_parse := json_parse_text\<rparr>) (post_event ''[[1]]'') \<noteq>
     (internal_error (SyntaxError ''Unexpected token in JSON''), [])"
proof -
  have h: "httpMethod (post_event ''[[1]]'') = ''POST''"
    "has_credentials ((demo_world (\<lambda>_ _. Received 201 (Some ''appointment'')))\<lparr>json_parse := json_parse_text\<rparr>) ''ACUITY_USER_ID'' ''ACUITY_API_KEY''"
    "json_parse ((demo_world (\<lambda>_ _. Received 201 (Some ''appointment'')))\<lparr>json_parse := json_parse_text\<rparr>) = json_parse_text"
    by (simp_all add: demo_simps)
  have b: "body_text (event_body (post_event ''[[1]]'')) = ''[[1]]''"
    by (simp add: post_event_def body_text_def)
  have "\<exists>n v r. jvalue n (body_text (event_body (post_event ''[[1]]''))) = Some (v, r) \<and> skip_ws r = []"
    unfolding b by (intro exI [of _ 4] exI [of _ "JArr [JArr [JNum 1]]"] exI [of _ "[]"])
      (simp add: nested_body_parses)
  then show ?thesis
    using book_appointment_parse_total [OF h] by blast
qed

theorem get_availability_upstream_text_witness:
  "\<exists>t. wire_body (resp_body (fst (get_availability ((demo_world text_slots)\<lparr>json_parse := json_parse_text\<rparr>) (avail_event ''GET'' [''appointmentTypeId'' \<mapsto> ''42''])))) = Some t \<and>
     json_decode t = Some (JArr (map (\<lambda>v. if v = JUndefined then JNull else json_norm v)
       (take 12 (map (\<lambda>v. if v = JUndefined then JNull else json_norm v)
         (map demo_slot [1, 2, 3] @ map demo_slot [4, 5])))))"
proof -
  have mt: "month_tokens ((demo_world text_slots)\<lparr>json_parse := json_parse_text\<rparr>) = Inr (''2025-01'', ''2025-02'')"
    using demo_month_tokens month_tokens_cong [of "(demo_world text_slots)\<lparr>json_parse := json_parse_text\<rparr>" "demo_world text_slots"] by (simp add: demo_world_def)
  have s1: "json_stringify (JArr (map demo_slot [1, 2, 3])) = Some (the (json_stringify (JArr (map demo_slot [1, 2, 3]))))"
    by (simp add: demo_slot_def)
  have s2: "json_stringify (JArr (map demo_slot [4, 5])) = Some (the (json_stringify (JArr (map demo_slot [4, 5]))))"
    by (simp add: demo_slot_def)
  have f1: "fetch ((demo_world text_slots)\<lparr>json_parse := json_parse_text\<rparr>) 0 (month_request ((demo_world text_slots)\<lparr>json_parse := json_parse_text\<rparr>) (avail_event ''GET'' [''appointmentTypeId'' \<mapsto> ''42'']) ''2025-01'') = Received 200 (Some (the (json_stringify (JArr (map demo_slot [1, 2, 3])))))"
    using s1 by (simp add: demo_world_def text_slots_def)
  have f2: "fetch ((demo_world text_slots)\<lparr>json_parse := json_parse_text\<rparr>) 1 (month_request ((demo_world text_slots)\<lparr>json_parse := json_parse_text\<rparr>) (avail_event ''GET'' [''appointmentTypeId'' \<mapsto> ''42'']) ''2025-02'') = Received 200 (Some (the (json_stringify (JArr (map demo_slot [4, 5])))))"
    using s2 by (simp add: demo_world_def text_slots_def)
  have h: "httpMethod (avail_event ''GET'' [''appointmentTypeId'' \<mapsto> ''42'']) \<noteq> ''OPTIONS''" "js_truthy (appointment_type_id (query_params (avail_event ''GET'' [''appointmentTypeId'' \<mapsto> ''42''])))"
    "has_credentials ((demo_world text_slots)\<lparr>json_parse := json_parse_text\<rparr>) ''ACUITY_USER'' ''ACUITY_KEY''" "\<not> debug_requested (query_params (avail_event ''GET'' [''appointmentTypeId'' \<mapsto> ''42'']))"
    "json_parse ((demo_world text_slots)\<lparr>json_parse := json_parse_text\<rparr>) = json_parse_text" "resp_ok 200"
    by (simp_all add: demo_simps resp_ok_def)
  show ?thesis
    by (rule get_availability_upstream_text [OF h(1-3) mt h(4,5) f1 h(6) s1 f2 h(6) s2])
qed

end
