(* ===== verification/Spec2Isabelle.thy ===== *)
theory Spec2Isabelle
  imports Examples
begin

text \<open>
  \<^bold>\<open>Verification development for the booking site's Netlify functions.\<close>

  \<^emph>\<open>The program.\<close> Two stateless HTTP handlers under
  \<^verbatim>\<open>src/safestroke-booking/netlify:/functions:/\<close> proxy a browser client to
  the Acuity scheduling API with Basic authentication:
  \<^item> \<^verbatim>\<open>book-appointment.js\<close> (\<^verbatim>\<open>exports.handler\<close>): OPTIONS preflight, a
    405 for other non-POST methods, a 500 without credentials, \<^verbatim>\<open>JSON.parse\<close>
    of the body, a 400 listing the falsy required fields, one POST to the
    appointments endpoint, the upstream status propagated on failure, 200
    with the appointment on success, 500 from the \<^verbatim>\<open>catch\<close>;
  \<^item> \<^verbatim>\<open>get-availability.js\<close> (\<^verbatim>\<open>exports.handler\<close>): OPTIONS preflight,
    a 400 without an appointment type, a 200 placeholder slot without
    credentials, the current and next month tokens from the clock, two GETs
    each inside its own \<^verbatim>\<open>try\<close>, then a debug object or the first 12 slots,
    500 from the outer \<^verbatim>\<open>catch\<close>.
  The handlers do not call each other; they share the runtime (event,
  response, \<^verbatim>\<open>process.env\<close>, \<^verbatim>\<open>fetch\<close>, \<^verbatim>\<open>Date\<close>, \<^verbatim>\<open>JSON\<close>,
  \<^verbatim>\<open>Buffer\<close>).

  \<^emph>\<open>The theories.\<close>
  \<^item> \<open>Prelude\<close>: the named fact collections, the error combinator
    \<open>bindE\<close> that threads a thrown error (\<open>Inl\<close>) through straight-line code,
    type names, generic list lemmas.
  \<^item> \<open>JsValue\<close>: JavaScript values (\<open>jsval\<close>), thrown errors
    (\<open>js_error\<close>), truthiness, \<^verbatim>\<open>||\<close>, property reads that throw on
    \<^verbatim>\<open>null\<close>/\<^verbatim>\<open>undefined\<close>, optional chaining, \<^verbatim>\<open>String(v)\<close>,
    \<^verbatim>\<open>join\<close>, and a \<^verbatim>\<open>split\<close> with the join/split round trip.
  \<^item> \<open>Http\<close>: the event and response records, outbound requests, the
    upstream outcome, and the \<open>world\<close> record of one invocation
    (environment, clock, zone offset, \<^verbatim>\<open>fetch\<close> as an oracle indexed by call
    number, the runtime's \<^verbatim>\<open>JSON.parse\<close> as a parameter). A handler is a
    function \<open>world \<Rightarrow> event \<Rightarrow> response \<times> http_request list\<close>: the
    list is every request it sent, in order, which makes the ordering and
    the absence of calls statable.
  \<^item> \<open>Json\<close>: \<^verbatim>\<open>JSON.stringify\<close> (\<open>json_stringify\<close>, with
    \<open>json_quote\<close> for \<^verbatim>\<open>QuoteJSONString\<close> and \<open>own_keys\<close> of
    \<open>JsValue\<close> for the key order: array indices ascending, then the other
    keys in creation order), the wire text of a response body
    (\<open>wire_body\<close>), and \<^verbatim>\<open>JSON.parse\<close> (\<open>json_parse_text\<close>,
    \<open>json_decode\<close>, mutually recursive \<open>jvalue\<close>/\<open>jelems\<close>/\<open>jmembers\<close>
    with fuel): the RFC 8259 grammar with white space around tokens,
    integers without leading zeros, string escapes, a \<^verbatim>\<open>SyntaxError\<close>
    on failure. \<open>json_decode_stringify\<close> proves the round trip: the text
    reads back as \<open>json_norm\<close> of the value, i.e. with undefined properties
    dropped and undefined array elements read as \<^verbatim>\<open>null\<close>. The proof shows
    every printed text reads as its value whatever follows it, provided it
    does not continue a number (\<open>parses_as\<close>, by induction over the
    printer); the element and member loops are lemmas over any texts with
    that property (\<open>jelems_commas\<close>, \<open>jmembers_commas\<close>).
  \<^item> \<open>JsonFuel\<close>: the fuel of the \<^verbatim>\<open>JSON.parse\<close> model. More fuel
    never changes a result (\<open>jvalue_fuel_mono\<close>, \<open>parse_fuel_le\<close>);
    inversion and introduction lemmas for a successful call of each of the
    three parsers; every call consumes input (\<open>parse_rest_shorter\<close>), so
    fuel above the length of the text is enough (\<open>parse_fuel_enough\<close>)
    and \<open>json_parse_text\<close> gives a value exactly when the unbounded
    recursive descent does (\<open>json_parse_text_complete\<close>).
  \<^item> \<open>Base64\<close>: \<^verbatim>\<open>Buffer.from(s).toString("base64")\<close> (UTF-8 of code points
    below 256, padded base64) and the Basic credential both handlers send;
    the decoders a server applies (\<open>base64_decode\<close>, \<open>utf8_decode\<close>,
    \<open>parse_basic\<close>) with the round trips \<open>base64_roundtrip\<close>,
    \<open>utf8_roundtrip\<close> and \<open>parse_basic_auth\<close>: the header reads back
    as the user id and key whenever the user id has no colon.
  \<^item> \<open>DateTime\<close>: time values, \<^verbatim>\<open>TimeClip\<close>, \<^verbatim>\<open>MakeDay\<close>, year and month
    of a time, \<^verbatim>\<open>toISOString\<close>, \<^verbatim>\<open>new Date(y, m, d)\<close> (\<open>local_date\<close>,
    which reads a year from 0 to 99 as 1900 + y: \<open>full_year\<close>), local
    time as UTC plus a fixed offset. The
    day-number conversions are the 400-year era formulas
    (\<open>days_from_civil\<close>, \<open>civil_from_days\<close>); the calendar they must
    implement is stated separately (\<open>is_leap_year\<close>, \<open>days_in_month\<close>,
    \<open>valid_date\<close>), and \<open>calendar_bijection\<close> proves the formulas are
    inverse bijections between all day numbers and the valid dates. The
    proof splits a day of an era into a year of the era and a day of that
    year (\<open>step_split\<close>, \<open>era_year_length\<close>, \<open>era_year_of_day\<close>,
    \<open>leap_of_era\<close>) and the day of the year into month and day
    (\<open>month_of_day\<close>, \<open>day_of_month_bound\<close>). Lemmas on the printed
    text give the \<^verbatim>\<open>YYYY-MM\<close> prefix of \<^verbatim>\<open>toISOString\<close> in years 0 to
    9999 (\<open>month_token\<close>).
  \<^item> \<open>BookAppointment\<close>: \<open>book_appointment\<close> and its blocks
    (\<open>missing_fields\<close>, \<open>booking_payload\<close>, \<open>booking_result\<close>,
    \<open>booking_try\<close>, \<open>internal_error\<close>), and its theorems: a request is sent
    only after every check passed and then exactly one; the 400 message lists
    exactly the falsy fields in order (split back by \<open>js_split\<close>); success,
    upstream failure, missing credentials, bad method, preflight, bodies that
    parse to \<^verbatim>\<open>null\<close> or not at all; the set of possible statuses; the
    request's Authorization header decodes to the configured credentials;
    the payload text sent upstream reads back with all seven fields in
    order; the success text has \<^verbatim>\<open>appointmentId\<close> exactly when the
    upstream data has an id; every answer to a POST is a JSON object text.
    With the runtime's parser (\<open>json_parse w = json_parse_text\<close>) a client
    posting \<^verbatim>\<open>JSON.stringify(b)\<close> is forwarded exactly when \<open>b\<close> has
    its required fields (\<open>book_appointment_client_roundtrip\<close>), and a body
    of white space gets 500 (\<open>book_appointment_blank_body\<close>). The
    parse of the body is total: with the runtime's parser a POST gets the
    \<^verbatim>\<open>SyntaxError\<close> 500 with nothing sent exactly when no amount of
    fuel reads the body as JSON, so the fuel never cuts a parse short and
    no other path gives that answer (\<open>book_appointment_parse_total\<close>).
  \<^item> \<open>GetAvailability\<close>: \<open>get_availability\<close> and its blocks
    (\<open>appointment_type_id\<close>, \<open>placeholder_response\<close>, \<open>month_tokens\<close>,
    \<open>month_query\<close> used for both months, \<open>debug_body\<close>,
    \<open>results_response\<close>, \<open>availability_try\<close>), the abstract
    contribution \<open>query_slots\<close> of one month, and its theorems: exactly two
    requests, current month first; the answer is the first 12 of the two
    months' slots, a failing month contributing nothing; the debug object;
    the 400, the placeholder, the preflight; 500 only from an invalid date;
    the method is not checked. In UTC (\<open>month_tokens_utc\<close>, from the
    calendar bijection) the two queries are for the month of the clock and
    the calendar month after it (\<open>next_month\<close>, December to January of the
    next year) in the year \<^verbatim>\<open>new Date\<close> reads, which is the year of the
    clock from year 100 on and 19yy for the years 0 to 99, and no clock in the years 0 to 9998 leads to a 500. Both
    queries carry the configured credentials, and every answer but the
    preflight is a JSON object or array text. The accumulator of the month
    queries is a reachability relation (\<open>acc_reachable\<close>, an
    \<open>inductive\<close> from the empty state by \<open>month_query\<close> steps) whose
    invariant, by rule induction, is one diagnostic line per request and the
    slots equal to what the logged requests account for (\<open>logged_slots\<close>);
    the slots answer read back from its wire text is the first twelve of
    those (\<open>get_availability_slots_wire\<close>); the debug text reads back
    with its six keys and the slot count (\<open>get_availability_debug_wire\<close>).
    \<open>get_availability_same_month\<close> characterises exactly, for every
    offset and clock, when both queries name the same month. End to end
    through the text layer, upstream answers given as the JSON text of two
    arrays and read by the runtime's parser come back in the response text
    as the first twelve of their normalised elements
    (\<open>get_availability_upstream_text\<close>).
  \<^item> \<open>Examples\<close>: concrete worlds, events and upstream answers on which the
    theorems' hypotheses hold, and the witnesses evaluating the handlers.
  \<^item> This theory: the header, and the URL property that combines the
    query string with the upstream request.

  \<^emph>\<open>Findings.\<close> The month tokens mix two clocks: \<^verbatim>\<open>currentMonth\<close> is the
  UTC month of now, \<^verbatim>\<open>nextMonth\<close> the UTC print of local midnight of the 1st
  of the next local month (\<open>month_tokens_local\<close>). In a zone ahead of UTC
  the second query is therefore always the local current month and the month
  after it is never queried (\<open>get_availability_east_skips_next_month\<close>);
  at and behind UTC the second query is the next local month
  (\<open>get_availability_west_months\<close>), but in the last hours of a local
  month behind UTC the UTC month is already the next one and both queries
  name it. Only in UTC are the two months the current one and the next
  (\<open>get_availability_utc_months\<close>), and only from year 100 on: the
  \<^verbatim>\<open>Date\<close> constructor reads the local years 0 to 99 as 1900 + y, so a
  clock on 0050-03-15 in UTC queries 0050-03 and 1950-04
  (\<open>year50_month_tokens\<close>). The appointment type id goes unescaped
  into the upstream URL (\<open>get_availability_id_unescaped\<close>). A booking body
  parsing to \<^verbatim>\<open>null\<close> gives 500, not 400; validation only tests truthiness;
  a user id containing a colon is not rejected, and the Basic credential
  then reads back as a different user. A body of white space is kept by
  \<^verbatim>\<open>event.body || "{}"\<close> and makes \<^verbatim>\<open>JSON.parse\<close> throw: 500, not the
  400 an empty body gets.

  \<^emph>\<open>Choices and limits.\<close> The handlers need no fuel: every loop of the
  source is a fixed sequence of steps (five field reads, two month
  queries), and every recursion of the model is structural or has a
  measure. The \<^verbatim>\<open>JSON.parse\<close> model takes fuel; \<open>json_decode\<close> gives it the
  length of the text plus one. That is enough because every call consumes
  at least one character and more fuel never changes a result: theory
  \<open>JsonFuel\<close> proves that a parse succeeding with any fuel succeeds with
  that fuel (\<open>parse_fuel_enough\<close>). Numbers are integers; strings are lists of 8-bit characters
  (code points below 256). The zone offset is fixed (no daylight saving).
  \<^verbatim>\<open>JSON.parse\<close> is any function of the world. Response bodies are kept
  as the value given to \<^verbatim>\<open>JSON.stringify\<close>; \<open>wire_body\<close> gives their
  text. The \<^verbatim>\<open>JSON.parse\<close> model reads integers only and
  \<^verbatim>\<open>\\u\<close> escapes below 256: a fraction, an exponent or a wider escape
  reads as an error (the model's values have no such numbers or
  characters), and its error message is one fixed text. The handlers keep
  \<^verbatim>\<open>JSON.parse\<close> as a parameter of the world, so their theorems hold for
  any parser; those that need the real one assume it. \<^verbatim>\<open>console.error\<close> is not
  modelled (no effect on answers). The upstream is an arbitrary oracle.

  \<^emph>\<open>Not modelled.\<close> Fractions, exponents and escapes above 255 in
  \<^verbatim>\<open>JSON.parse\<close> (the model's values have none), the text of its
  error messages, daylight saving, \<^verbatim>\<open>console.error\<close>, and the network
  and the scheduling service behind \<^verbatim>\<open>fetch\<close> (an oracle of the world).

  \<^emph>\<open>Property kinds not claimed.\<close> Termination is claimed for the one
  fuel-driven part, the \<^verbatim>\<open>JSON.parse\<close> model
  (\<open>book_appointment_parse_total\<close>); the handlers themselves are total
  HOL functions with no loop that could fail to end (the required-field
  filter is structural recursion over five names, the month queries two
  fixed steps). No liveness claim is made: each invocation is one
  request-response exchange with at most two upstream calls, so every
  eventuality ("a response is returned", "a request is sent") is already a
  functional or safety claim about that single exchange.
\<close>

text \<open>C28: the availability handler puts the appointment type id into the query string verbatim, so an id containing '&' adds parameters of its own to both upstream URLs.\<close>

theorem get_availability_id_unescaped:
  assumes "httpMethod ev \<noteq> ''OPTIONS''" and "appointment_type_id (query_params ev) = JStr tid"
    and "tid \<noteq> []" and "has_credentials w ''ACUITY_USER'' ''ACUITY_KEY''"
    and "month_tokens w = Inr (cur, nxt)"
  shows "map req_url (snd (get_availability w ev)) =
     [''https://acuityscheduling.com/api/v1/availability/times?appointmentTypeID='' @ tid @ ''&month='' @ cur,
      ''https://acuityscheduling.com/api/v1/availability/times?appointmentTypeID='' @ tid @ ''&month='' @ nxt]"
  using assms
  by (simp add: get_availability_def availability_try_def has_credentials_def Let_def
      availability_url_def availability_request_def)

theorem get_availability_id_unescaped_witness:
  "map req_url (snd (get_availability (demo_world five_then_ten)
      (avail_event ''GET'' [''appointmentTypeId'' \<mapsto> ''7&month=1999-01'']))) =
   [''https://acuityscheduling.com/api/v1/availability/times?appointmentTypeID=7&month=1999-01&month=2025-01'',
    ''https://acuityscheduling.com/api/v1/availability/times?appointmentTypeID=7&month=1999-01&month=2025-02'']"
  using get_availability_id_unescaped
      [of "avail_event ''GET'' [''appointmentTypeId'' \<mapsto> ''7&month=1999-01'']" "''7&month=1999-01''"
          "demo_world five_then_ten" "''2025-01''" "''2025-02''"] demo_month_tokens
  by (simp add: demo_simps)

end
